(* ===== verification/CLib.thy ===== *)
theory CLib
  imports Prelude
begin

text \<open>
  The part of the C library the program uses, on byte lists: a C string is the
  bytes of an array up to its first NUL, \<open>strncpy\<close> and \<open>snprintf\<close> overwrite a
  prefix of an array and keep its size, \<open>strtok\<close> walks over a buffer and cuts it
  in place, \<open>atoi\<close> and \<open>strtol\<close> read numbers.  The lemmas are the laws the
  components use: what a copy reads back as, when it is truncated, that a printed
  number parses to itself, and that the \<open>strtok\<close> loop cuts exactly the
  space-separated words.
\<close>

section \<open>C strings and character arrays\<close>

abbreviation NUL :: char where
  "NUL \<equiv> CHR 0x00"

abbreviation SPC :: char where
  "SPC \<equiv> CHR '' ''"

text \<open>The string that starts at the first byte of \<open>m\<close>.\<close>

definition c_str :: "bytes \<Rightarrow> string" where
  "c_str m = takeWhile (\<lambda>c. c \<noteq> NUL) m"

text \<open>\<open>strncpy(dst, src, n)\<close>: \<open>n\<close> bytes are written, padded with NULs; no
  terminator when \<open>src\<close> has \<open>n\<close> bytes or more.\<close>

definition strncpy :: "nat \<Rightarrow> string \<Rightarrow> bytes \<Rightarrow> bytes" where
  "strncpy n src dst = take n (src @ replicate n NUL) @ drop n dst"

text \<open>\<open>snprintf(dst, n, ...)\<close> of the formatted text \<open>s\<close>: at most \<open>n - 1\<close> bytes and a NUL.\<close>

definition snprintf :: "nat \<Rightarrow> string \<Rightarrow> bytes \<Rightarrow> bytes" where
  "snprintf n s dst =
     (if n = 0 then dst else let t = take (n - 1) s in t @ NUL # drop (Suc (length t)) dst)"

definition memset0 :: "nat \<Rightarrow> bytes \<Rightarrow> bytes" where
  "memset0 n dst = replicate n NUL @ drop n dst"

lemma c_str_simps [simp]:
  "c_str [] = []"
  "c_str (c # m) = (if c = NUL then [] else c # c_str m)"
  by (simp_all add: c_str_def)

lemma c_str_no_nul: "NUL \<notin> set (c_str m)"
  by (auto simp: c_str_def dest: set_takeWhileD)

lemma c_str_append: "NUL \<notin> set s \<Longrightarrow> c_str (s @ m) = s @ c_str m"
  by (induction s) auto

lemma c_str_term [simp]: "NUL \<notin> set s \<Longrightarrow> c_str (s @ NUL # m) = s"
  by (simp add: c_str_append)

lemma c_str_id: "NUL \<notin> set s \<Longrightarrow> c_str s = s"
  by (induction s) auto

lemma c_str_replicate [simp]: "c_str (replicate n NUL @ m) = (if n = 0 then c_str m else [])"
  by (cases n) auto

lemma c_str_replicate0 [simp]: "c_str (replicate n NUL) = []"
  by (cases n) auto

lemma length_strncpy [cstring_simps]:
  "n \<le> length dst \<Longrightarrow> length (strncpy n src dst) = length dst"
  by (simp add: strncpy_def)

lemma strncpy_short: "length src < n \<Longrightarrow>
    strncpy n src dst = src @ NUL # replicate (n - length src - 1) NUL @ drop n dst"
  by (cases "n - length src") (auto simp: strncpy_def)

text \<open>A string shorter than the bound reads back, whatever follows in memory.\<close>

lemma c_str_strncpy [cstring_simps]:
  "NUL \<notin> set src \<Longrightarrow> length src < n \<Longrightarrow> c_str (strncpy n src dst @ m) = src"
  by (simp add: strncpy_short)

text \<open>A string of exactly the bound is not terminated: reading runs into what follows.\<close>

lemma c_str_strncpy_full:
  "NUL \<notin> set src \<Longrightarrow> length src = n \<Longrightarrow> length dst = n \<Longrightarrow>
   c_str (strncpy n src dst @ m) = src @ c_str m"
  by (simp add: strncpy_def c_str_append)

lemma length_snprintf [cstring_simps]:
  "n \<le> length dst \<Longrightarrow> length (snprintf n s dst) = length dst"
  by (auto simp: snprintf_def Let_def)

lemma c_str_snprintf [cstring_simps]:
  "NUL \<notin> set s \<Longrightarrow> 0 < n \<Longrightarrow> c_str (snprintf n s dst @ m) = take (n - 1) s"
  by (auto simp: snprintf_def Let_def dest: in_set_takeD intro!: c_str_term)

lemma c_str_snprintf0 [cstring_simps]:
  "NUL \<notin> set s \<Longrightarrow> 0 < n \<Longrightarrow> c_str (snprintf n s dst) = take (n - 1) s"
  using c_str_snprintf [of s n dst "[]"] by simp

lemma length_memset0 [cstring_simps]: "n \<le> length dst \<Longrightarrow> length (memset0 n dst) = length dst"
  by (simp add: memset0_def)

lemma c_str_memset0 [cstring_simps]: "0 < n \<Longrightarrow> c_str (memset0 n dst @ m) = []"
  by (simp add: memset0_def)

section \<open>Character classes\<close>

definition isalpha :: "char \<Rightarrow> bool" where
  "isalpha c \<longleftrightarrow> (let n = of_char c :: nat in (65 \<le> n \<and> n \<le> 90) \<or> (97 \<le> n \<and> n \<le> 122))"

definition isspace :: "char \<Rightarrow> bool" where
  "isspace c \<longleftrightarrow> (let n = of_char c :: nat in n = 32 \<or> (9 \<le> n \<and> n \<le> 13))"

definition isdigit_base :: "nat \<Rightarrow> char \<Rightarrow> bool" where
  "isdigit_base b c \<longleftrightarrow> (let n = of_char c :: nat in 48 \<le> n \<and> n < 48 + b)"

definition digit_val :: "char \<Rightarrow> nat" where
  "digit_val c = of_char c - 48"

definition digit_char :: "nat \<Rightarrow> char" where
  "digit_char d = char_of (48 + d)"

lemma isalpha_not_nul: "isalpha c \<Longrightarrow> c \<noteq> NUL"
  by (auto simp: isalpha_def)

lemma digit_char_simps:
  assumes "d < b" "b \<le> 10"
  shows "isdigit_base b (digit_char d)" "digit_val (digit_char d) = d"
    "\<not> isspace (digit_char d)" "digit_char d \<noteq> NUL" "digit_char d \<noteq> CHR ''-''"
    "digit_char d \<noteq> CHR ''+''" "digit_char d \<noteq> SPC"
proof -
  have n: "(of_char (digit_char d) :: nat) = 48 + d"
    using assms by (simp add: digit_char_def)
  show "isdigit_base b (digit_char d)" "digit_val (digit_char d) = d" "\<not> isspace (digit_char d)"
    using assms n by (simp_all add: isdigit_base_def digit_val_def isspace_def)
  have ne: "digit_char d \<noteq> c" if "of_char c < (48 :: nat)" for c
    using n that by auto
  show "digit_char d \<noteq> NUL" "digit_char d \<noteq> CHR ''-''" "digit_char d \<noteq> CHR ''+''" "digit_char d \<noteq> SPC"
    by (rule ne, simp)+
qed

section \<open>Numbers: \<open>%d\<close>, \<open>atoi\<close>, \<open>strtol\<close>\<close>

fun show_nat :: "nat \<Rightarrow> string" where
  "show_nat n = (if n < 10 then [digit_char n] else show_nat (n div 10) @ [digit_char (n mod 10)])"

declare show_nat.simps [simp del]

definition show_int :: "int \<Rightarrow> string" where
  "show_int i = (if i < 0 then CHR ''-'' # show_nat (nat (- i)) else show_nat (nat i))"

definition LONG_MAX :: int where
  "LONG_MAX = 9223372036854775807"

definition digits_val :: "nat \<Rightarrow> string \<Rightarrow> nat" where
  "digits_val b ds = foldl (\<lambda>a c. a * b + digit_val c) 0 ds"

text \<open>\<open>strtol(s, NULL, b)\<close> for a base of at most ten, saturating at the ends of \<open>long\<close>.\<close>

definition strtol :: "nat \<Rightarrow> string \<Rightarrow> int" where
  "strtol b s =
     (let s1 = dropWhile isspace s;
          neg = (s1 \<noteq> [] \<and> hd s1 = CHR ''-'');
          s2 = (if s1 \<noteq> [] \<and> (hd s1 = CHR ''-'' \<or> hd s1 = CHR ''+'') then tl s1 else s1);
          v = int (digits_val b (takeWhile (isdigit_base b) s2))
      in if neg then max (- LONG_MAX - 1) (- v) else min LONG_MAX v)"

text \<open>\<open>atoi\<close> is \<open>(int) strtol(s, NULL, 10)\<close>.\<close>

definition atoi :: "string \<Rightarrow> int" where
  "atoi s = int_of_long (strtol 10 s)"

lemma digits_val_snoc: "digits_val b (ds @ [c]) = digits_val b ds * b + digit_val c"
  by (simp add: digits_val_def)

lemma show_nat_ne: "show_nat n \<noteq> []"
  by (subst show_nat.simps) simp

lemma show_nat_digits: "\<forall>c\<in>set (show_nat n). isdigit_base 10 c \<and> \<not> isspace c \<and> c \<noteq> NUL \<and>
    c \<noteq> CHR ''-'' \<and> c \<noteq> CHR ''+'' \<and> c \<noteq> SPC"
proof (induction n rule: show_nat.induct)
  case (1 n)
  then show ?case
    by (subst show_nat.simps) (auto simp: digit_char_simps [of _ 10])
qed

lemma digits_val_show_nat: "digits_val 10 (show_nat n) = n"
proof (induction n rule: show_nat.induct)
  case (1 n)
  show ?case
  proof (cases "n < 10")
    case True
    then show ?thesis
      by (subst show_nat.simps) (simp add: digits_val_def digit_char_simps [of n 10])
  next
    case False
    with 1 show ?thesis
      by (subst show_nat.simps) (simp add: digits_val_snoc digit_char_simps [of _ 10])
  qed
qed

lemma show_int_not_space: "\<forall>c\<in>set (show_int i). \<not> isspace c \<and> c \<noteq> NUL \<and> c \<noteq> SPC"
  using show_nat_digits by (auto simp: show_int_def isspace_def)

lemma show_int_ne: "show_int i \<noteq> []"
  by (simp add: show_int_def show_nat_ne)

text \<open>A printed number followed by anything that is not a digit parses to itself.\<close>

lemma strtol_show_int:
  assumes "\<bar>i\<bar> \<le> LONG_MAX" and r: "r = [] \<or> \<not> isdigit_base 10 (hd r)"
  shows "strtol 10 (show_int i @ r) = i"
proof -
  have stop: "takeWhile (isdigit_base 10) r = []"
    using r by (cases r) auto
  have tw: "takeWhile (isdigit_base 10) (show_nat n @ r) = show_nat n" for n
    using show_nat_digits [of n] stop by (simp add: takeWhile_all)
  have dw: "dropWhile isspace (show_nat n @ r) = show_nat n @ r" for n
    using show_nat_digits [of n] show_nat_ne [of n] by (cases "show_nat n") auto
  have hd: "hd (show_nat n) \<noteq> CHR ''-''" "hd (show_nat n) \<noteq> CHR ''+''" for n
    using show_nat_digits [of n] show_nat_ne [of n] by (cases "show_nat n"; auto)+
  show ?thesis
  proof (cases "i < 0")
    case True
    have "\<not> isspace (CHR ''-'')" by (simp add: isspace_def)
    with True assms show ?thesis
      by (simp add: strtol_def show_int_def tw digits_val_show_nat)
  next
    case False
    with assms show ?thesis
      by (simp add: strtol_def show_int_def tw dw hd show_nat_ne digits_val_show_nat)
  qed
qed

lemma atoi_show_int:
  assumes "- (2 ^ 31) \<le> i" "i < 2 ^ 31"
  shows "atoi (show_int i) = i"
proof -
  have "\<bar>i\<bar> \<le> LONG_MAX" using assms by (simp add: LONG_MAX_def)
  then have "strtol 10 (show_int i) = i" using strtol_show_int [of i "[]"] by simp
  then show ?thesis using assms by (simp add: atoi_def int_of_long_id)
qed

section \<open>Searching in strings\<close>

text \<open>\<open>strstr(h, n) != NULL\<close>.\<close>

fun strstr :: "string \<Rightarrow> string \<Rightarrow> bool" where
  "strstr [] n = (n = [])"
| "strstr (c # h) n = (take (length n) (c # h) = n \<or> strstr h n)"

lemma strstr_iff: "strstr h n \<longleftrightarrow> (\<exists>a b. h = a @ n @ b)"
proof (induction h)
  case Nil
  then show ?case by simp
next
  case (Cons c h)
  show ?case
  proof
    assume "strstr (c # h) n"
    then consider "take (length n) (c # h) = n" | "strstr h n" by auto
    then show "\<exists>a b. c # h = a @ n @ b"
    proof cases
      case 1
      then have "c # h = [] @ n @ drop (length n) (c # h)" by (metis append_Nil append_take_drop_id)
      then show ?thesis by blast
    next
      case 2
      then obtain a b where "h = a @ n @ b" using Cons by blast
      then have "c # h = (c # a) @ n @ b" by simp
      then show ?thesis by blast
    qed
  next
    assume "\<exists>a b. c # h = a @ n @ b"
    then obtain a b where ab: "c # h = a @ n @ b" by blast
    show "strstr (c # h) n"
    proof (cases a)
      case Nil
      with ab have "c # h = n @ b" by simp
      then have "take (length n) (c # h) = n" by simp
      then show ?thesis by simp
    next
      case (Cons x xs)
      with ab have "h = xs @ n @ b" by simp
      then show ?thesis using Cons.IH by auto
    qed
  qed
qed

text \<open>\<open>strncmp(s, p, strlen(p)) == 0\<close>.\<close>

definition has_prefix :: "string \<Rightarrow> string \<Rightarrow> bool" where
  "has_prefix p s \<longleftrightarrow> take (length p) s = p"

text \<open>What follows the last slash, as \<open>strrchr\<close> is used: the whole string without one.\<close>

definition after_last_slash :: "string \<Rightarrow> string" where
  "after_last_slash s = rev (takeWhile (\<lambda>c. c \<noteq> CHR ''/'') (rev s))"

lemma after_last_slash_no_slash: "CHR ''/'' \<notin> set (after_last_slash s)"
  by (auto simp: after_last_slash_def dest: set_takeWhileD)

section \<open>\<open>strtok(., " ")\<close>\<close>

text \<open>
  One call on the buffer \<open>buf\<close> with the saved position \<open>p\<close>: skip spaces; no token
  at the end of the string; else the token's start, the buffer with the space
  after the token overwritten by NUL, and the position to go on from.
\<close>

definition strtok :: "bytes \<Rightarrow> nat \<Rightarrow> (nat \<times> bytes \<times> nat) option" where
  "strtok buf p =
     (let q = p + length (takeWhile (\<lambda>c. c = SPC) (drop p buf));
          n = length (takeWhile (\<lambda>c. c \<noteq> SPC \<and> c \<noteq> NUL) (drop q buf));
          e = q + n
      in if n = 0 then None
         else if e < length buf \<and> buf ! e = SPC then Some (q, buf[e := NUL], Suc e)
         else Some (q, buf, e))"

text \<open>The words of a string: what lies between spaces, less the empty pieces.\<close>

fun split_on_space :: "string \<Rightarrow> string list" where
  "split_on_space [] = [[]]"
| "split_on_space (c # s) =
     (if c = SPC then [] # split_on_space s
      else (case split_on_space s of [] \<Rightarrow> [[c]] | w # ws \<Rightarrow> (c # w) # ws))"

definition words_of :: "string \<Rightarrow> string list" where
  "words_of s = filter (\<lambda>w. w \<noteq> []) (split_on_space s)"

lemma split_on_space_no_space: "w \<in> set (split_on_space s) \<Longrightarrow> SPC \<notin> set w"
  by (induction s arbitrary: w) (auto split: list.splits if_splits)

lemma split_on_space_word:
  "SPC \<notin> set w \<Longrightarrow> split_on_space (w @ SPC # s) = w # split_on_space s"
  "SPC \<notin> set w \<Longrightarrow> split_on_space w = [w]"
  by (induction w) auto

lemma words_of_ne: "w \<in> set (words_of s) \<Longrightarrow> w \<noteq> [] \<and> SPC \<notin> set w"
  by (auto simp: words_of_def dest: split_on_space_no_space)

lemma words_of_simps [simp]:
  "words_of [] = []"
  "words_of (SPC # s) = words_of s"
  by (simp_all add: words_of_def)

lemma words_of_word:
  "w \<noteq> [] \<Longrightarrow> SPC \<notin> set w \<Longrightarrow> words_of (w @ SPC # s) = w # words_of s"
  "w \<noteq> [] \<Longrightarrow> SPC \<notin> set w \<Longrightarrow> words_of w = [w]"
  by (simp_all add: words_of_def split_on_space_word)

lemma words_of_spaces: "words_of s = words_of (dropWhile (\<lambda>c. c = SPC) s)"
  by (induction s) auto

lemma words_of_eq_Nil: "words_of s = [] \<longleftrightarrow> (\<forall>c\<in>set s. c = SPC)"
proof (induction s)
  case (Cons c s)
  then show ?case by (auto simp: words_of_def split: list.splits if_splits)
qed simp

section \<open>\<open>strerror\<close>\<close>

abbreviation (input) EPERM :: int where "EPERM \<equiv> 1"
abbreviation (input) ENOENT :: int where "ENOENT \<equiv> 2"
abbreviation (input) EINTR :: int where "EINTR \<equiv> 4"
abbreviation (input) EACCES :: int where "EACCES \<equiv> 13"
abbreviation (input) EEXIST :: int where "EEXIST \<equiv> 17"
abbreviation (input) ENOTDIR :: int where "ENOTDIR \<equiv> 20"
abbreviation (input) EISDIR :: int where "EISDIR \<equiv> 21"
abbreviation (input) EINVAL :: int where "EINVAL \<equiv> 22"
abbreviation (input) ENOTEMPTY :: int where "ENOTEMPTY \<equiv> 39"

definition strerror :: "int \<Rightarrow> string" where
  "strerror e =
     (if e = EPERM then ''Operation not permitted''
      else if e = ENOENT then ''No such file or directory''
      else if e = EINTR then ''Interrupted system call''
      else if e = EACCES then ''Permission denied''
      else if e = EEXIST then ''File exists''
      else if e = ENOTDIR then ''Not a directory''
      else if e = EISDIR then ''Is a directory''
      else if e = EINVAL then ''Invalid argument''
      else if e = ENOTEMPTY then ''Directory not empty''
      else ''Unknown error '' @ show_int e)"

end
