(* ===== verification/Kernel.thy ===== *)
theory Kernel
  imports CLib
begin

text \<open>
  The boundary to the operating system.  Every system call (and every library
  call that asks the system something, such as \<open>getpwnam\<close>) is a value of the
  type \<open>syscall\<close>; what answers it is a parameter \<open>K\<close> of the model, a function on
  an arbitrary type of worlds.  A process is the world, the calls it has made with
  their answers, and \<open>errno\<close>.  A theorem that holds for every \<open>K\<close> holds for every
  behaviour of the system: every failure, every partial read, every interleaving
  with other processes that is visible through an answer.

  The second half is the machinery for such theorems: monitors, which are
  automata over the calls a process has made, and the rule that a call may be
  answered by anything.
\<close>

section \<open>System calls\<close>

datatype oflag = O_RDONLY | O_WRONLY | O_RDWR | O_CREAT | O_TRUNC | O_NOFOLLOW | O_DIRECTORY

datatype lock_kind = F_RDLCK | F_WRLCK | F_UNLCK

datatype seek_whence = SEEK_SET | SEEK_END

record stat_buf =
  st_mode :: u32
  st_size :: int

record passwd =
  pw_name :: string
  pw_uid :: u32
  pw_gid :: u32
  pw_dir :: string

text \<open>Calls that name a file by its path, as seen from the process.\<close>

datatype path_call =
    Open string "oflag list" u32
  | Openat int string "oflag list" u32
  | Stat string
  | Mkdir string u32
  | Rmdir string
  | Unlink string
  | Rename string string
  | Chmod string u32
  | Chown string u32 u32
  | Chgrp string u32
  | Opendir string

text \<open>Calls on a descriptor the process holds.\<close>

datatype fd_call =
    Close int
  | Read int nat
  | Write int bytes
  | Lseek int int seek_whence
  | Fstat int
  | Fchown int u32 u32
  | Readdir int
  | Closedir int
  | Setlkw int lock_kind
  | Setlk int lock_kind

text \<open>Calls on the root, the working directory and the identity of the process.\<close>

datatype cred_call =
    Chroot string
  | Chdir string
  | Getcwd nat
  | Getuid
  | Initgroups string u32
  | Setegid u32
  | Seteuid u32
  | Setgid u32
  | Setuid u32

datatype proc_call =
    Getpwnam string
  | Getpwuid u32
  | Getgrnam string
  | Getenv string
  | Fork
  | Getpid
  | Wait
  | Waitpid int
  | Waitpid_nohang
  | Execlp "string list"
  | Kill int int
  | Sleep nat

datatype net_call =
    Socket_unix
  | Socket_inet
  | Inet_pton string
  | Setsockopt_reuseaddr int
  | Bind_unix int string
  | Bind_inet int string int
  | Bind_any int
  | Connect_inet int string int
  | Select int
  | Fgets_stdin nat
  | Connect_unix int string
  | Listen int nat
  | Accept int
  | Getsockname int

text \<open>
  The memory a process shares with others: the semaphore of the registry, the flag
  that the signal handler sets, and the shared memory object itself.
\<close>

datatype mem_call =
    SemWait
  | SemPost
  | SemInit
  | SemDestroy
  | FlagRead
  | FlagClear
  | Sigaction nat
  | Shm_open
  | Shm_unlink
  | Ftruncate int nat
  | Mmap int nat

text \<open>
  Streams of the C library (the client's files, standard output and standard error), and
  the client's threads: a transfer with its direction, port, path and \<open>is_bg\<close>; the thread
  that reads answers is \<open>False\<close>, the one that writes requests \<open>True\<close>.
\<close>

datatype stdio_call =
    Fopen string string
  | Fread int nat
  | Fwrite int bytes
  | Fclose int
  | Puts string
  | Eputs string
  | Thread_create bool int string u8
  | Thread_start bool
  | Thread_join bool
  | Thread_cancel bool

datatype syscall =
    PathC path_call
  | FdC fd_call
  | CredC cred_call
  | ProcC proc_call
  | NetC net_call
  | MemC mem_call
  | StdioC stdio_call

text \<open>
  An answer: the return value, the \<open>errno\<close> of a failure, and what the call stores
  through its pointer arguments (bytes read, a \<open>struct stat\<close>, a password entry, a
  directory entry, a wait status).
\<close>

record sysres =
  rv :: int
  err :: int
  out :: bytes
  stat_out :: stat_buf
  pw_out :: "passwd option"
  ent_out :: "string option"
  wait_out :: int

type_synonym 'w kernel = "'w \<Rightarrow> syscall \<Rightarrow> sysres \<times> 'w"

type_synonym event = "syscall \<times> sysres"

record 'w proc =
  world :: 'w
  events :: "event list"
  errno :: int

type_synonym ('w, 'a) sysprog = "('w proc, 'a) prog"

definition no_stat :: stat_buf where
  "no_stat = \<lparr>st_mode = 0, st_size = 0\<rparr>"

text \<open>An answer that is only a return value, and a failure.\<close>

definition res_val :: "int \<Rightarrow> sysres" where
  "res_val n = \<lparr>rv = n, err = 0, out = [], stat_out = no_stat, pw_out = None, ent_out = None,
     wait_out = 0\<rparr>"

definition res_err :: "int \<Rightarrow> sysres" where
  "res_err e = \<lparr>rv = - 1, err = e, out = [], stat_out = no_stat, pw_out = None, ent_out = None,
     wait_out = 0\<rparr>"

lemma res_val_simps [simp]:
  "rv (res_val n) = n" "out (res_val n) = []" "pw_out (res_val n) = None" "err (res_val n) = 0"
  "ent_out (res_val n) = None" "stat_out (res_val n) = no_stat"
  by (simp_all add: res_val_def)

lemma res_err_simps [simp]:
  "rv (res_err e) = - 1" "err (res_err e) = e" "out (res_err e) = []" "pw_out (res_err e) = None"
  "ent_out (res_err e) = None" "stat_out (res_err e) = no_stat"
  by (simp_all add: res_err_def)

definition after_call :: "'w proc \<Rightarrow> syscall \<Rightarrow> sysres \<Rightarrow> 'w \<Rightarrow> 'w proc" where
  "after_call p c r w =
     \<lparr>world = w, events = events p @ [(c, r)], errno = (if rv r < 0 then err r else errno p)\<rparr>"

lemma after_call_simps [simp]:
  "world (after_call p c r w) = w"
  "events (after_call p c r w) = events p @ [(c, r)]"
  "errno (after_call p c r w) = (if rv r < 0 then err r else errno p)"
  by (simp_all add: after_call_def)

definition sys :: "'w kernel \<Rightarrow> syscall \<Rightarrow> ('w, sysres) sysprog" where
  "sys K c = State (\<lambda>p. let (r, w) = K (world p) c in (r, after_call p c r w))"

text \<open>A call of which only the return value matters.\<close>

definition call :: "'w kernel \<Rightarrow> syscall \<Rightarrow> ('w, int) sysprog" where
  "call K c = do { r \<leftarrow> sys K c; State_Monad.return (rv r) }"

definition get_errno :: "('w, int) sysprog" where
  "get_errno = do { p \<leftarrow> State_Monad.get; State_Monad.return (errno p) }"

lemma run_sys:
  "run_state (sys K c) p =
     (fst (K (world p) c), after_call p c (fst (K (world p) c)) (snd (K (world p) c)))"
  by (simp add: sys_def split: prod.split)

lemma run_call:
  "run_state (call K c) p =
     (rv (fst (K (world p) c)), after_call p c (fst (K (world p) c)) (snd (K (world p) c)))"
  by (simp add: call_def run_sys)

lemma run_get_errno [simp]: "run_state get_errno p = (errno p, p)"
  by (simp add: get_errno_def)

lemma wp_get_errno [wp_simps]: "wp get_errno Q p \<longleftrightarrow> Q (errno p) p"
  by (simp add: wp_def)

text \<open>Any answer at all: the rule for theorems about every kernel.\<close>

lemma wp_sysI: "(\<And>r w. Q r (after_call p c r w)) \<Longrightarrow> wp (sys K c) Q p"
  by (simp add: wp_def run_sys)

lemma wp_callI: "(\<And>r w. Q (rv r) (after_call p c r w)) \<Longrightarrow> wp (call K c) Q p"
  by (simp add: wp_def run_call)

lemmas any_kernel = wp_sysI wp_callI

text \<open>
  How a piece of code that may not come back ends: with a value, with the process
  gone (\<open>_exit\<close>), still in a loop when the fuel ran out, or in undefined behaviour
  of C (an access outside an array, a null pointer).
\<close>

datatype 'a outcome = Returned 'a | Exited | Running | Undefined

section \<open>Monitors\<close>

text \<open>
  A monitor reads the calls of a process one by one; \<open>None\<close> is a violation.
\<close>

fun mon_run :: "('m \<Rightarrow> event \<Rightarrow> 'm option) \<Rightarrow> 'm \<Rightarrow> event list \<Rightarrow> 'm option" where
  "mon_run f m [] = Some m"
| "mon_run f m (e # es) = (case f m e of None \<Rightarrow> None | Some m' \<Rightarrow> mon_run f m' es)"

lemma mon_run_append [mon_simps]:
  "mon_run f m (xs @ ys) = (case mon_run f m xs of None \<Rightarrow> None | Some m' \<Rightarrow> mon_run f m' ys)"
  by (induction xs arbitrary: m) (auto split: option.split)

text \<open>Events a monitor ignores do not change its state.\<close>

lemma mon_run_ignored: "(\<And>e. e \<in> set es \<Longrightarrow> f m e = Some m) \<Longrightarrow> mon_run f m es = Some m"
  by (induction es) auto

text \<open>
  A program is silent for a set of calls when all it does is to make calls of that
  set: the contract of the I/O loops, whose calls no monitor looks at.
\<close>

definition only_calls :: "(syscall \<Rightarrow> bool) \<Rightarrow> ('w, 'a) sysprog \<Rightarrow> bool" where
  "only_calls C m \<longleftrightarrow>
     (\<forall>p. \<exists>es. events (snd (run_state m p)) = events p @ es \<and> (\<forall>e\<in>set es. C (fst e)))"

lemma only_calls_return: "only_calls C (State_Monad.return a)"
  by (simp add: only_calls_def)

lemma only_calls_call: "C c \<Longrightarrow> only_calls C (call K c)"
  by (simp add: only_calls_def run_call)

lemma only_calls_sys: "C c \<Longrightarrow> only_calls C (sys K c)"
  by (simp add: only_calls_def run_sys)

lemma only_calls_bind:
  assumes "only_calls C m" "\<And>a. only_calls C (f a)"
  shows "only_calls C (m \<bind> f)"
  unfolding only_calls_def
proof
  fix p
  obtain a p' where m: "run_state m p = (a, p')" by fastforce
  obtain es where es: "events p' = events p @ es" "\<forall>e\<in>set es. C (fst e)"
    using assms(1) m unfolding only_calls_def by (metis snd_conv)
  obtain es' where "events (snd (run_state (f a) p')) = events p' @ es'" "\<forall>e\<in>set es'. C (fst e)"
    using assms(2) [of a] unfolding only_calls_def by blast
  with es m have "events (snd (run_state (m \<bind> f) p)) = events p @ (es @ es')"
    "\<forall>e\<in>set (es @ es'). C (fst e)"
    by auto
  then show "\<exists>es. events (snd (run_state (m \<bind> f) p)) = events p @ es \<and> (\<forall>e\<in>set es. C (fst e))"
    by blast
qed

lemma only_calls_if: "(b \<Longrightarrow> only_calls C m) \<Longrightarrow> (\<not> b \<Longrightarrow> only_calls C n) \<Longrightarrow>
    only_calls C (if b then m else n)"
  by simp

lemmas only_calls_intros =
  only_calls_return only_calls_call only_calls_sys only_calls_bind only_calls_if

lemma wp_only_callsI:
  assumes "only_calls C m"
    and "\<And>a p' es. events p' = events p @ es \<Longrightarrow> \<forall>e\<in>set es. C (fst e) \<Longrightarrow> Q a p'"
  shows "wp m Q p"
proof -
  obtain es where "events (snd (run_state m p)) = events p @ es" "\<forall>e\<in>set es. C (fst e)"
    using assms(1) unfolding only_calls_def by blast
  then show ?thesis unfolding wp_run by (rule assms(2))
qed

end
