(* ===== verification/Stream_IO.thy ===== *)
theory Stream_IO
  imports Kernel
begin

text \<open>
  \<open>src/src/common/utility.c\<close>: the byte loops on descriptors, and the advisory file
  locks.  \<open>writeAll\<close> and \<open>readAll\<close> terminate because every round that goes on has
  moved at least one byte; the two loops that retry after \<open>EINTR\<close> have no such
  bound and take fuel (\<open>None\<close>: the fuel ran out, the loop is still running).

  The two locales say what the code relies on of a descriptor: reading hands out
  the bytes that are on their way in order, in pieces of any size, and writing
  takes any non-empty prefix.  Under them the loops move exactly the bytes asked
  for, whatever the pieces.
\<close>

section \<open>Definitions\<close>

datatype LockType = LOCK_SHARED | LOCK_EXCLUSIVE

definition validate_port :: "int \<Rightarrow> bool" where
  "validate_port port \<longleftrightarrow> 0 < port \<and> port \<le> 65535"

lemma bind_cong_prog [fundef_cong]:
  "m = m' \<Longrightarrow> (\<And>a. f a = g a) \<Longrightarrow> State_Monad.bind m f = State_Monad.bind m' g"
  by presburger

text \<open>\<open>rest\<close> is the part of the buffer from \<open>sent\<close> on.\<close>

function writeAll_loop :: "'w kernel \<Rightarrow> int \<Rightarrow> bytes \<Rightarrow> int \<Rightarrow> ('w, int) sysprog" where
  "writeAll_loop K fd rest sent =
     (if rest = [] then State_Monad.return sent
      else do {
        n \<leftarrow> call K (FdC (Write fd rest));
        if n \<le> 0 then State_Monad.return (- 1)
        else writeAll_loop K fd (drop (nat n) rest) (sent + n)
      })"
  by pat_completeness auto
termination
  by (relation "measure (\<lambda>(K, fd, rest, sent). length rest)") (auto simp: length_greater_0_conv [symmetric] simp del: length_greater_0_conv)

declare writeAll_loop.simps [simp del]

definition writeAll :: "'w kernel \<Rightarrow> int \<Rightarrow> bytes \<Rightarrow> ('w, int) sysprog" where
  "writeAll K fd buf = writeAll_loop K fd buf 0"

text \<open>The result is the return value and the bytes stored in the caller's buffer.\<close>

function readAll_loop :: "'w kernel \<Rightarrow> int \<Rightarrow> nat \<Rightarrow> nat \<Rightarrow> bytes \<Rightarrow> ('w, int \<times> bytes) sysprog" where
  "readAll_loop K fd len recvd buf =
     (if len \<le> recvd then State_Monad.return (int recvd, buf)
      else do {
        r \<leftarrow> sys K (FdC (Read fd (len - recvd)));
        if rv r = 0 then State_Monad.return (0, buf)
        else if rv r < 0 then State_Monad.return (- 1, buf)
        else readAll_loop K fd len (recvd + nat (rv r)) (buf @ take (nat (rv r)) (out r))
      })"
  by pat_completeness auto
termination
  by (relation "measure (\<lambda>(K, fd, len, recvd, buf). len - recvd)") auto

declare readAll_loop.simps [simp del]

definition readAll :: "'w kernel \<Rightarrow> int \<Rightarrow> nat \<Rightarrow> ('w, int \<times> bytes) sysprog" where
  "readAll K fd len = readAll_loop K fd len 0 []"

text \<open>
  \<open>readByteStream\<close> reads byte by byte up to a newline; \<open>buf\<close> holds the \<open>len\<close> bytes
  read so far and the result carries the terminated string.  \<open>size - 1\<close> is the
  unsigned subtraction of the source.
\<close>

definition size_minus_1 :: "nat \<Rightarrow> nat" where
  "size_minus_1 sz = (if sz = 0 then 2 ^ 64 - 1 else sz - 1)"

fun readByteStream :: "nat \<Rightarrow> 'w kernel \<Rightarrow> int \<Rightarrow> nat \<Rightarrow> bytes \<Rightarrow> ('w, (int \<times> bytes) option) sysprog" where
  "readByteStream 0 K client_fd sz buf = State_Monad.return None"
| "readByteStream (Suc fuel) K client_fd sz buf =
     (if \<not> length buf < size_minus_1 sz then State_Monad.return (Some (int (length buf), buf @ [NUL]))
      else do {
        r \<leftarrow> sys K (FdC (Read client_fd 1));
        if rv r < 0 then do {
          e \<leftarrow> get_errno;
          if e = EINTR then readByteStream fuel K client_fd sz buf
          else State_Monad.return (Some (- 1, buf))
        }
        else if rv r = 0 then State_Monad.return (Some (0, buf))
        else if out r = [CHR 0x0A] then State_Monad.return (Some (int (length buf), buf @ [NUL]))
        else readByteStream fuel K client_fd sz (buf @ out r)
      })"

fun writeByteStream :: "nat \<Rightarrow> 'w kernel \<Rightarrow> int \<Rightarrow> bytes \<Rightarrow> int \<Rightarrow> ('w, int option) sysprog" where
  "writeByteStream 0 K client_fds rest sent = State_Monad.return None"
| "writeByteStream (Suc fuel) K client_fds rest sent =
     (if rest = [] then State_Monad.return (Some sent)
      else do {
        n \<leftarrow> call K (FdC (Write client_fds rest));
        if n < 0 then do {
          e \<leftarrow> get_errno;
          if e = EINTR then writeByteStream fuel K client_fds rest sent
          else State_Monad.return (Some (- 1))
        }
        else if n = 0 then State_Monad.return (Some sent)
        else writeByteStream fuel K client_fds (drop (nat n) rest) (sent + n)
      })"

definition sendMessage :: "nat \<Rightarrow> 'w kernel \<Rightarrow> int \<Rightarrow> string \<Rightarrow> ('w, int option) sysprog" where
  "sendMessage fuel K fd msg = do {
     n \<leftarrow> writeByteStream fuel K fd msg 0;
     State_Monad.return (map_option (\<lambda>n. if n \<le> 0 then - 1 else 0) n)
   }"

definition lock_of :: "LockType \<Rightarrow> lock_kind" where
  "lock_of t = (if t = LOCK_EXCLUSIVE then F_WRLCK else F_RDLCK)"

definition lock_file :: "'w kernel \<Rightarrow> string \<Rightarrow> LockType \<Rightarrow> ('w, int) sysprog" where
  "lock_file K path type = do {
     fd \<leftarrow> call K (PathC (Open path [if type = LOCK_EXCLUSIVE then O_RDWR else O_RDONLY] 0));
     if fd < 0 then State_Monad.return (- 1)
     else do {
       l \<leftarrow> call K (FdC (Setlkw fd (lock_of type)));
       if l < 0 then do {
         _ \<leftarrow> call K (FdC (Close fd));
         State_Monad.return (- 1)
       }
       else State_Monad.return fd
     }
   }"

definition unlock_file :: "'w kernel \<Rightarrow> int \<Rightarrow> ('w, unit) sysprog" where
  "unlock_file K fd =
     (if fd < 0 then State_Monad.return ()
      else do {
        _ \<leftarrow> call K (FdC (Setlk fd F_UNLCK));
        _ \<leftarrow> call K (FdC (Close fd));
        State_Monad.return ()
      })"

definition lock_fd :: "'w kernel \<Rightarrow> int \<Rightarrow> LockType \<Rightarrow> ('w, int) sysprog" where
  "lock_fd K fd type =
     (if fd < 0 then State_Monad.return (- 1)
      else do {
        l \<leftarrow> call K (FdC (Setlkw fd (lock_of type)));
        State_Monad.return (if l < 0 then - 1 else 0)
      })"

definition unlock_fd :: "'w kernel \<Rightarrow> int \<Rightarrow> ('w, int) sysprog" where
  "unlock_fd K fd =
     (if fd < 0 then State_Monad.return (- 1)
      else do {
        l \<leftarrow> call K (FdC (Setlk fd F_UNLCK));
        State_Monad.return (if l < 0 then - 1 else 0)
      })"

section \<open>What the loops do on every kernel\<close>

definition writes_to :: "int \<Rightarrow> syscall \<Rightarrow> bool" where
  "writes_to fd c \<longleftrightarrow> (case c of FdC (Write fd' b) \<Rightarrow> fd' = fd | _ \<Rightarrow> False)"

definition reads_from :: "int \<Rightarrow> syscall \<Rightarrow> bool" where
  "reads_from fd c \<longleftrightarrow> (case c of FdC (Read fd' n) \<Rightarrow> fd' = fd | _ \<Rightarrow> False)"

lemma writes_to_simps [simp]: "writes_to fd (FdC (Write fd b))"
  by (simp add: writes_to_def)

lemma reads_from_simps [simp]: "reads_from fd (FdC (Read fd n))"
  by (simp add: reads_from_def)

lemma writes_to_iff: "writes_to fd c \<longleftrightarrow> (\<exists>b. c = FdC (Write fd b))"
  by (auto simp: writes_to_def split: syscall.split fd_call.split)

lemma reads_from_iff: "reads_from fd c \<longleftrightarrow> (\<exists>n. c = FdC (Read fd n))"
  by (auto simp: reads_from_def split: syscall.split fd_call.split)

lemma writeAll_loop_only: "only_calls (writes_to fd) (writeAll_loop K fd rest sent)"
proof (induction K fd rest sent rule: writeAll_loop.induct)
  case (1 K fd rest sent)
  then show ?case
    by (subst writeAll_loop.simps) (auto intro!: only_calls_intros)
qed

lemma writeAll_only: "only_calls (writes_to fd) (writeAll K fd buf)"
  by (simp add: writeAll_def writeAll_loop_only)

lemma readAll_loop_only: "only_calls (reads_from fd) (readAll_loop K fd len recvd buf)"
proof (induction K fd len recvd buf rule: readAll_loop.induct)
  case (1 K fd len recvd buf)
  then show ?case
    by (subst readAll_loop.simps) (auto intro!: only_calls_intros)
qed

lemma readAll_only: "only_calls (reads_from fd) (readAll K fd len)"
  by (simp add: readAll_def readAll_loop_only)

section \<open>What the code relies on of a stream descriptor\<close>

text \<open>
  \<open>avail w\<close>: the bytes that can still be read from \<open>fd\<close>; \<open>keep w\<close>: what reading
  leaves alone; \<open>ok w\<close>: an invariant of the world.
\<close>

locale byte_source =
  fixes K :: "'w kernel" and fd :: int
    and avail :: "'w \<Rightarrow> bytes" and keep :: "'w \<Rightarrow> 'k" and ok :: "'w \<Rightarrow> bool"
  assumes read_some:
      "ok w \<Longrightarrow> 0 < n \<Longrightarrow> avail w \<noteq> [] \<Longrightarrow> K w (FdC (Read fd n)) = (r, w') \<Longrightarrow>
       0 < rv r \<and> rv r \<le> int n \<and> nat (rv r) \<le> length (avail w) \<and>
       out r = take (nat (rv r)) (avail w) \<and> avail w' = drop (nat (rv r)) (avail w)"
    and read_eof:
      "ok w \<Longrightarrow> 0 < n \<Longrightarrow> avail w = [] \<Longrightarrow> K w (FdC (Read fd n)) = (r, w') \<Longrightarrow>
       rv r = 0 \<and> avail w' = []"
    and read_keep: "ok w \<Longrightarrow> K w (FdC (Read fd n)) = (r, w') \<Longrightarrow> keep w' = keep w \<and> ok w'"
begin

lemma readAll_loop_enough:
  assumes "ok (world p)" "recvd \<le> len" "len - recvd \<le> length (avail (world p))"
  shows "\<exists>p'. run_state (readAll_loop K fd len recvd buf) p
              = ((int len, buf @ take (len - recvd) (avail (world p))), p') \<and>
            avail (world p') = drop (len - recvd) (avail (world p)) \<and>
            keep (world p') = keep (world p) \<and> ok (world p')"
  using assms
proof (induction "len - recvd" arbitrary: p recvd buf rule: less_induct)
  case less
  let ?w = "world p" and ?c = "FdC (Read fd (len - recvd))"
  show ?case
  proof (cases "len \<le> recvd")
    case True
    with less.prems show ?thesis by (subst readAll_loop.simps) simp
  next
    case False
    then have ne: "avail ?w \<noteq> []" using less.prems(3) by auto
    obtain r w' where K: "K ?w ?c = (r, w')" by fastforce
    have some: "0 < rv r \<and> rv r \<le> int (len - recvd) \<and> nat (rv r) \<le> length (avail ?w) \<and>
        out r = take (nat (rv r)) (avail ?w) \<and> avail w' = drop (nat (rv r)) (avail ?w)"
      using read_some [OF less.prems(1) _ ne K] False by simp
    have kept: "keep w' = keep ?w" "ok w'" using read_keep [OF less.prems(1) K] by auto
    let ?n = "nat (rv r)" and ?p = "after_call p ?c r w'"
    have lt: "len - (recvd + ?n) < len - recvd" "recvd + ?n \<le> len"
        "len - (recvd + ?n) \<le> length (avail w')"
      using some less.prems(3) False by auto
    obtain p' where p': "run_state (readAll_loop K fd len (recvd + ?n) (buf @ take ?n (out r))) ?p
          = ((int len, (buf @ take ?n (out r)) @ take (len - (recvd + ?n)) (avail w')), p')"
        "avail (world p') = drop (len - (recvd + ?n)) (avail w')"
        "keep (world p') = keep w'" "ok (world p')"
      using less.hyps [of "recvd + ?n" ?p "buf @ take ?n (out r)"] lt kept by auto
    have "take ?n (avail ?w) @ take (len - (recvd + ?n)) (drop ?n (avail ?w)) = take (len - recvd) (avail ?w)"
    proof -
      have "len - recvd = ?n + (len - (recvd + ?n))" using some False by linarith
      then show ?thesis by (metis take_add)
    qed
    moreover have "len - (recvd + ?n) + ?n = len - recvd" using some False by linarith
    ultimately show ?thesis
      using False some kept p' K by (subst readAll_loop.simps) (simp add: run_sys min_absorb2)
  qed
qed

theorem readAll_enough:
  assumes "ok (world p)" "len \<le> length (avail (world p))"
  obtains p' where "run_state (readAll K fd len) p = ((int len, take len (avail (world p))), p')"
    "avail (world p') = drop len (avail (world p))" "keep (world p') = keep (world p)" "ok (world p')"
  using readAll_loop_enough [of p 0 len "[]"] assms by (auto simp: readAll_def)

lemma readAll_loop_eof:
  assumes "ok (world p)" "length (avail (world p)) < len - recvd"
  shows "\<exists>p'. run_state (readAll_loop K fd len recvd buf) p = ((0, buf @ avail (world p)), p') \<and>
            avail (world p') = [] \<and> keep (world p') = keep (world p) \<and> ok (world p')"
  using assms
proof (induction "len - recvd" arbitrary: p recvd buf rule: less_induct)
  case less
  let ?w = "world p" and ?c = "FdC (Read fd (len - recvd))"
  obtain r w' where K: "K ?w ?c = (r, w')" by fastforce
  have kept: "keep w' = keep ?w" "ok w'" using read_keep [OF less.prems(1) K] by auto
  show ?case
  proof (cases "avail ?w = []")
    case True
    then have "rv r = 0" "avail w' = []"
      using read_eof [OF less.prems(1) _ _ K] less.prems(2) by auto
    then show ?thesis using less.prems(2) True K kept
      by (subst readAll_loop.simps) (simp add: run_sys)
  next
    case False
    have some: "0 < rv r \<and> rv r \<le> int (len - recvd) \<and> nat (rv r) \<le> length (avail ?w) \<and>
        out r = take (nat (rv r)) (avail ?w) \<and> avail w' = drop (nat (rv r)) (avail ?w)"
      using read_some [OF less.prems(1) _ False K] less.prems(2) by auto
    let ?n = "nat (rv r)" and ?p = "after_call p ?c r w'"
    have lt: "len - (recvd + ?n) < len - recvd" "length (avail w') < len - (recvd + ?n)"
      using some less.prems(2) by auto
    obtain p' where "run_state (readAll_loop K fd len (recvd + ?n) (buf @ take ?n (out r))) ?p
          = ((0, (buf @ take ?n (out r)) @ avail w'), p')"
        "avail (world p') = []" "keep (world p') = keep w'" "ok (world p')"
      using less.hyps [of "recvd + ?n" ?p "buf @ take ?n (out r)"] lt kept by auto
    then show ?thesis
      using some kept K less.prems(2)
      by (subst readAll_loop.simps) (simp add: run_sys min_absorb2)
  qed
qed

text \<open>A stream that ends early makes \<open>readAll\<close> return 0, like one that had ended already.\<close>

theorem readAll_eof:
  assumes "ok (world p)" "length (avail (world p)) < len"
  obtains p' where "run_state (readAll K fd len) p = ((0, avail (world p)), p')"
    "avail (world p') = []" "keep (world p') = keep (world p)" "ok (world p')"
  using readAll_loop_eof [of p len 0 "[]"] assms by (auto simp: readAll_def)

end

text \<open>\<open>sent w\<close>: the bytes written to \<open>fd\<close> so far.\<close>

locale byte_sink =
  fixes K :: "'w kernel" and fd :: int
    and sent :: "'w \<Rightarrow> bytes" and keep :: "'w \<Rightarrow> 'k" and ok :: "'w \<Rightarrow> bool"
  assumes write_some:
      "ok w \<Longrightarrow> bs \<noteq> [] \<Longrightarrow> K w (FdC (Write fd bs)) = (r, w') \<Longrightarrow>
       0 < rv r \<and> nat (rv r) \<le> length bs \<and> sent w' = sent w @ take (nat (rv r)) bs"
    and write_keep: "ok w \<Longrightarrow> K w (FdC (Write fd bs)) = (r, w') \<Longrightarrow> keep w' = keep w \<and> ok w'"
begin

lemma writeAll_loop_sink:
  assumes "ok (world p)"
  shows "\<exists>p'. run_state (writeAll_loop K fd rest n) p = (n + int (length rest), p') \<and>
            sent (world p') = sent (world p) @ rest \<and> keep (world p') = keep (world p) \<and> ok (world p')"
  using assms
proof (induction "length rest" arbitrary: p rest n rule: less_induct)
  case less
  let ?w = "world p" and ?c = "FdC (Write fd rest)"
  show ?case
  proof (cases "rest = []")
    case True
    with less.prems show ?thesis by (subst writeAll_loop.simps) simp
  next
    case False
    obtain r w' where K: "K ?w ?c = (r, w')" by fastforce
    have some: "0 < rv r \<and> nat (rv r) \<le> length rest \<and> sent w' = sent ?w @ take (nat (rv r)) rest"
      by (rule write_some [OF less.prems False K])
    have kept: "keep w' = keep ?w" "ok w'" using write_keep [OF less.prems K] by auto
    let ?k = "nat (rv r)" and ?p = "after_call p ?c r w'"
    obtain p' where "run_state (writeAll_loop K fd (drop ?k rest) (n + rv r)) ?p
          = (n + rv r + int (length (drop ?k rest)), p')"
        "sent (world p') = sent w' @ drop ?k rest" "keep (world p') = keep w'" "ok (world p')"
      using less.hyps [of "drop ?k rest" ?p "n + rv r"] False some kept by auto
    then show ?thesis
      using False some kept K by (subst writeAll_loop.simps) (simp add: run_call of_nat_diff)
  qed
qed

theorem writeAll_sink:
  assumes "ok (world p)"
  obtains p' where "run_state (writeAll K fd bs) p = (int (length bs), p')"
    "sent (world p') = sent (world p) @ bs" "keep (world p') = keep (world p)" "ok (world p')"
  using writeAll_loop_sink [of p bs 0] assms by (auto simp: writeAll_def)

end

end
