(* ===== verification/Protocol.thy ===== *)
theory Protocol
  imports Stream_IO
begin

text \<open>
  The messages of the program and how they travel: the structures of
  \<open>common/utility.h\<close>, \<open>server/net/net.h\<close> and \<open>server/handler/handlers.h\<close> with their
  layout in memory (the code sends the structures as they lie there), and the
  functions of \<open>server/net/net.c\<close>.

  The layout is the one of the System V ABI for x86-64, where \<open>gcc\<close> puts every field
  at the next multiple of its alignment and integers are little endian.  Padding
  bytes are written as zeros (the code leaves them indeterminate, no reader looks
  at them).  A locale of fixed-width codecs carries the round-trip and framing
  laws; it is interpreted for each structure.
\<close>

section \<open>Constants\<close>

abbreviation MAXARGS :: nat where "MAXARGS \<equiv> 5"
abbreviation MAX_USERNAME_LEN :: nat where "MAX_USERNAME_LEN \<equiv> 20"
abbreviation ABS_PATH :: nat where "ABS_PATH \<equiv> 1024"
abbreviation RES_MSG :: nat where "RES_MSG \<equiv> 1256"
abbreviation RES_DATA :: nat where "RES_DATA \<equiv> 4104"

section \<open>Structures\<close>

datatype msg_type =
  TEXT | LSRES | CMDREQ | READCMD | WRITECMD | BACKGROUND | DOWNLOAD_RES | UPLOAD_RES

fun msg_type_code :: "msg_type \<Rightarrow> u32" where
  "msg_type_code TEXT = 0"
| "msg_type_code LSRES = 1"
| "msg_type_code CMDREQ = 2"
| "msg_type_code READCMD = 3"
| "msg_type_code WRITECMD = 4"
| "msg_type_code BACKGROUND = 5"
| "msg_type_code DOWNLOAD_RES = 6"
| "msg_type_code UPLOAD_RES = 7"

datatype helper_commands =
  CREATE_USER | LOGIN | CD | LS | CREATE_FILE | CHMOD | DELETE | MOVE | READ | WRITE
  | DOWNLOAD | UPLOAD | TRANSFER

fun command_code :: "helper_commands \<Rightarrow> u32" where
  "command_code CREATE_USER = 0"
| "command_code LOGIN = 1"
| "command_code CD = 2"
| "command_code LS = 3"
| "command_code CREATE_FILE = 4"
| "command_code CHMOD = 5"
| "command_code DELETE = 6"
| "command_code MOVE = 7"
| "command_code READ = 8"
| "command_code WRITE = 9"
| "command_code DOWNLOAD = 10"
| "command_code UPLOAD = 11"
| "command_code TRANSFER = 12"

record msg_header =
  hdr_type :: u32
  hdr_status :: u32
  payloadLength :: u32
  is_background :: u8

datatype ClientState = STATE_NOT_LOGGED_IN | STATE_LOGGED_IN

record ClientSession =
  sess_state :: ClientState
  sess_uid :: u32
  sess_gid :: u32
  sess_username :: bytes
  sess_home :: bytes
  sess_workdir :: bytes

text \<open>The strings the code reads from the arrays of a session; the arrays are adjacent.\<close>

definition session_user :: "ClientSession \<Rightarrow> string" where
  "session_user s = c_str (sess_username s @ sess_home s @ sess_workdir s)"

definition session_home :: "ClientSession \<Rightarrow> string" where
  "session_home s = c_str (sess_home s @ sess_workdir s)"

definition session_workdir :: "ClientSession \<Rightarrow> string" where
  "session_workdir s = c_str (sess_workdir s)"

definition zero_session :: ClientSession where
  "zero_session = \<lparr>sess_state = STATE_NOT_LOGGED_IN, sess_uid = 0, sess_gid = 0,
     sess_username = replicate MAX_USERNAME_LEN NUL, sess_home = replicate ABS_PATH NUL,
     sess_workdir = replicate ABS_PATH NUL\<rparr>"

definition session_wf :: "ClientSession \<Rightarrow> bool" where
  "session_wf s \<longleftrightarrow> length (sess_username s) = MAX_USERNAME_LEN \<and>
     length (sess_home s) = ABS_PATH \<and> length (sess_workdir s) = ABS_PATH"

record helper_request_header =
  req_cmd :: u32
  req_argc :: u32
  req_payload_len :: u32
  req_session :: ClientSession
  req_offset :: u32
  req_data_len :: u32

text \<open>\<open>res_data\<close> is the memory of the union.\<close>

record helper_response =
  res_status :: int
  res_payload_len :: u32
  res_msg :: bytes
  res_cmd :: u32
  res_data :: bytes

definition response_wf :: "helper_response \<Rightarrow> bool" where
  "response_wf r \<longleftrightarrow> - (2 ^ 31) \<le> res_status r \<and> res_status r < 2 ^ 31 \<and>
     length (res_msg r) = RES_MSG \<and> length (res_data r) = RES_DATA"

text \<open>\<open>snprintf(res->msg, sizeof(res->msg), ...)\<close> and \<open>strncpy(res->msg, s, sizeof(res->msg) - 1)\<close>.\<close>

definition set_msg :: "string \<Rightarrow> helper_response \<Rightarrow> helper_response" where
  "set_msg s r = r\<lparr>res_msg := snprintf RES_MSG s (res_msg r)\<rparr>"

definition copy_msg :: "string \<Rightarrow> helper_response \<Rightarrow> helper_response" where
  "copy_msg s r = r\<lparr>res_msg := strncpy (RES_MSG - 1) s (res_msg r)\<rparr>"

definition response_text :: "helper_response \<Rightarrow> string" where
  "response_text r = c_str (res_msg r)"

lemma set_msg_simps [simp]:
  "res_status (set_msg s r) = res_status r" "res_payload_len (set_msg s r) = res_payload_len r"
  "res_cmd (set_msg s r) = res_cmd r" "res_data (set_msg s r) = res_data r"
  "res_status (copy_msg s r) = res_status r" "res_payload_len (copy_msg s r) = res_payload_len r"
  "res_cmd (copy_msg s r) = res_cmd r" "res_data (copy_msg s r) = res_data r"
  by (simp_all add: set_msg_def copy_msg_def)

lemma response_wf_simps [simp]:
  "response_wf r \<Longrightarrow> response_wf (set_msg s r)"
  "response_wf r \<Longrightarrow> response_wf (copy_msg s r)"
  "response_wf r \<Longrightarrow> response_wf (r\<lparr>res_payload_len := n\<rparr>)"
  by (auto simp: response_wf_def set_msg_def copy_msg_def length_snprintf length_strncpy)

lemma response_text_set_msg:
  "NUL \<notin> set s \<Longrightarrow> length s < RES_MSG \<Longrightarrow> response_text (set_msg s r) = s"
  by (simp add: response_text_def set_msg_def c_str_snprintf0)

section \<open>Layout in memory\<close>

definition le32 :: "u32 \<Rightarrow> bytes" where
  "le32 w = [char_of (unat w), char_of (unat w div 256), char_of (unat w div 65536),
             char_of (unat w div 16777216)]"

definition un_le32 :: "bytes \<Rightarrow> u32" where
  "un_le32 bs = of_nat (of_char (bs ! 0) + 256 * of_char (bs ! 1) + 65536 * of_char (bs ! 2)
                        + 16777216 * of_char (bs ! 3))"

lemma length_le32 [simp]: "length (le32 w) = 4"
  by (simp add: le32_def)

lemma le32_ne [simp]: "le32 w \<noteq> []"
  by (simp add: le32_def)

lemma un_le32_le32 [simp]: "un_le32 (le32 w @ r) = w" "un_le32 (le32 w) = w"
proof -
  have lt: "unat w < 4294967296" using unsigned_less [of w, where ?'a = nat] by simp
  define n where "n = unat w"
  have d: "n div 65536 = n div 256 div 256" "n div 16777216 = n div 256 div 256 div 256"
    by (simp_all add: div_mult2_eq [symmetric])
  have "n div 256 div 256 div 256 < 256" using lt by (simp add: n_def div_mult2_eq [symmetric])
  then have m: "n div 256 div 256 div 256 mod 256 = n div 256 div 256 div 256" by simp
  have "n mod 256 + 256 * (n div 256 mod 256) + 65536 * (n div 65536 mod 256)
      + 16777216 * (n div 16777216 mod 256) = n"
    using mult_div_mod_eq [of 256 n] mult_div_mod_eq [of 256 "n div 256"]
      mult_div_mod_eq [of 256 "n div 256 div 256"] m
    unfolding d by linarith
  then have "of_nat (unat w mod 256 + 256 * (unat w div 256 mod 256)
      + 65536 * (unat w div 65536 mod 256) + 16777216 * (unat w div 16777216 mod 256)) = w"
    unfolding n_def by (simp only: of_nat_unat ucast_id)
  then show "un_le32 (le32 w @ r) = w" "un_le32 (le32 w) = w"
    by (simp_all add: un_le32_def le32_def flip: of_nat_add of_nat_mult)
qed

definition enc_msg_header :: "msg_header \<Rightarrow> bytes" where
  "enc_msg_header h = le32 (hdr_type h) @ le32 (hdr_status h) @ le32 (payloadLength h)
     @ [char_of (unat (is_background h)), NUL, NUL, NUL]"

definition dec_msg_header :: "bytes \<Rightarrow> msg_header" where
  "dec_msg_header bs = \<lparr>hdr_type = un_le32 bs, hdr_status = un_le32 (drop 4 bs),
     payloadLength = un_le32 (drop 8 bs), is_background = of_nat (of_char (bs ! 12))\<rparr>"

definition state_code :: "ClientState \<Rightarrow> u32" where
  "state_code s = (if s = STATE_LOGGED_IN then 1 else 0)"

definition enc_session :: "ClientSession \<Rightarrow> bytes" where
  "enc_session s = le32 (state_code (sess_state s)) @ le32 (sess_uid s) @ le32 (sess_gid s)
     @ sess_username s @ sess_home s @ sess_workdir s"

definition dec_session :: "bytes \<Rightarrow> ClientSession" where
  "dec_session bs = \<lparr>sess_state = (if un_le32 bs = 1 then STATE_LOGGED_IN else STATE_NOT_LOGGED_IN),
     sess_uid = un_le32 (drop 4 bs), sess_gid = un_le32 (drop 8 bs),
     sess_username = take 20 (drop 12 bs), sess_home = take 1024 (drop 32 bs),
     sess_workdir = take 1024 (drop 1056 bs)\<rparr>"

definition enc_request_header :: "helper_request_header \<Rightarrow> bytes" where
  "enc_request_header h = le32 (req_cmd h) @ le32 (req_argc h) @ le32 (req_payload_len h)
     @ enc_session (req_session h) @ le32 (req_offset h) @ le32 (req_data_len h)"

definition dec_request_header :: "bytes \<Rightarrow> helper_request_header" where
  "dec_request_header bs = \<lparr>req_cmd = un_le32 bs, req_argc = un_le32 (drop 4 bs),
     req_payload_len = un_le32 (drop 8 bs), req_session = dec_session (take 2080 (drop 12 bs)),
     req_offset = un_le32 (drop 2092 bs), req_data_len = un_le32 (drop 2096 bs)\<rparr>"

definition enc_response :: "helper_response \<Rightarrow> bytes" where
  "enc_response r = le32 (word_of_int (res_status r)) @ le32 (res_payload_len r) @ res_msg r
     @ le32 (res_cmd r) @ res_data r"

definition dec_response :: "bytes \<Rightarrow> helper_response" where
  "dec_response bs = \<lparr>res_status = sint (un_le32 bs), res_payload_len = un_le32 (drop 4 bs),
     res_msg = take 1256 (drop 8 bs), res_cmd = un_le32 (drop 1264 bs),
     res_data = take 4104 (drop 1268 bs)\<rparr>"

section \<open>Fixed-width codecs\<close>

text \<open>
  What reading a structure from a stream relies on: its width, and that decoding
  what was encoded gives it back.  The framing law follows: the decoder sees
  exactly its own structure and leaves what comes after it.
\<close>

locale fixed_codec =
  fixes enc :: "'a \<Rightarrow> bytes" and dec :: "bytes \<Rightarrow> 'a" and wf :: "'a \<Rightarrow> bool" and width :: nat
  assumes enc_width: "wf a \<Longrightarrow> length (enc a) = width"
    and dec_enc: "wf a \<Longrightarrow> dec (enc a) = a"
begin

lemma frame: "wf a \<Longrightarrow> dec (take width (enc a @ rest)) = a \<and> drop width (enc a @ rest) = rest"
  by (simp add: enc_width dec_enc)

lemma enc_inj: "wf a \<Longrightarrow> wf b \<Longrightarrow> enc a = enc b \<Longrightarrow> a = b"
  by (metis dec_enc)

end

interpretation header_codec: fixed_codec enc_msg_header dec_msg_header "\<lambda>_. True" 16
proof
  fix h :: msg_header
  show "length (enc_msg_header h) = 16"
    by (simp add: enc_msg_header_def)
  have "(of_nat (unat (is_background h) mod 256) :: u8) = is_background h"
    using unsigned_less [of "is_background h", where ?'a = nat] by simp
  then show "dec_msg_header (enc_msg_header h) = h"
    by (simp add: enc_msg_header_def dec_msg_header_def nth_append)
qed

interpretation session_codec: fixed_codec enc_session dec_session session_wf 2080
proof
  fix s :: ClientSession
  assume "session_wf s"
  then show "length (enc_session s) = 2080" "dec_session (enc_session s) = s"
    by (cases "sess_state s"; simp add: enc_session_def dec_session_def session_wf_def state_code_def)+
qed

interpretation request_codec:
  fixed_codec enc_request_header dec_request_header "\<lambda>h. session_wf (req_session h)" 2100
proof
  fix h :: helper_request_header
  assume wf: "session_wf (req_session h)"
  then have l: "length (enc_session (req_session h)) = 2080" by (rule session_codec.enc_width)
  then show "length (enc_request_header h) = 2100"
    by (simp add: enc_request_header_def)
  show "dec_request_header (enc_request_header h) = h"
    using l session_codec.dec_enc [OF wf] by (simp add: enc_request_header_def dec_request_header_def)
qed

interpretation response_codec: fixed_codec enc_response dec_response response_wf 5372
proof
  fix r :: helper_response
  assume wf: "response_wf r"
  then show "length (enc_response r) = 5372"
    by (simp add: enc_response_def response_wf_def)
  have "sint (word_of_int (res_status r) :: u32) = res_status r"
    using wf by (simp add: response_wf_def signed_of_int signed_take_bit_int_eq_self)
  then show "dec_response (enc_response r) = r"
    using wf by (simp add: enc_response_def dec_response_def response_wf_def)
qed

lemma enc_ne [simp]: "enc_response r \<noteq> []" "enc_request_header h \<noteq> []" "enc_msg_header m \<noteq> []"
  by (simp_all add: enc_response_def enc_request_header_def enc_msg_header_def)

section \<open>\<open>net.c\<close>\<close>

text \<open>
  \<open>HELPER_SOCK_REL\<close>; the path the helper binds, cut to the 60 bytes of
  \<open>socket_path\<close>; the path the server connects to once it is inside its root.
\<close>

definition HELPER_SOCK_REL :: string where
  "HELPER_SOCK_REL = ''/tmp/helper.sock''"

definition helper_socket_path :: "string \<Rightarrow> string" where
  "helper_socket_path root_dir = take 59 (root_dir @ ''/'' @ HELPER_SOCK_REL)"

definition createUnixSocket :: "'w kernel \<Rightarrow> string \<Rightarrow> u32 \<Rightarrow> ('w, int) sysprog" where
  "createUnixSocket K root_dir groupId = do {
     sockfd \<leftarrow> call K (NetC Socket_unix);
     if sockfd < 0 then State_Monad.return (- 1)
     else do {
       let path = helper_socket_path root_dir;
       _ \<leftarrow> call K (PathC (Unlink path));
       b \<leftarrow> call K (NetC (Bind_unix sockfd path));
       if b < 0 then do { _ \<leftarrow> call K (FdC (Close sockfd)); State_Monad.return (- 1) }
       else do {
         c \<leftarrow> call K (PathC (Chgrp path groupId));
         if c < 0 then do { _ \<leftarrow> call K (FdC (Close sockfd)); State_Monad.return (- 1) }
         else do {
           m \<leftarrow> call K (PathC (Chmod path 0x1B0));
           if m < 0 then do { _ \<leftarrow> call K (FdC (Close sockfd)); State_Monad.return (- 1) }
           else do {
             l \<leftarrow> call K (NetC (Listen sockfd 5));
             if l < 0 then do { _ \<leftarrow> call K (FdC (Close sockfd)); State_Monad.return (- 1) }
             else State_Monad.return sockfd
           }
         }
       }
     }
   }"

definition connectToHelper :: "'w kernel \<Rightarrow> ('w, int) sysprog" where
  "connectToHelper K = do {
     fd \<leftarrow> call K (NetC Socket_unix);
     if fd < 0 then State_Monad.return (- 1)
     else do {
       c \<leftarrow> call K (NetC (Connect_unix fd HELPER_SOCK_REL));
       if c < 0 then do { _ \<leftarrow> call K (FdC (Close fd)); State_Monad.return (- 1) }
       else State_Monad.return fd
     }
   }"

definition acquire_socket_lock :: "'w kernel \<Rightarrow> int \<Rightarrow> ('w, int) sysprog" where
  "acquire_socket_lock K fd = do {
     r \<leftarrow> call K (FdC (Setlkw fd F_WRLCK));
     State_Monad.return (if r = - 1 then - 1 else 0)
   }"

definition release_socket_lock :: "'w kernel \<Rightarrow> int \<Rightarrow> ('w, int) sysprog" where
  "release_socket_lock K fd = do {
     r \<leftarrow> call K (FdC (Setlk fd F_UNLCK));
     State_Monad.return (if r = - 1 then - 1 else 0)
   }"

definition make_header :: "msg_type \<Rightarrow> int \<Rightarrow> nat \<Rightarrow> int \<Rightarrow> msg_header" where
  "make_header type status len is_bg =
     \<lparr>hdr_type = msg_type_code type, hdr_status = word_of_int status, payloadLength = of_nat len,
      is_background = word_of_int is_bg\<rparr>"

definition sendProtocolMsgBg :: "'w kernel \<Rightarrow> int \<Rightarrow> msg_type \<Rightarrow> int \<Rightarrow> string \<Rightarrow> int \<Rightarrow> ('w, int) sysprog" where
  "sendProtocolMsgBg K fd type status msg is_bg = do {
     n \<leftarrow> writeAll K fd (enc_msg_header (make_header type status (length msg + 1) is_bg));
     if n < 0 then State_Monad.return (- 1)
     else writeAll K fd (msg @ [NUL])
   }"

definition sendProtocolMsgLocked :: "'w kernel \<Rightarrow> int \<Rightarrow> msg_type \<Rightarrow> int \<Rightarrow> string \<Rightarrow> int \<Rightarrow> ('w, int) sysprog" where
  "sendProtocolMsgLocked K fd type status msg is_bg = do {
     l \<leftarrow> acquire_socket_lock K fd;
     if l = 0 then do {
       ret \<leftarrow> sendProtocolMsgBg K fd type status msg is_bg;
       _ \<leftarrow> release_socket_lock K fd;
       State_Monad.return ret
     }
     else State_Monad.return (- 1)
   }"

definition sendProtocolMsg :: "'w kernel \<Rightarrow> int \<Rightarrow> msg_type \<Rightarrow> int \<Rightarrow> string \<Rightarrow> ('w, int) sysprog" where
  "sendProtocolMsg K fd type status msg = do {
     n \<leftarrow> writeAll K fd (enc_msg_header (make_header type status (length msg + 1) 0));
     if n < 0 then State_Monad.return (- 1)
     else do {
       m \<leftarrow> writeAll K fd (msg @ [NUL]);
       State_Monad.return (if m < 0 then - 1 else 0)
     }
   }"

text \<open>
  The argument strings of a request on the wire: each with its NUL, one after the
  other, and their total length as the 32-bit sum of the source.
\<close>

definition pack_args :: "string list \<Rightarrow> bytes" where
  "pack_args argv = concat (map (\<lambda>a. a @ [NUL]) argv)"

definition packed_len :: "string list \<Rightarrow> u32" where
  "packed_len argv = (\<Sum>a\<leftarrow>argv. of_nat (length a + 1))"

fun send_args :: "'w kernel \<Rightarrow> int \<Rightarrow> string list \<Rightarrow> ('w, int) sysprog" where
  "send_args K fd [] = State_Monad.return 0"
| "send_args K fd (a # as) = do {
     n \<leftarrow> writeAll K fd (a @ [NUL]);
     if n < 0 then State_Monad.return (- 1) else send_args K fd as
   }"

text \<open>
  The result is the return value and the contents of the caller's \<open>out\<close>, which
  holds \<open>out0\<close> before the call: when the exchange fails, \<open>out\<close> keeps that or a
  partial answer over it.
\<close>

definition sendHelperRequestRW ::
  "'w kernel \<Rightarrow> int \<Rightarrow> helper_commands \<Rightarrow> string list \<Rightarrow> int \<Rightarrow> ClientSession option \<Rightarrow> bytes option \<Rightarrow>
   u32 \<Rightarrow> bytes \<Rightarrow> ('w, int \<times> bytes) sysprog" where
  "sendHelperRequestRW K helper_fd cmd argv offset session data data_len out0 = do {
     let hdr = \<lparr>req_cmd = command_code cmd, req_argc = of_nat (length argv),
                req_payload_len = packed_len argv,
                req_session = (case session of None \<Rightarrow> zero_session | Some s \<Rightarrow> s),
                req_offset = word_of_int offset, req_data_len = data_len\<rparr>;
     n \<leftarrow> writeAll K helper_fd (enc_request_header hdr);
     if n < 0 then State_Monad.return (- 1, out0)
     else do {
       a \<leftarrow> send_args K helper_fd argv;
       if a < 0 then State_Monad.return (- 1, out0)
       else do {
         d \<leftarrow> (if 0 < data_len \<and> data \<noteq> None then writeAll K helper_fd (the data)
               else State_Monad.return 0);
         if d < 0 then State_Monad.return (- 1, out0)
         else do {
           (r, got) \<leftarrow> readAll K helper_fd 5372;
           let outv = got @ drop (length got) out0;
           if r \<le> 0 then State_Monad.return (- 1, outv)
           else State_Monad.return (res_status (dec_response outv), outv)
         }
       }
     }
   }"

definition sendHelperRequest ::
  "'w kernel \<Rightarrow> int \<Rightarrow> helper_commands \<Rightarrow> string list \<Rightarrow> ClientSession option \<Rightarrow> bytes \<Rightarrow>
   ('w, int \<times> bytes) sysprog" where
  "sendHelperRequest K helper_fd cmd argv session out0 = do {
     let hdr = \<lparr>req_cmd = command_code cmd, req_argc = of_nat (length argv),
                req_payload_len = packed_len argv,
                req_session = (case session of None \<Rightarrow> zero_session | Some s \<Rightarrow> s),
                req_offset = 0, req_data_len = 0\<rparr>;
     n \<leftarrow> writeAll K helper_fd (enc_request_header hdr);
     if n < 0 then State_Monad.return (- 1, out0)
     else do {
       a \<leftarrow> send_args K helper_fd argv;
       if a < 0 then State_Monad.return (- 1, out0)
       else do {
         (r, got) \<leftarrow> readAll K helper_fd 5372;
         let outv = got @ drop (length got) out0;
         if r \<le> 0 then State_Monad.return (- 1, outv)
         else State_Monad.return (res_status (dec_response outv), outv)
       }
     }
   }"

text \<open>
  The helper's side (\<open>handleCommands\<close>): \<open>args[i] = p; p += strlen(p) + 1\<close> for the
  first \<open>MAXARGS\<close> of \<open>argc\<close> arguments; \<open>None\<close> when that reads past the payload.
\<close>

fun unpack_args :: "nat \<Rightarrow> bytes \<Rightarrow> string list option" where
  "unpack_args 0 p = Some []"
| "unpack_args (Suc n) p =
     (if NUL \<in> set p
      then map_option (Cons (c_str p)) (unpack_args n (drop (length (c_str p) + 1) p))
      else None)"

definition args_of_payload :: "u32 \<Rightarrow> bytes \<Rightarrow> string list option" where
  "args_of_payload argc payload =
     (if payload = [] then Some [] else unpack_args (min (unat argc) MAXARGS) payload)"

section \<open>Facts on the messages\<close>

lemma pack_args_simps [simp]:
  "pack_args [] = []" "pack_args (a # as) = a @ NUL # pack_args as"
  by (simp_all add: pack_args_def)

lemma packed_len_simps [simp]:
  "packed_len [] = 0" "packed_len (a # as) = of_nat (length a + 1) + packed_len as"
  by (simp_all add: packed_len_def)

lemma packed_len: "packed_len argv = of_nat (length (pack_args argv))"
  by (induction argv) (simp_all add: algebra_simps)

lemma unpack_pack:
  "\<forall>a\<in>set argv. NUL \<notin> set a \<Longrightarrow> unpack_args (length argv) (pack_args argv @ r) = Some argv"
  by (induction argv) (simp_all add: c_str_append)

lemma make_header_simps [simp]:
  "hdr_type (make_header t st n b) = msg_type_code t"
  "hdr_status (make_header t st n b) = word_of_int st"
  "payloadLength (make_header t st n b) = of_nat n"
  "is_background (make_header t st n b) = word_of_int b"
  by (simp_all add: make_header_def)

lemma sendProtocolMsgBg_only: "only_calls (writes_to fd) (sendProtocolMsgBg K fd t st msg b)"
  unfolding sendProtocolMsgBg_def by (intro only_calls_intros writeAll_only)

lemma sendProtocolMsg_only: "only_calls (writes_to fd) (sendProtocolMsg K fd t st msg)"
  unfolding sendProtocolMsg_def by (intro only_calls_intros writeAll_only)

text \<open>Framing: a message sent into a sink is its header and its text, in one piece.\<close>

context byte_sink
begin

lemma sendProtocolMsg_sink:
  assumes "ok (world p)"
  obtains p' where "run_state (sendProtocolMsg K fd t st msg) p = (0, p')"
    "sent (world p') = sent (world p) @ enc_msg_header (make_header t st (length msg + 1) 0) @ msg @ [NUL]"
    "keep (world p') = keep (world p)" "ok (world p')"
proof -
  let ?h = "enc_msg_header (make_header t st (length msg + 1) 0)"
  obtain p1 where 1: "run_state (writeAll K fd ?h) p = (int (length ?h), p1)"
      "sent (world p1) = sent (world p) @ ?h" "keep (world p1) = keep (world p)" "ok (world p1)"
    by (rule writeAll_sink [OF assms])
  obtain p2 where 2: "run_state (writeAll K fd (msg @ [NUL])) p1 = (int (length (msg @ [NUL])), p2)"
      "sent (world p2) = sent (world p1) @ msg @ [NUL]" "keep (world p2) = keep (world p1)" "ok (world p2)"
    by (rule writeAll_sink [OF 1(4)])
  show thesis
    by (rule that [of p2]) (use 1 2 in \<open>simp_all add: sendProtocolMsg_def\<close>)
qed

end

end
