(* ===== verification/Privileges.thy ===== *)
theory Privileges
  imports Protocol
begin

text \<open>
  \<open>src/src/server/utils/utils.c\<close>: user name validation, the creation of user
  directories, and the code that locks a helper process into a user's directory
  under the user's identity and takes it back.

  The jail monitor at the end reads the calls of a process and keeps what they make
  of its credentials; a call that names a file is a violation unless the process is
  confined to the given session.  The lemmas say how the functions above move a
  process through the monitor, on every kernel.
\<close>

section \<open>Definitions\<close>

definition isUsernameValid :: "string \<Rightarrow> bool" where
  "isUsernameValid username \<longleftrightarrow>
     (let len = length username in
      if len = 0 \<or> len > MAX_USERNAME_LEN then False else list_all isalpha username)"

definition S_ISDIR :: "u32 \<Rightarrow> bool" where
  "S_ISDIR m \<longleftrightarrow> and m 0xF000 = 0x4000"

definition S_ISREG :: "u32 \<Rightarrow> bool" where
  "S_ISREG m \<longleftrightarrow> and m 0xF000 = 0x8000"

definition S_ISLNK :: "u32 \<Rightarrow> bool" where
  "S_ISLNK m \<longleftrightarrow> and m 0xF000 = 0xA000"

definition createUserDirectory :: "'w kernel \<Rightarrow> string \<Rightarrow> u32 \<Rightarrow> u32 \<Rightarrow> u32 \<Rightarrow> ('w, int) sysprog" where
  "createUserDirectory K pathname uid gid mode = do {
     m \<leftarrow> call K (PathC (Mkdir pathname mode));
     if m = - 1 then do {
       e \<leftarrow> get_errno;
       if e = EEXIST then do {
         st \<leftarrow> sys K (PathC (Stat pathname));
         State_Monad.return (if rv st = - 1 then - 1
                             else if \<not> S_ISDIR (st_mode (stat_out st)) then - 1 else 0)
       }
       else State_Monad.return (- 1)
     }
     else do {
       o1 \<leftarrow> call K (PathC (Chown pathname uid gid));
       if o1 \<noteq> 0 then State_Monad.return (- 1)
       else do {
         o2 \<leftarrow> call K (PathC (Chmod pathname mode));
         State_Monad.return (if o2 \<noteq> 0 then - 1 else 0)
       }
     }
   }"

definition dropPrivilegesTemp :: "'w kernel \<Rightarrow> ClientSession \<Rightarrow> ('w, int) sysprog" where
  "dropPrivilegesTemp K cs = do {
     u \<leftarrow> call K (CredC Getuid);
     if u \<noteq> 0 then State_Monad.return (- 1)
     else do {
       g \<leftarrow> call K (CredC (Initgroups (session_user cs) (sess_gid cs)));
       if g \<noteq> 0 then State_Monad.return (- 1)
       else do {
         e \<leftarrow> call K (CredC (Setegid (sess_gid cs)));
         if e \<noteq> 0 then State_Monad.return (- 1)
         else do {
           s \<leftarrow> call K (CredC (Seteuid (sess_uid cs)));
           State_Monad.return (if s \<noteq> 0 then - 1 else 0)
         }
       }
     }
   }"

definition regainRoot :: "'w kernel \<Rightarrow> ('w, int) sysprog" where
  "regainRoot K = do {
     u \<leftarrow> call K (CredC (Seteuid 0));
     if u \<noteq> 0 then State_Monad.return (- 1)
     else do {
       g \<leftarrow> call K (CredC (Setegid 0));
       State_Monad.return (if g \<noteq> 0 then - 1 else 0)
     }
   }"

definition sandboxUserToHisHome :: "'w kernel \<Rightarrow> ClientSession \<Rightarrow> ('w, int) sysprog" where
  "sandboxUserToHisHome K session = do {
     r \<leftarrow> call K (CredC (Chroot (session_home session)));
     if r = - 1 then State_Monad.return (- 1)
     else do {
       d \<leftarrow> call K (CredC (Chdir (session_workdir session)));
       if d = - 1 then State_Monad.return (- 1)
       else do {
         p \<leftarrow> dropPrivilegesTemp K session;
         State_Monad.return (if p = - 1 then - 1 else 0)
       }
     }
   }"

text \<open>The path is formatted into \<open>realPath[2056]\<close>.\<close>

definition sandboxUserToRoot :: "'w kernel \<Rightarrow> ClientSession \<Rightarrow> string \<Rightarrow> ('w, int) sysprog" where
  "sandboxUserToRoot K session rootdir = do {
     r \<leftarrow> call K (CredC (Chroot rootdir));
     if r = - 1 then State_Monad.return (- 1)
     else do {
       let realPath = take 2055 (''/'' @ session_user session @ session_workdir session);
       d \<leftarrow> call K (CredC (Chdir realPath));
       if d = - 1 then State_Monad.return (- 1)
       else do {
         p \<leftarrow> dropPrivilegesTemp K session;
         State_Monad.return (if p = - 1 then - 1 else 0)
       }
     }
   }"

definition acquireUserCreationLock :: "'w kernel \<Rightarrow> string \<Rightarrow> ('w, int) sysprog" where
  "acquireUserCreationLock K lock_file_path = do {
     fd \<leftarrow> call K (PathC (Open lock_file_path [O_RDWR] 0));
     if fd < 0 then State_Monad.return (- 1)
     else do {
       l \<leftarrow> call K (FdC (Setlkw fd F_WRLCK));
       if l < 0 then do {
         _ \<leftarrow> call K (FdC (Close fd));
         State_Monad.return (- 1)
       }
       else State_Monad.return fd
     }
   }"

definition releaseUserCreationLock :: "'w kernel \<Rightarrow> int \<Rightarrow> ('w, unit) sysprog" where
  "releaseUserCreationLock K fd =
     (if fd < 0 then State_Monad.return ()
      else do {
        _ \<leftarrow> call K (FdC (Setlk fd F_UNLCK));
        _ \<leftarrow> call K (FdC (Close fd));
        State_Monad.return ()
      })"

section \<open>User names\<close>

lemma isUsernameValid_iff:
  "isUsernameValid u \<longleftrightarrow> 0 < length u \<and> length u \<le> MAX_USERNAME_LEN \<and> (\<forall>c\<in>set u. isalpha c)"
  by (simp add: isUsernameValid_def Let_def list_all_iff)

lemma valid_user_no_nul: "isUsernameValid u \<Longrightarrow> NUL \<notin> set u"
  using isalpha_not_nul by (auto simp: isUsernameValid_iff)

section \<open>The jail monitor\<close>

text \<open>
  What the successful calls make of the credentials: the argument of the last
  \<open>chroot\<close> and how many there were, the effective ids, the supplementary groups.
\<close>

record cred =
  c_root :: "string option"
  c_euid :: u32
  c_egid :: u32
  c_groups :: "(string \<times> u32) option"

definition root_cred :: cred where
  "root_cred = \<lparr>c_root = None, c_euid = 0, c_egid = 0, c_groups = None\<rparr>"

definition confined :: "string \<Rightarrow> ClientSession \<Rightarrow> cred \<Rightarrow> bool" where
  "confined root s c \<longleftrightarrow> c_root c = Some root \<and> c_euid c = sess_uid s \<and> c_egid c = sess_gid s \<and>
     c_groups c = Some (session_user s, sess_gid s)"

definition cred_step :: "cred \<Rightarrow> cred_call \<Rightarrow> sysres \<Rightarrow> cred" where
  "cred_step c k r = (case k of
       Chroot d \<Rightarrow> if rv r = - 1 then c else c\<lparr>c_root := Some d\<rparr>
     | Initgroups u g \<Rightarrow> if rv r = 0 then c\<lparr>c_groups := Some (u, g)\<rparr> else c
     | Setegid g \<Rightarrow> if rv r = 0 then c\<lparr>c_egid := g\<rparr> else c
     | Seteuid u \<Rightarrow> if rv r = 0 then c\<lparr>c_euid := u\<rparr> else c
     | _ \<Rightarrow> c)"

definition jail_step :: "string \<Rightarrow> ClientSession \<Rightarrow> cred \<Rightarrow> event \<Rightarrow> cred option" where
  "jail_step root s c e = (case fst e of
       PathC _ \<Rightarrow> if confined root s c then Some c else None
     | CredC k \<Rightarrow> Some (cred_step c k (snd e))
     | _ \<Rightarrow> Some c)"

lemma jail_step_simps [mon_simps]:
  "jail_step root s c (PathC k1, r) = (if confined root s c then Some c else None)"
  "jail_step root s c (FdC k2, r) = Some c"
  "jail_step root s c (ProcC k3, r) = Some c"
  "jail_step root s c (NetC k4, r) = Some c"
  "jail_step root s c (CredC k, r) = Some (cred_step c k r)"
  by (simp_all add: jail_step_def)

lemma cred_step_simps [mon_simps]:
  "cred_step c (Chroot d) r = (if rv r = - 1 then c else c\<lparr>c_root := Some d\<rparr>)"
  "cred_step c (Initgroups u g) r = (if rv r = 0 then c\<lparr>c_groups := Some (u, g)\<rparr> else c)"
  "cred_step c (Setegid g) r = (if rv r = 0 then c\<lparr>c_egid := g\<rparr> else c)"
  "cred_step c (Seteuid w) r = (if rv r = 0 then c\<lparr>c_euid := w\<rparr> else c)"
  "cred_step c (Chdir d) r = c" "cred_step c Getuid r = c" "cred_step c (Getcwd n) r = c"
  by (simp_all add: cred_step_def)

abbreviation jail_state :: "string \<Rightarrow> ClientSession \<Rightarrow> 'w proc \<Rightarrow> cred option" where
  "jail_state root s p \<equiv> mon_run (jail_step root s) root_cred (events p)"

text \<open>What the calls of a stream loop do to the monitor: nothing.\<close>

lemma jail_ignores_writes:
  "\<forall>e\<in>set es. writes_to fd (fst e) \<Longrightarrow> mon_run (jail_step root s) c es = Some c"
  by (rule mon_run_ignored) (auto simp: writes_to_iff jail_step_def)

lemma jail_ignores_reads:
  "\<forall>e\<in>set es. reads_from fd (fst e) \<Longrightarrow> mon_run (jail_step root s) c es = Some c"
  by (rule mon_run_ignored) (auto simp: reads_from_iff jail_step_def)

lemma jail_writeAll:
  assumes "\<And>n p'. jail_state root s p' = jail_state root s p \<Longrightarrow> Q n p'"
  shows "wp (writeAll K fd bs) Q p"
  by (rule wp_only_callsI [OF writeAll_only], rule assms)
    (auto simp: mon_run_append jail_ignores_writes split: option.split)

lemma jail_readAll:
  assumes "\<And>n p'. jail_state root s p' = jail_state root s p \<Longrightarrow> Q n p'"
  shows "wp (readAll K fd n) Q p"
  by (rule wp_only_callsI [OF readAll_only], rule assms)
    (auto simp: mon_run_append jail_ignores_reads split: option.split)

text \<open>A successful sandbox confines; a failed one names no file.\<close>

lemma jail_sandbox_home:
  assumes "jail_state (session_home s) s p = Some c"
    and "\<And>n p'. jail_state (session_home s) s p' \<noteq> None \<Longrightarrow> n = 0 \<or> n = - 1 \<Longrightarrow>
           n = 0 \<longrightarrow> confined (session_home s) s (the (jail_state (session_home s) s p')) \<Longrightarrow> Q n p'"
  shows "wp (sandboxUserToHisHome K s) Q p"
  unfolding sandboxUserToHisHome_def dropPrivilegesTemp_def
  by (auto simp: wp_simps assms(1) mon_simps confined_def intro!: any_kernel assms(2))

lemma jail_sandbox_root:
  assumes "jail_state root s p = Some c"
    and "\<And>n p'. jail_state root s p' \<noteq> None \<Longrightarrow> n = 0 \<or> n = - 1 \<Longrightarrow>
           n = 0 \<longrightarrow> confined root s (the (jail_state root s p')) \<Longrightarrow> Q n p'"
  shows "wp (sandboxUserToRoot K s root) Q p"
  unfolding sandboxUserToRoot_def dropPrivilegesTemp_def Let_def
  by (auto simp: wp_simps assms(1) mon_simps confined_def intro!: any_kernel assms(2))

lemma jail_regainRoot:
  assumes "jail_state root s p \<noteq> None"
    and "\<And>n p'. jail_state root s p' \<noteq> None \<Longrightarrow> n = 0 \<or> n = - 1 \<Longrightarrow>
           n = 0 \<longrightarrow> c_euid (the (jail_state root s p')) = 0 \<and> c_egid (the (jail_state root s p')) = 0 \<Longrightarrow>
           Q n p'"
  shows "wp (regainRoot K) Q p"
  using assms(1) unfolding regainRoot_def
  by (auto simp: wp_simps mon_simps intro!: any_kernel assms(2))

end
