(* ===== verification/Helper_Files.thy ===== *)
theory Helper_Files
  imports Privileges
begin

text \<open>
  The handlers of the helper process that work inside a user's home
  (\<open>src/src/server/helper/helper.c\<close>, lines 425 to 921): change directory, create,
  chmod, delete, move, read, write, download, upload.  A handler returns the
  response structure as it stands at the end, or \<open>Exited\<close> after \<open>_exit(1)\<close>; the
  code after a label \<open>out\<close> is a definition of its own, shared by the \<open>goto\<close>s.
  Diagnostics on the standard streams are left out.
\<close>

section \<open>Handlers\<close>

type_synonym 'w handler = "('w, helper_response outcome) sysprog"

definition respond :: "'w kernel \<Rightarrow> int \<Rightarrow> helper_response \<Rightarrow> 'w handler" where
  "respond K server_fd res = do {
     _ \<leftarrow> writeAll K server_fd (enc_response res);
     State_Monad.return (Returned res)
   }"

text \<open>\<open>if (regainRoot() == -1) _exit(1);\<close> and then the response.\<close>

definition regain_and_respond :: "'w kernel \<Rightarrow> int \<Rightarrow> helper_response \<Rightarrow> 'w handler" where
  "regain_and_respond K server_fd res = do {
     r \<leftarrow> regainRoot K;
     if r = - 1 then State_Monad.return Exited
     else respond K server_fd res
   }"

text \<open>The answer of a handler whose sandbox could not be set up.\<close>

definition sandbox_failed :: "'w kernel \<Rightarrow> int \<Rightarrow> helper_response \<Rightarrow> 'w handler" where
  "sandbox_failed K server_fd res = do {
     _ \<leftarrow> writeAll K server_fd (enc_response res);
     State_Monad.return Exited
   }"

subsection \<open>\<open>ChangeDirectory\<close>\<close>

definition cd_cwd :: "helper_response \<Rightarrow> string" where
  "cd_cwd res = c_str (take ABS_PATH (res_data res))"

definition set_cwd :: "string \<Rightarrow> helper_response \<Rightarrow> helper_response" where
  "set_cwd s res = res\<lparr>res_data := snprintf ABS_PATH s (res_data res)\<rparr>"

definition cd_out :: "'w kernel \<Rightarrow> int \<Rightarrow> helper_response \<Rightarrow> 'w handler" where
  "cd_out K server_fd res =
     regain_and_respond K server_fd (res\<lparr>res_payload_len := of_nat (length (cd_cwd res) + 1)\<rparr>)"

definition ChangeDirectory ::
  "'w kernel \<Rightarrow> int \<Rightarrow> helper_request_header \<Rightarrow> string \<Rightarrow> helper_response \<Rightarrow> 'w handler" where
  "ChangeDirectory K server_fd hdr path res0 = do {
     let res = res0\<lparr>res_status := - 1\<rparr>;
     s \<leftarrow> sandboxUserToHisHome K (req_session hdr);
     if s = - 1 then sandbox_failed K server_fd (copy_msg ''Internal server error'' res)
     else do {
       d \<leftarrow> call K (CredC (Chdir path));
       if d = - 1 then do {
         e \<leftarrow> get_errno;
         cd_out K server_fd (set_msg (''cd failed: '' @ strerror e) res)
       }
       else do {
         g \<leftarrow> sys K (CredC (Getcwd ABS_PATH));
         if rv g < 0 then cd_out K server_fd (copy_msg ''Failed to resolve directory'' res)
         else cd_out K server_fd
                (set_cwd (out g) (set_msg ''Directory changed'' (res\<lparr>res_status := 0\<rparr>)))
       }
     }
   }"

subsection \<open>\<open>HandlerHelperCreateFile\<close>\<close>

definition create_out :: "'w kernel \<Rightarrow> int \<Rightarrow> int \<Rightarrow> int \<Rightarrow> helper_response \<Rightarrow> 'w handler" where
  "create_out K server_fd fd lockFd res = do {
     _ \<leftarrow> (if 0 \<le> fd then call K (FdC (Close fd)) else State_Monad.return 0);
     _ \<leftarrow> (if 0 \<le> lockFd then unlock_file K lockFd else State_Monad.return ());
     regain_and_respond K server_fd res
   }"

definition HandlerHelperCreateFile ::
  "'w kernel \<Rightarrow> int \<Rightarrow> helper_request_header \<Rightarrow> string \<Rightarrow> u32 \<Rightarrow> bool \<Rightarrow> helper_response \<Rightarrow> 'w handler" where
  "HandlerHelperCreateFile K server_fd hdr filename privileges makeDir res = do {
     s \<leftarrow> sandboxUserToHisHome K (req_session hdr);
     if s = - 1 then sandbox_failed K server_fd (copy_msg ''Sandbox error'' res)
     else if makeDir then do {
       m \<leftarrow> call K (PathC (Mkdir filename privileges));
       e \<leftarrow> get_errno;
       let res' = (if m \<noteq> 0 then (set_msg (''mkdir failed: '' @ strerror e) res)\<lparr>res_status := - 1\<rparr>
                   else (set_msg ''Directory created successfully'' res)\<lparr>res_status := 0\<rparr>);
       _ \<leftarrow> writeAll K server_fd (enc_response res');
       r \<leftarrow> regainRoot K;
       State_Monad.return (if r = - 1 then Exited else Returned res')
     }
     else do {
       dirfd \<leftarrow> call K (PathC (Open ''.'' [O_RDONLY, O_DIRECTORY] 0));
       if dirfd < 0 then create_out K server_fd (- 1) (- 1) (copy_msg ''Dir open error'' res)
       else do {
         fd \<leftarrow> call K (PathC (Openat dirfd filename [O_CREAT, O_WRONLY, O_TRUNC, O_NOFOLLOW] privileges));
         _ \<leftarrow> call K (FdC (Close dirfd));
         if fd < 0 then create_out K server_fd fd (- 1) (copy_msg ''Create failed'' res)
         else do {
           lockFd \<leftarrow> lock_file K filename LOCK_EXCLUSIVE;
           if lockFd < 0 then do {
             _ \<leftarrow> call K (FdC (Close dirfd));
             create_out K server_fd fd lockFd (set_msg ''Cannot lock file for creation'' res)
           }
           else create_out K server_fd fd lockFd
                  (copy_msg ''File created succesfully'' (res\<lparr>res_status := 0\<rparr>))
         }
       }
     }
   }"

subsection \<open>\<open>HandleHelperChmod\<close>, \<open>HandleHelperDelete\<close>, \<open>HandleHelperMove\<close>\<close>

definition unlock_out :: "'w kernel \<Rightarrow> int \<Rightarrow> int \<Rightarrow> helper_response \<Rightarrow> 'w handler" where
  "unlock_out K server_fd lockFd res = do {
     _ \<leftarrow> (if 0 \<le> lockFd then unlock_file K lockFd else State_Monad.return ());
     regain_and_respond K server_fd res
   }"

definition HandleHelperChmod ::
  "'w kernel \<Rightarrow> int \<Rightarrow> helper_request_header \<Rightarrow> string \<Rightarrow> u32 \<Rightarrow> helper_response \<Rightarrow> 'w handler" where
  "HandleHelperChmod K server_fd hdr filename privileges res = do {
     s \<leftarrow> sandboxUserToHisHome K (req_session hdr);
     if s = - 1 then sandbox_failed K server_fd (copy_msg ''Sandbox error'' res)
     else do {
       lockFd \<leftarrow> lock_file K filename LOCK_EXCLUSIVE;
       if lockFd < 0 then unlock_out K server_fd lockFd (set_msg ''Cannot lock file for chmod'' res)
       else do {
         m \<leftarrow> call K (PathC (Chmod filename privileges));
         if m \<noteq> 0 then do {
           e \<leftarrow> get_errno;
           unlock_out K server_fd lockFd (set_msg (''chmod failed: '' @ strerror e) res)
         }
         else unlock_out K server_fd lockFd
                (set_msg ''Permissions updated successfully'' (res\<lparr>res_status := 0\<rparr>))
       }
     }
   }"

definition HandleHelperDelete ::
  "'w kernel \<Rightarrow> int \<Rightarrow> helper_request_header \<Rightarrow> string \<Rightarrow> helper_response \<Rightarrow> 'w handler" where
  "HandleHelperDelete K server_fd hdr path res = do {
     s \<leftarrow> sandboxUserToHisHome K (req_session hdr);
     if s = - 1 then sandbox_failed K server_fd (copy_msg ''Sandbox error'' res)
     else do {
       st \<leftarrow> sys K (PathC (Stat path));
       if rv st \<noteq> 0 then do {
         e \<leftarrow> get_errno;
         unlock_out K server_fd (- 1) (set_msg (''Delete failed: '' @ strerror e) res)
       }
       else if S_ISDIR (st_mode (stat_out st)) then do {
         ret \<leftarrow> call K (PathC (Rmdir path));
         if ret \<noteq> 0 then do {
           e \<leftarrow> get_errno;
           unlock_out K server_fd (- 1) (set_msg (''Delete directory failed: '' @ strerror e) res)
         }
         else unlock_out K server_fd (- 1) (set_msg ''Deleted successfully'' (res\<lparr>res_status := 0\<rparr>))
       }
       else do {
         lockFd \<leftarrow> lock_file K path LOCK_EXCLUSIVE;
         if lockFd < 0 then unlock_out K server_fd lockFd (set_msg ''Cannot lock file for delete'' res)
         else do {
           ret \<leftarrow> call K (PathC (Unlink path));
           if ret \<noteq> 0 then do {
             e \<leftarrow> get_errno;
             unlock_out K server_fd lockFd (set_msg (''Delete file failed: '' @ strerror e) res)
           }
           else do {
             _ \<leftarrow> unlock_file K lockFd;
             unlock_out K server_fd (- 1) (set_msg ''Deleted successfully'' (res\<lparr>res_status := 0\<rparr>))
           }
         }
       }
     }
   }"

text \<open>\<open>dstPath\<close> is formatted into \<open>PATH_MAX\<close> bytes.\<close>

definition move_target :: "string \<Rightarrow> string \<Rightarrow> string" where
  "move_target path1 path2 = take 4095 (path2 @ ''/'' @ after_last_slash path1)"

definition HandleHelperMove ::
  "'w kernel \<Rightarrow> int \<Rightarrow> helper_request_header \<Rightarrow> string \<Rightarrow> string \<Rightarrow> helper_response \<Rightarrow> 'w handler" where
  "HandleHelperMove K server_fd hdr path1 path2 res = do {
     s \<leftarrow> sandboxUserToHisHome K (req_session hdr);
     if s = - 1 then sandbox_failed K server_fd (set_msg ''Sandbox error'' res)
     else do {
       lockFd \<leftarrow> lock_file K path1 LOCK_EXCLUSIVE;
       if lockFd < 0 then unlock_out K server_fd lockFd (set_msg ''Cannot lock source file for move'' res)
       else do {
         stSrc \<leftarrow> sys K (PathC (Stat path1));
         if rv stSrc \<noteq> 0 then do {
           e \<leftarrow> get_errno;
           unlock_out K server_fd lockFd
             (set_msg (''Move failed: source does not exist: '' @ strerror e) res)
         }
         else do {
           stDest \<leftarrow> sys K (PathC (Stat path2));
           if rv stDest \<noteq> 0 \<or> \<not> S_ISDIR (st_mode (stat_out stDest)) then
             unlock_out K server_fd lockFd
               (set_msg (''Move failed: destination is not a directory or doesn'' @ [CHR 0x27] @ ''t exists'') res)
           else do {
             let dstPath = move_target path1 path2;
             stCheck \<leftarrow> sys K (PathC (Stat dstPath));
             if rv stCheck = 0 then
               unlock_out K server_fd lockFd (set_msg ''Move failed: destination file already exists'' res)
             else do {
               ret \<leftarrow> call K (PathC (Rename path1 dstPath));
               if ret \<noteq> 0 then do {
                 e \<leftarrow> get_errno;
                 unlock_out K server_fd lockFd (set_msg (''Move failed: '' @ strerror e) res)
               }
               else unlock_out K server_fd lockFd
                      (set_msg ''Moved successfully'' (res\<lparr>res_status := 0\<rparr>))
             }
           }
         }
       }
     }
   }"

subsection \<open>\<open>HandleHelperRead\<close>\<close>

text \<open>\<open>buf\<close>: what was read from the file; the response is followed by it.\<close>

definition read_out :: "'w kernel \<Rightarrow> int \<Rightarrow> int \<Rightarrow> bytes \<Rightarrow> helper_response \<Rightarrow> 'w handler" where
  "read_out K server_fd lockFd buf res = do {
     _ \<leftarrow> (if 0 \<le> lockFd then unlock_file K lockFd else State_Monad.return ());
     r \<leftarrow> regainRoot K;
     if r = - 1 then State_Monad.return Exited
     else do {
       _ \<leftarrow> writeAll K server_fd (enc_response res);
       _ \<leftarrow> (if res_status res = 0 \<and> 0 < res_payload_len res
             then writeAll K server_fd (take (unat (res_payload_len res)) buf)
             else State_Monad.return 0);
       State_Monad.return (Returned res)
     }
   }"

definition HandleHelperRead ::
  "'w kernel \<Rightarrow> int \<Rightarrow> helper_request_header \<Rightarrow> string \<Rightarrow> int \<Rightarrow> helper_response \<Rightarrow> 'w handler" where
  "HandleHelperRead K server_fd hdr path offset res = do {
     s \<leftarrow> sandboxUserToHisHome K (req_session hdr);
     if s = - 1 then sandbox_failed K server_fd (set_msg ''Sandbox error'' res)
     else do {
       lockFd \<leftarrow> lock_file K path LOCK_SHARED;
       if lockFd < 0 then do {
         e \<leftarrow> get_errno;
         read_out K server_fd lockFd [] (set_msg (''Lock failed: '' @ strerror e) res)
       }
       else do {
         st \<leftarrow> sys K (FdC (Fstat lockFd));
         if rv st < 0 then do {
           e \<leftarrow> get_errno;
           read_out K server_fd lockFd [] (set_msg (''Stat failed: '' @ strerror e) res)
         }
         else if \<not> S_ISREG (st_mode (stat_out st)) then
           read_out K server_fd lockFd [] (set_msg ''Not a regular file'' res)
         else if st_size (stat_out st) < offset then
           read_out K server_fd lockFd [] (set_msg ''Offset beyond EOF'' res)
         else do {
           l \<leftarrow> call K (FdC (Lseek lockFd offset SEEK_SET));
           if l = - 1 then read_out K server_fd lockFd [] (set_msg ''Seek failed'' res)
           else do {
             n \<leftarrow> sys K (FdC (Read lockFd 4096));
             if rv n < 0 then
               read_out K server_fd lockFd [] (set_msg ''Internal error reading file'' res)
             else read_out K server_fd lockFd (out n)
                    (set_msg ''Success'' (res\<lparr>res_status := 0, res_payload_len := word_of_int (rv n)\<rparr>))
           }
         }
       }
     }
   }"

subsection \<open>\<open>HandleHelperWrite\<close>\<close>

text \<open>The padding loop: \<open>n\<close> single spaces, one \<open>write\<close> each; \<open>False\<close> when one fails.\<close>

fun pad_spaces :: "'w kernel \<Rightarrow> int \<Rightarrow> nat \<Rightarrow> ('w, bool) sysprog" where
  "pad_spaces K fd 0 = State_Monad.return True"
| "pad_spaces K fd (Suc n) = do {
     w \<leftarrow> call K (FdC (Write fd [SPC]));
     if w < 0 then State_Monad.return False else pad_spaces K fd n
   }"

definition write_out :: "'w kernel \<Rightarrow> int \<Rightarrow> int \<Rightarrow> helper_response \<Rightarrow> 'w handler" where
  "write_out K server_fd fd res = do {
     _ \<leftarrow> (if 0 \<le> fd then call K (FdC (Close fd)) else State_Monad.return 0);
     regain_and_respond K server_fd res
   }"

text \<open>From the positioned descriptor on.\<close>

definition write_data :: "'w kernel \<Rightarrow> int \<Rightarrow> int \<Rightarrow> bytes \<Rightarrow> u32 \<Rightarrow> helper_response \<Rightarrow> 'w handler" where
  "write_data K server_fd fd data data_len res = do {
     n \<leftarrow> call K (FdC (Write fd (take (unat data_len) data)));
     if n < 0 then do {
       e \<leftarrow> get_errno;
       write_out K server_fd fd (set_msg (''Write failed: '' @ strerror e) res)
     }
     else if (word_of_int n :: u32) \<noteq> data_len then
       write_out K server_fd fd
         (set_msg (''Partial write: wrote '' @ show_int n @ '' of '' @ show_nat (unat data_len) @ '' bytes'') res)
     else write_out K server_fd fd (set_msg ''Success'' (res\<lparr>res_status := 0, res_payload_len := 0\<rparr>))
   }"

definition HandleHelperWrite ::
  "'w kernel \<Rightarrow> int \<Rightarrow> helper_request_header \<Rightarrow> string \<Rightarrow> int \<Rightarrow> bytes \<Rightarrow> u32 \<Rightarrow> helper_response \<Rightarrow> 'w handler" where
  "HandleHelperWrite K server_fd hdr path offset data data_len res = do {
     s \<leftarrow> sandboxUserToHisHome K (req_session hdr);
     if s = - 1 then sandbox_failed K server_fd (set_msg ''Sandbox error'' res)
     else do {
       fd \<leftarrow> call K (PathC (Open path [O_RDWR, O_CREAT] 0x1C0));
       if fd < 0 then do {
         e \<leftarrow> get_errno;
         write_out K server_fd fd (set_msg (''Open failed: '' @ strerror e) res)
       }
       else do {
         l \<leftarrow> lock_fd K fd LOCK_EXCLUSIVE;
         if l < 0 then do {
           _ \<leftarrow> call K (FdC (Close fd));
           e \<leftarrow> get_errno;
           write_out K server_fd fd (set_msg (''Error locking fd: '' @ strerror e) res)
         }
         else do {
           st \<leftarrow> sys K (FdC (Fstat fd));
           if rv st < 0 then do {
             e \<leftarrow> get_errno;
             write_out K server_fd fd (set_msg (''Stat failed: '' @ strerror e) res)
           }
           else if \<not> S_ISREG (st_mode (stat_out st)) then
             write_out K server_fd fd (set_msg ''Not a regular file'' res)
           else if st_size (stat_out st) < offset then do {
             k \<leftarrow> call K (FdC (Lseek fd 0 SEEK_END));
             if k = - 1 then write_out K server_fd fd res
             else do {
               ok \<leftarrow> pad_spaces K fd (nat (offset - st_size (stat_out st)));
               if \<not> ok then write_out K server_fd fd (set_msg ''Padding failed'' res)
               else write_data K server_fd fd data data_len res
             }
           }
           else do {
             k \<leftarrow> call K (FdC (Lseek fd offset SEEK_SET));
             if k = - 1 then do {
               e \<leftarrow> get_errno;
               write_out K server_fd fd (set_msg (''Seek failed: '' @ strerror e) res)
             }
             else write_data K server_fd fd data data_len res
           }
         }
       }
     }
   }"

subsection \<open>\<open>HandleHelperDownload\<close>, \<open>HandleHelperUpload\<close>\<close>

text \<open>
  \<open>while ((n = read(src, buf, len)) > 0) if (writeAll(dst, buf, n) < 0) break;\<close>  The
  number of rounds is up to the kernel, so the loop takes fuel and says with
  \<open>False\<close> that it has not ended yet.
\<close>

fun copy_stream :: "nat \<Rightarrow> 'w kernel \<Rightarrow> int \<Rightarrow> int \<Rightarrow> nat \<Rightarrow> ('w, bool) sysprog" where
  "copy_stream 0 K src dst len = State_Monad.return False"
| "copy_stream (Suc fuel) K src dst len = do {
     n \<leftarrow> sys K (FdC (Read src len));
     if rv n \<le> 0 then State_Monad.return True
     else do {
       w \<leftarrow> writeAll K dst (take (nat (rv n)) (out n));
       if w < 0 then State_Monad.return True else copy_stream fuel K src dst len
     }
   }"

text \<open>The common end of the two handlers.\<close>

definition stream_out :: "'w kernel \<Rightarrow> int \<Rightarrow> int \<Rightarrow> helper_response \<Rightarrow> 'w handler" where
  "stream_out K server_fd fd res = do {
     _ \<leftarrow> (if res_status res \<noteq> 0 then writeAll K server_fd (enc_response res) else State_Monad.return 0);
     _ \<leftarrow> (if 0 \<le> fd then do { _ \<leftarrow> unlock_fd K fd; call K (FdC (Close fd)) } else State_Monad.return 0);
     r \<leftarrow> regainRoot K;
     State_Monad.return (if r = - 1 then Exited else Returned res)
   }"

definition HandleHelperDownload ::
  "nat \<Rightarrow> 'w kernel \<Rightarrow> int \<Rightarrow> helper_request_header \<Rightarrow> string \<Rightarrow> helper_response \<Rightarrow> 'w handler" where
  "HandleHelperDownload fuel K server_fd hdr path res = do {
     s \<leftarrow> sandboxUserToHisHome K (req_session hdr);
     if s = - 1 then respond K server_fd (set_msg ''Sandbox error'' res)
     else do {
       fd \<leftarrow> call K (PathC (Open path [O_RDONLY] 0));
       if fd < 0 then do {
         e \<leftarrow> get_errno;
         respond K server_fd (set_msg (''Open failed: '' @ strerror e) res)
       }
       else do {
         l \<leftarrow> lock_fd K fd LOCK_SHARED;
         if l < 0 then stream_out K server_fd fd (set_msg ''Lock failed'' res)
         else do {
           st \<leftarrow> sys K (FdC (Fstat fd));
           if rv st < 0 \<or> \<not> S_ISREG (st_mode (stat_out st)) then
             stream_out K server_fd fd (set_msg ''Invalid file type'' res)
           else do {
             let res' = set_msg ''Success''
                   (res\<lparr>res_status := 0, res_payload_len := word_of_int (st_size (stat_out st))\<rparr>);
             w \<leftarrow> writeAll K server_fd (enc_response res');
             if w < 0 then stream_out K server_fd fd res'
             else do {
               ended \<leftarrow> copy_stream fuel K fd server_fd 16384;
               if \<not> ended then State_Monad.return Running
               else stream_out K server_fd fd res'
             }
           }
         }
       }
     }
   }"

definition HandleHelperUpload ::
  "nat \<Rightarrow> 'w kernel \<Rightarrow> int \<Rightarrow> helper_request_header \<Rightarrow> string \<Rightarrow> helper_response \<Rightarrow> 'w handler" where
  "HandleHelperUpload fuel K server_fd hdr path res = do {
     s \<leftarrow> sandboxUserToHisHome K (req_session hdr);
     if s = - 1 then respond K server_fd (set_msg ''Sandbox error'' res)
     else do {
       fd \<leftarrow> call K (PathC (Open path [O_WRONLY, O_CREAT, O_TRUNC] 0x180));
       if fd < 0 then do {
         e \<leftarrow> get_errno;
         stream_out K server_fd fd (set_msg (''Open/Create failed: '' @ strerror e) res)
       }
       else do {
         l \<leftarrow> lock_fd K fd LOCK_EXCLUSIVE;
         if l < 0 then stream_out K server_fd fd (set_msg ''Lock failed'' res)
         else do {
           let res' = set_msg ''Success'' (res\<lparr>res_status := 0, res_payload_len := 0\<rparr>);
           w \<leftarrow> writeAll K server_fd (enc_response res');
           if w < 0 then stream_out K server_fd fd res'
           else do {
             ended \<leftarrow> copy_stream fuel K server_fd fd 16384;
             if \<not> ended then State_Monad.return Running
             else stream_out K server_fd fd res'
           }
         }
       }
     }
   }"

section \<open>The loops and the jail\<close>

definition io_call :: "syscall \<Rightarrow> bool" where
  "io_call c \<longleftrightarrow> (case c of FdC (Read _ _) \<Rightarrow> True | FdC (Write _ _) \<Rightarrow> True | _ \<Rightarrow> False)"

lemma io_call_simps [simp]: "io_call (FdC (Read fd n))" "io_call (FdC (Write fd b))"
  by (simp_all add: io_call_def)

lemma io_call_iff: "io_call c \<longleftrightarrow> (\<exists>fd n. c = FdC (Read fd n)) \<or> (\<exists>fd b. c = FdC (Write fd b))"
  by (auto simp: io_call_def split: syscall.split fd_call.split)

lemma only_calls_mono: "only_calls C m \<Longrightarrow> (\<And>c. C c \<Longrightarrow> D c) \<Longrightarrow> only_calls D m"
  unfolding only_calls_def by meson

lemma writeAll_io: "only_calls io_call (writeAll K fd bs)"
  by (rule only_calls_mono [OF writeAll_only]) (auto simp: writes_to_iff)

lemma pad_spaces_io: "only_calls io_call (pad_spaces K fd n)"
  by (induction n) (auto intro!: only_calls_intros)

lemma copy_stream_io: "only_calls io_call (copy_stream fuel K src dst len)"
  by (induction fuel) (auto intro!: only_calls_intros writeAll_io)

lemma jail_ignores_io:
  "\<forall>e\<in>set es. io_call (fst e) \<Longrightarrow> mon_run (jail_step root s) c es = Some c"
  by (rule mon_run_ignored) (auto simp: io_call_iff jail_step_def)

lemma jail_io:
  assumes "only_calls io_call m"
    and "\<And>n p'. jail_state root s p' = jail_state root s p \<Longrightarrow> Q n p'"
  shows "wp m Q p"
  by (rule wp_only_callsI [OF assms(1)], rule assms(2))
    (auto simp: mon_run_append jail_ignores_io split: option.split)

lemmas jail_loops = jail_io [OF writeAll_io] jail_io [OF pad_spaces_io] jail_io [OF copy_stream_io]

section \<open>Every handler stays in the jail\<close>

definition jailed :: "ClientSession \<Rightarrow> helper_response outcome \<Rightarrow> 'w proc \<Rightarrow> bool" where
  "jailed s r p \<longleftrightarrow> (case jail_state (session_home s) s p of
       None \<Rightarrow> False
     | Some c \<Rightarrow> (case r of Returned _ \<Rightarrow> c_euid c = 0 \<and> c_egid c = 0 | _ \<Rightarrow> True))"

lemma jailed_regain_and_respond:
  assumes "jail_state (session_home s) s p \<noteq> None"
  shows "wp (regain_and_respond K fd res) (jailed s) p"
  unfolding regain_and_respond_def respond_def
  by (auto simp: wp_simps jailed_def
      intro!: jail_regainRoot [OF assms] jail_loops [where root = "session_home s" and s = s])

lemma jailed_sandbox_failed:
  assumes "jail_state (session_home s) s p \<noteq> None"
  shows "wp (sandbox_failed K fd res) (jailed s) p"
  using assms unfolding sandbox_failed_def
  by (auto simp: wp_simps jailed_def intro!: jail_loops [where root = "session_home s" and s = s])

lemmas lock_defs = lock_file_def unlock_file_def lock_fd_def unlock_fd_def

lemma ChangeDirectory_jailed:
  assumes "jail_state (session_home (req_session hdr)) (req_session hdr) p = Some c"
  shows "wp (ChangeDirectory K fd hdr path res) (jailed (req_session hdr)) p"
  unfolding ChangeDirectory_def Let_def cd_out_def
  by (auto simp: wp_simps mon_simps intro!: any_kernel jail_sandbox_home [OF assms]
      jailed_regain_and_respond jailed_sandbox_failed)

lemma HandleHelperDelete_jailed:
  assumes "jail_state (session_home (req_session hdr)) (req_session hdr) p = Some c"
  shows "wp (HandleHelperDelete K fd hdr path res) (jailed (req_session hdr)) p"
  unfolding HandleHelperDelete_def Let_def unlock_out_def lock_defs
  by (auto simp: wp_simps mon_simps intro!: any_kernel jail_sandbox_home [OF assms]
      jailed_regain_and_respond jailed_sandbox_failed)

lemma HandlerHelperCreateFile_jailed:
  assumes "jail_state (session_home (req_session hdr)) (req_session hdr) p = Some c"
  shows "wp (HandlerHelperCreateFile K fd hdr path mode d res) (jailed (req_session hdr)) p"
  unfolding HandlerHelperCreateFile_def Let_def create_out_def lock_defs
  by (auto simp: wp_simps mon_simps jailed_def intro!: any_kernel jail_sandbox_home [OF assms]
      jailed_regain_and_respond jailed_sandbox_failed
      jail_regainRoot [where root = "session_home (req_session hdr)" and s = "req_session hdr"]
      jail_loops [where root = "session_home (req_session hdr)" and s = "req_session hdr"])

lemma HandleHelperChmod_jailed:
  assumes "jail_state (session_home (req_session hdr)) (req_session hdr) p = Some c"
  shows "wp (HandleHelperChmod K fd hdr path mode res) (jailed (req_session hdr)) p"
  unfolding HandleHelperChmod_def Let_def unlock_out_def lock_defs
  by (auto simp: wp_simps mon_simps intro!: any_kernel jail_sandbox_home [OF assms]
      jailed_regain_and_respond jailed_sandbox_failed)

lemma HandleHelperMove_jailed:
  assumes "jail_state (session_home (req_session hdr)) (req_session hdr) p = Some c"
  shows "wp (HandleHelperMove K fd hdr path1 path2 res) (jailed (req_session hdr)) p"
  unfolding HandleHelperMove_def Let_def unlock_out_def lock_defs
  by (auto simp: wp_simps mon_simps intro!: any_kernel jail_sandbox_home [OF assms]
      jailed_regain_and_respond jailed_sandbox_failed)

lemma jailed_read_out:
  assumes "jail_state (session_home s) s p \<noteq> None"
  shows "wp (read_out K server_fd lockFd buf res) (jailed s) p"
  using assms unfolding read_out_def lock_defs
  by (auto simp: wp_simps mon_simps jailed_def
      intro!: any_kernel jail_regainRoot [where root = "session_home s" and s = s]
        jail_loops [where root = "session_home s" and s = s])

lemma HandleHelperRead_jailed:
  assumes "jail_state (session_home (req_session hdr)) (req_session hdr) p = Some c"
  shows "wp (HandleHelperRead K fd hdr path offset res) (jailed (req_session hdr)) p"
  unfolding HandleHelperRead_def Let_def lock_file_def
  by (auto simp: wp_simps mon_simps intro!: any_kernel jail_sandbox_home [OF assms]
      jailed_read_out jailed_sandbox_failed)

lemma jailed_write_out:
  assumes "jail_state (session_home s) s p \<noteq> None"
  shows "wp (write_out K server_fd fd res) (jailed s) p"
  using assms unfolding write_out_def
  by (auto simp: wp_simps mon_simps intro!: any_kernel jailed_regain_and_respond)

lemma jailed_write_data:
  assumes "jail_state (session_home s) s p \<noteq> None"
  shows "wp (write_data K server_fd fd data n res) (jailed s) p"
  using assms unfolding write_data_def Let_def
  by (auto simp: wp_simps mon_simps intro!: any_kernel jailed_write_out)

lemma HandleHelperWrite_jailed:
  assumes "jail_state (session_home (req_session hdr)) (req_session hdr) p = Some c"
  shows "wp (HandleHelperWrite K fd hdr path offset data n res) (jailed (req_session hdr)) p"
  unfolding HandleHelperWrite_def Let_def lock_fd_def
  by (auto simp: wp_simps mon_simps intro!: any_kernel jail_sandbox_home [OF assms]
      jailed_write_out jailed_write_data jailed_sandbox_failed
      jail_loops [where root = "session_home (req_session hdr)" and s = "req_session hdr"])

text \<open>
  The two streaming handlers answer a failed sandbox (and \<open>HandleHelperDownload\<close> a
  failed \<open>open\<close>) without taking the privileges back, so only a successful answer
  comes with them.
\<close>

definition jailed_on_success :: "ClientSession \<Rightarrow> helper_response outcome \<Rightarrow> 'w proc \<Rightarrow> bool" where
  "jailed_on_success s r p \<longleftrightarrow> (case jail_state (session_home s) s p of
       None \<Rightarrow> False
     | Some c \<Rightarrow> (case r of Returned a \<Rightarrow> res_status a = 0 \<longrightarrow> c_euid c = 0 \<and> c_egid c = 0
                             | _ \<Rightarrow> True))"

lemma jailed_respond_error:
  assumes "jail_state (session_home s) s p \<noteq> None" "res_status res \<noteq> 0"
  shows "wp (respond K fd res) (jailed_on_success s) p"
  using assms unfolding respond_def
  by (auto simp: wp_simps jailed_on_success_def
      intro!: jail_loops [where root = "session_home s" and s = s])

lemma jailed_stream_out:
  assumes "jail_state (session_home s) s p \<noteq> None"
  shows "wp (stream_out K server_fd fd res) (jailed_on_success s) p"
  using assms unfolding stream_out_def lock_defs
  by (auto simp: wp_simps mon_simps jailed_on_success_def
      intro!: any_kernel jail_regainRoot [where root = "session_home s" and s = s]
        jail_loops [where root = "session_home s" and s = s])

lemma jailed_running: "jailed_on_success s Running p \<longleftrightarrow> jail_state (session_home s) s p \<noteq> None"
  by (auto simp: jailed_on_success_def split: option.splits)

lemma HandleHelperDownload_jailed:
  assumes "jail_state (session_home (req_session hdr)) (req_session hdr) p = Some c"
    and "res_status res \<noteq> 0"
  shows "wp (HandleHelperDownload fuel K fd hdr path res) (jailed_on_success (req_session hdr)) p"
  using assms(2) unfolding HandleHelperDownload_def Let_def lock_fd_def
  by (auto simp: wp_simps mon_simps jailed_running intro!: any_kernel jail_sandbox_home [OF assms(1)]
      jailed_respond_error jailed_stream_out
      jail_loops [where root = "session_home (req_session hdr)" and s = "req_session hdr"])

lemma HandleHelperUpload_jailed:
  assumes "jail_state (session_home (req_session hdr)) (req_session hdr) p = Some c"
    and "res_status res \<noteq> 0"
  shows "wp (HandleHelperUpload fuel K fd hdr path res) (jailed_on_success (req_session hdr)) p"
  using assms(2) unfolding HandleHelperUpload_def Let_def lock_fd_def
  by (auto simp: wp_simps mon_simps jailed_running intro!: any_kernel jail_sandbox_home [OF assms(1)]
      jailed_respond_error jailed_stream_out
      jail_loops [where root = "session_home (req_session hdr)" and s = "req_session hdr"])

end
