(* ===== verification/Descriptors.thy ===== *)
theory Descriptors
  imports Helper_Files
begin

text \<open>
  Descriptors and advisory locks in the file handlers.  The monitor keeps the table
  of the descriptors a process has opened, each with the path it was opened by and
  the lock held on it.  It objects to closing a descriptor that is not open, to
  removing, renaming or changing the mode of a file without holding its write lock,
  to reading a file without a lock and to writing one without its write lock; it
  does not look at the connection \<open>sfd\<close> nor at the flags of an \<open>open\<close>: a file that \<open>O_TRUNC\<close>
  empties is not counted as written.
\<close>

section \<open>The monitor\<close>

type_synonym fd_table = "(int \<times> string \<times> lock_kind option) list"

fun tab_remove :: "int \<Rightarrow> fd_table \<Rightarrow> fd_table option" where
  "tab_remove fd [] = None"
| "tab_remove fd (x # t) = (if fst x = fd then Some t else map_option (Cons x) (tab_remove fd t))"

fun tab_lock :: "int \<Rightarrow> lock_kind option \<Rightarrow> fd_table \<Rightarrow> fd_table" where
  "tab_lock fd k [] = []"
| "tab_lock fd k (x # t) =
     (if fst x = fd then (fd, fst (snd x), k) # t else x # tab_lock fd k t)"

definition write_locked :: "string \<Rightarrow> fd_table \<Rightarrow> bool" where
  "write_locked path t \<longleftrightarrow> list_ex (\<lambda>x. snd x = (path, Some F_WRLCK)) t"

definition fd_lock :: "int \<Rightarrow> fd_table \<Rightarrow> lock_kind option option" where
  "fd_lock fd t = map_option snd (map_of t fd)"

definition path_step :: "fd_table \<Rightarrow> path_call \<Rightarrow> sysres \<Rightarrow> fd_table option" where
  "path_step t c r = (case c of
       Open p _ _ \<Rightarrow> Some (if 0 \<le> rv r then (rv r, p, None) # t else t)
     | Openat _ p _ _ \<Rightarrow> Some (if 0 \<le> rv r then (rv r, p, None) # t else t)
     | Unlink p \<Rightarrow> if write_locked p t then Some t else None
     | Rename p _ \<Rightarrow> if write_locked p t then Some t else None
     | Chmod p _ \<Rightarrow> if write_locked p t then Some t else None
     | _ \<Rightarrow> Some t)"

text \<open>
  Two modes: a lenient monitor stops judging (\<open>None\<close>) once a lock is refused, by
  \<open>F_SETLKW\<close> or by the \<open>open(path, O_RDWR)\<close> that \<open>lock_file\<close> starts with.
\<close>

definition table_step :: "int \<Rightarrow> fd_table \<Rightarrow> event \<Rightarrow> fd_table option" where
  "table_step sfd t e = (case fst e of
       PathC c \<Rightarrow> path_step t c (snd e)
     | FdC (Close fd) \<Rightarrow> tab_remove fd t
     | FdC (Setlkw fd k) \<Rightarrow> Some (if 0 \<le> rv (snd e) then tab_lock fd (Some k) t else t)
     | FdC (Setlk fd k) \<Rightarrow> Some (tab_lock fd None t)
     | FdC (Write fd _) \<Rightarrow>
         if fd = sfd \<or> fd_lock fd t = Some (Some F_WRLCK) then Some t else None
     | FdC (Read fd _) \<Rightarrow>
         if fd = sfd \<or> (\<exists>k. fd_lock fd t = Some (Some k)) then Some t else None
     | _ \<Rightarrow> Some t)"

definition lock_refused :: "event \<Rightarrow> bool" where
  "lock_refused e \<longleftrightarrow> rv (snd e) < 0 \<and> (case fst e of
       FdC (Setlkw _ _) \<Rightarrow> True | PathC (Open _ fl _) \<Rightarrow> fl = [O_RDWR] | _ \<Rightarrow> False)"

lemma lock_refused_simps [mon_simps]:
  "lock_refused (PathC (Open p fl m), r) \<longleftrightarrow> rv r < 0 \<and> fl = [O_RDWR]"
  "\<not> lock_refused (PathC (Openat d p fl m), r)" "\<not> lock_refused (PathC (Unlink p), r)"
  "\<not> lock_refused (PathC (Rename p q), r)" "\<not> lock_refused (PathC (Chmod p m), r)"
  "\<not> lock_refused (PathC (Stat p), r)" "\<not> lock_refused (PathC (Mkdir p m), r)"
  "\<not> lock_refused (PathC (Rmdir p), r)"
  by (simp_all add: lock_refused_def)

definition fd_step :: "bool \<Rightarrow> int \<Rightarrow> fd_table option \<Rightarrow> event \<Rightarrow> fd_table option option" where
  "fd_step lenient sfd u e = (case u of
       None \<Rightarrow> Some None
     | Some t \<Rightarrow> if lenient \<and> lock_refused e then Some None
                 else map_option Some (table_step sfd t e))"

lemma path_step_simps [mon_simps]:
  "path_step t (Open p a b) r = Some (if 0 \<le> rv r then (rv r, p, None) # t else t)"
  "path_step t (Openat d p a b) r = Some (if 0 \<le> rv r then (rv r, p, None) # t else t)"
  "path_step t (Unlink p) r = (if write_locked p t then Some t else None)"
  "path_step t (Rename p q) r = (if write_locked p t then Some t else None)"
  "path_step t (Chmod p m) r = (if write_locked p t then Some t else None)"
  "path_step t (Stat p) r = Some t" "path_step t (Mkdir p m) r = Some t"
  "path_step t (Rmdir p) r = Some t"
  by (simp_all add: path_step_def)

lemma fd_step_simps [mon_simps]:
  "fd_step lenient sfd None e = Some None"
  "fd_step lenient sfd (Some t) (PathC c, r) =
     (if lenient \<and> lock_refused (PathC c, r) then Some None else map_option Some (path_step t c r))"
  "fd_step lenient sfd (Some t) (CredC k, r) = Some (Some t)"
  "fd_step lenient sfd (Some t) (FdC (Close fd), r) = map_option Some (tab_remove fd t)"
  "fd_step lenient sfd (Some t) (FdC (Setlkw fd k'), r) =
     (if 0 \<le> rv r then Some (Some (tab_lock fd (Some k') t))
      else if lenient then Some None else Some (Some t))"
  "fd_step lenient sfd (Some t) (FdC (Setlk fd k'), r) = Some (Some (tab_lock fd None t))"
  "fd_step lenient sfd (Some t) (FdC (Write fd b), r) =
     (if fd = sfd \<or> fd_lock fd t = Some (Some F_WRLCK) then Some (Some t) else None)"
  "fd_step lenient sfd (Some t) (FdC (Read fd n), r) =
     (if fd = sfd \<or> (\<exists>k. fd_lock fd t = Some (Some k)) then Some (Some t) else None)"
  "fd_step lenient sfd (Some t) (FdC (Lseek fd i w), r) = Some (Some t)"
  "fd_step lenient sfd (Some t) (FdC (Fstat fd), r) = Some (Some t)"
  by (simp_all add: fd_step_def table_step_def lock_refused_def)

lemma tab_simps [mon_simps]:
  "write_locked p [] \<longleftrightarrow> False"
  "write_locked p (x # t) \<longleftrightarrow> snd x = (p, Some F_WRLCK) \<or> write_locked p t"
  "fd_lock fd [] = None"
  "fd_lock fd (x # t) = (if fst x = fd then Some (snd (snd x)) else fd_lock fd t)"
  by (simp_all add: write_locked_def fd_lock_def)

abbreviation fd_state :: "bool \<Rightarrow> int \<Rightarrow> fd_table \<Rightarrow> 'w proc \<Rightarrow> fd_table option option" where
  "fd_state lenient sfd tb p \<equiv> mon_run (fd_step lenient sfd) (Some tb) (events p)"

definition fds_at :: "bool \<Rightarrow> int \<Rightarrow> fd_table \<Rightarrow> fd_table \<Rightarrow> 'w proc \<Rightarrow> bool" where
  "fds_at lenient sfd tb t p \<longleftrightarrow> (case fd_state lenient sfd tb p of
       None \<Rightarrow> False | Some None \<Rightarrow> True | Some (Some t') \<Rightarrow> t' = t)"

text \<open>
  The property of a handler: no objection, and on return every descriptor it opened
  is closed again (the table is the one it started with).
\<close>

definition fds_clean :: "bool \<Rightarrow> int \<Rightarrow> fd_table \<Rightarrow> fd_table \<Rightarrow> helper_response outcome \<Rightarrow> 'w proc \<Rightarrow> bool" where
  "fds_clean lenient sfd tb t r p \<longleftrightarrow>
     fd_state lenient sfd tb p \<noteq> None \<and>
     (case r of Returned _ \<Rightarrow> fds_at lenient sfd tb t p | _ \<Rightarrow> True)"

section \<open>Pieces of the handlers\<close>

lemma fds_at_state: "fds_at lenient sfd tb t p \<Longrightarrow> fd_state lenient sfd tb p \<noteq> None"
  by (auto simp: fds_at_def split: option.splits)

lemma fd_writeAll:
  assumes "\<And>n p'. fd_state lenient sfd tb p' = fd_state lenient sfd tb p \<Longrightarrow> Q n p'"
  shows "wp (writeAll K sfd bs) Q p"
proof (rule wp_only_callsI [OF writeAll_only], rule assms)
  fix p' :: "'a proc" and es
  assume es: "events p' = events p @ es" "\<forall>e\<in>set es. writes_to sfd (fst e)"
  then have "mon_run (fd_step lenient sfd) t es = Some t" for t
    by (intro mon_run_ignored)
      (auto simp: writes_to_iff fd_step_def table_step_def lock_refused_def split: option.split)
  then show "fd_state lenient sfd tb p' = fd_state lenient sfd tb p"
    by (simp add: es mon_run_append split: option.split)
qed

lemma fd_step_cred: "fd_step lenient sfd u (CredC k, r) = Some u"
  by (simp add: fd_step_def table_step_def lock_refused_def split: option.split)

lemma fd_creds:
  assumes "\<And>n p'. fd_state lenient sfd tb p' = fd_state lenient sfd tb p \<Longrightarrow> Q n p'"
  shows "wp (sandboxUserToHisHome K s) Q p" "wp (regainRoot K) Q p"
  unfolding sandboxUserToHisHome_def dropPrivilegesTemp_def regainRoot_def
  by (auto simp: wp_simps mon_run_append fd_step_cred intro!: any_kernel assms split: option.split)

lemma fd_regain_and_respond:
  assumes "fds_at lenient sfd tb t p"
  shows "wp (regain_and_respond K sfd res) (fds_clean lenient sfd tb t) p"
  using assms unfolding regain_and_respond_def respond_def
  by (auto simp: wp_simps fds_clean_def fds_at_def split: option.splits
      intro!: fd_creds(2) [where lenient = lenient and sfd = sfd and tb = tb]
        fd_writeAll [where lenient = lenient and tb = tb])

lemma fd_sandbox_failed:
  assumes "fds_at lenient sfd tb t p"
  shows "wp (sandbox_failed K sfd res) (fds_clean lenient sfd tb t) p"
  using assms unfolding sandbox_failed_def
  by (auto simp: wp_simps fds_clean_def fds_at_def split: option.splits
      intro!: fd_writeAll [where lenient = lenient and tb = tb])

lemma fd_read_out:
  assumes "case fd_state lenient sfd tb p of None \<Rightarrow> False | Some None \<Rightarrow> True
     | Some (Some t') \<Rightarrow>
         (if 0 \<le> lockFd then tab_remove lockFd (tab_lock lockFd None t') = Some t else t' = t)"
  shows "wp (read_out K sfd lockFd buf res) (fds_clean lenient sfd tb t) p"
  using assms unfolding read_out_def lock_defs
  by (auto simp: wp_simps mon_simps fds_clean_def fds_at_def split: option.splits if_splits
      intro!: any_kernel fd_creds(2) [where lenient = lenient and sfd = sfd and tb = tb]
        fd_writeAll [where lenient = lenient and tb = tb])

lemma fd_write_out:
  assumes "case fd_state lenient sfd tb p of None \<Rightarrow> False | Some None \<Rightarrow> True
     | Some (Some t') \<Rightarrow> (if 0 \<le> fd then tab_remove fd t' = Some t else t' = t)"
  shows "wp (write_out K sfd fd res) (fds_clean lenient sfd tb t) p"
  using assms unfolding write_out_def
  by (auto simp: wp_simps mon_simps fds_at_def split: option.splits if_splits
      intro!: any_kernel fd_regain_and_respond)

lemma fd_write_data:
  assumes "case fd_state lenient sfd tb p of None \<Rightarrow> False | Some None \<Rightarrow> True
     | Some (Some t') \<Rightarrow> fd_lock fd t' = Some (Some F_WRLCK) \<and> tab_remove fd t' = Some t" "0 \<le> fd"
  shows "wp (write_data K sfd fd data n res) (fds_clean lenient sfd tb t) p"
  using assms unfolding write_data_def Let_def
  by (auto simp: wp_simps mon_simps split: option.splits intro!: any_kernel fd_write_out)

lemma fd_pad_spaces:
  assumes "case fd_state lenient sfd tb p of None \<Rightarrow> False | Some None \<Rightarrow> True
     | Some (Some t') \<Rightarrow> fd_lock fd t' = Some (Some F_WRLCK)"
    and "\<And>n p'. fd_state lenient sfd tb p' = fd_state lenient sfd tb p \<Longrightarrow> Q n p'"
  shows "wp (pad_spaces K fd n) Q p"
  using assms
proof (induction n arbitrary: p)
  case 0
  then show ?case by (simp add: wp_simps)
next
  case (Suc n)
  show ?case
    using Suc.prems(1)
    by (auto simp: wp_simps mon_simps split: option.splits
        intro!: wp_callI Suc.IH Suc.prems(2))
qed

section \<open>The handlers\<close>

lemma HandleHelperDelete_fds:
  assumes "fds_at lenient sfd tb t p"
  shows "wp (HandleHelperDelete K sfd hdr path res) (fds_clean lenient sfd tb t) p"
  using assms unfolding HandleHelperDelete_def Let_def unlock_out_def lock_defs lock_of_def fds_at_def
  by (auto simp: wp_simps mon_simps fds_at_def split: option.splits
      intro!: any_kernel fd_creds(1) [where lenient = lenient and sfd = sfd and tb = tb]
      fd_regain_and_respond fd_sandbox_failed)

lemma ChangeDirectory_fds:
  assumes "fds_at lenient sfd tb t p"
  shows "wp (ChangeDirectory K sfd hdr path res) (fds_clean lenient sfd tb t) p"
  using assms unfolding ChangeDirectory_def Let_def cd_out_def fds_at_def
  by (auto simp: wp_simps mon_simps fds_at_def split: option.splits
      intro!: any_kernel fd_creds [where lenient = lenient and sfd = sfd and tb = tb]
      fd_regain_and_respond fd_sandbox_failed)

lemma HandleHelperChmod_fds:
  assumes "fds_at lenient sfd tb t p"
  shows "wp (HandleHelperChmod K sfd hdr path mode res) (fds_clean lenient sfd tb t) p"
  using assms unfolding HandleHelperChmod_def Let_def unlock_out_def lock_defs lock_of_def fds_at_def
  by (auto simp: wp_simps mon_simps fds_at_def split: option.splits
      intro!: any_kernel fd_creds [where lenient = lenient and sfd = sfd and tb = tb]
      fd_regain_and_respond fd_sandbox_failed)

lemma HandleHelperMove_fds:
  assumes "fds_at lenient sfd tb t p"
  shows "wp (HandleHelperMove K sfd hdr path1 path2 res) (fds_clean lenient sfd tb t) p"
  using assms unfolding HandleHelperMove_def Let_def unlock_out_def lock_defs lock_of_def fds_at_def
  by (auto simp: wp_simps mon_simps fds_at_def split: option.splits
      intro!: any_kernel fd_creds [where lenient = lenient and sfd = sfd and tb = tb]
      fd_regain_and_respond fd_sandbox_failed)

lemma HandleHelperRead_fds:
  assumes "fds_at lenient sfd tb t p"
  shows "wp (HandleHelperRead K sfd hdr path offset res) (fds_clean lenient sfd tb t) p"
  using assms unfolding HandleHelperRead_def Let_def lock_file_def lock_of_def fds_at_def
  by (auto simp: wp_simps mon_simps fds_at_def split: option.splits
      intro!: any_kernel fd_creds [where lenient = lenient and sfd = sfd and tb = tb]
      fd_read_out fd_sandbox_failed)

text \<open>
  The two handlers that close a descriptor twice when the lock is refused: judged up
  to a refused lock.
\<close>

lemma HandleHelperWrite_fds:
  assumes "fds_at True sfd tb t p"
  shows "wp (HandleHelperWrite K sfd hdr path offset data n res) (fds_clean True sfd tb t) p"
  using assms unfolding HandleHelperWrite_def Let_def lock_fd_def lock_of_def fds_at_def
  by (auto simp: wp_simps mon_simps fds_at_def split: option.splits
      intro!: any_kernel fd_creds [where lenient = True and sfd = sfd and tb = tb]
      fd_write_out fd_write_data fd_sandbox_failed
      fd_pad_spaces [where lenient = True and sfd = sfd and tb = tb])

lemma HandlerHelperCreateFile_fds:
  assumes "fds_at True sfd tb t p"
  shows "wp (HandlerHelperCreateFile K sfd hdr path mode d res) (fds_clean True sfd tb t) p"
  using assms unfolding HandlerHelperCreateFile_def Let_def create_out_def lock_defs lock_of_def fds_at_def
  by (auto simp: wp_simps mon_simps fds_at_def fds_clean_def split: option.splits
      intro!: any_kernel fd_creds [where lenient = True and sfd = sfd and tb = tb]
      fd_regain_and_respond fd_sandbox_failed
      fd_writeAll [where lenient = True and sfd = sfd and tb = tb])

end
