(* ===== verification/Helper_Main.thy ===== *)
theory Helper_Main
  imports Descriptors
begin

text \<open>
  The rest of \<open>src/src/server/helper/helper.c\<close>: creating system users, looking users
  up at login, listing a directory, moving a file from one user to another, and the
  loop that reads requests and dispatches them.
\<close>

section \<open>Creating users\<close>

definition USER_CREATION_LOCK_FILENAME :: string where
  "USER_CREATION_LOCK_FILENAME = ''.user_creation.lock''"

text \<open>\<open>if (fork() == 0) { execlp("deluser", ...); _exit(1); } wait(NULL);\<close>\<close>

definition delete_user :: "'w kernel \<Rightarrow> string \<Rightarrow> ('w, unit outcome) sysprog" where
  "delete_user K username = do {
     f \<leftarrow> call K (ProcC Fork);
     if f = 0 then do {
       _ \<leftarrow> call K (ProcC (Execlp [''deluser'', ''--remove-home'', username]));
       State_Monad.return Exited
     }
     else do {
       _ \<leftarrow> call K (ProcC Wait);
       State_Monad.return (Returned ())
     }
   }"

text \<open>The result is the return value and the message.\<close>

definition release_and_fail :: "'w kernel \<Rightarrow> int \<Rightarrow> string \<Rightarrow> ('w, (int \<times> string) outcome) sysprog" where
  "release_and_fail K lockfd msg = do {
     _ \<leftarrow> releaseUserCreationLock K lockfd;
     State_Monad.return (Returned (- 1, msg))
   }"

definition delete_and_fail :: "'w kernel \<Rightarrow> int \<Rightarrow> string \<Rightarrow> string \<Rightarrow> ('w, (int \<times> string) outcome) sysprog" where
  "delete_and_fail K lockfd username msg = do {
     d \<leftarrow> delete_user K username;
     if d = Exited then State_Monad.return Exited else release_and_fail K lockfd msg
   }"

definition WIFEXITED :: "int \<Rightarrow> bool" where
  "WIFEXITED st \<longleftrightarrow> st mod 128 = 0"

definition WEXITSTATUS :: "int \<Rightarrow> int" where
  "WEXITSTATUS st = (st div 256) mod 256"

definition CreateSystemUser ::
  "'w kernel \<Rightarrow> string \<Rightarrow> string \<Rightarrow> string \<Rightarrow> u32 \<Rightarrow> ('w, (int \<times> string) outcome) sysprog" where
  "CreateSystemUser K lock_file_path rootDir username privileges = do {
     let homeDir = take 1023 (rootDir @ ''/'' @ username);
     lockfd \<leftarrow> acquireUserCreationLock K lock_file_path;
     if lockfd < 0 then State_Monad.return (Returned (- 1, ''internal server error''))
     else do {
       known \<leftarrow> sys K (ProcC (Getpwnam username));
       if pw_out known \<noteq> None then release_and_fail K lockfd ''error creating user, username taken''
       else do {
         pid \<leftarrow> call K (ProcC Fork);
         if pid < 0 then release_and_fail K lockfd ''internal server error''
         else if pid = 0 then do {
           _ \<leftarrow> call K (ProcC (Execlp [''adduser'', ''--disabled-password'', ''--gecos'', '''', ''--ingroup'',
                  ''users'', ''--home'', homeDir, ''--no-create-home'', username]));
           State_Monad.return Exited
         }
         else do {
           st \<leftarrow> sys K (ProcC (Waitpid pid));
           if rv st < 0 \<or> \<not> WIFEXITED (wait_out st) \<or> WEXITSTATUS (wait_out st) \<noteq> 0 then
             release_and_fail K lockfd ''error creating user''
           else do {
             pwd \<leftarrow> sys K (ProcC (Getpwnam username));
             case pw_out pwd of
               None \<Rightarrow> delete_and_fail K lockfd username ''internal server error''
             | Some pw \<Rightarrow> do {
                 m \<leftarrow> call K (PathC (Mkdir homeDir privileges));
                 if m \<noteq> 0 then delete_and_fail K lockfd username ''error creating home directory''
                 else do {
                   c \<leftarrow> call K (PathC (Chown homeDir (pw_uid pw) (pw_gid pw)));
                   if c \<noteq> 0 then delete_and_fail K lockfd username ''error setting home ownership''
                   else do {
                     _ \<leftarrow> releaseUserCreationLock K lockfd;
                     State_Monad.return (Returned (0, ''User created succesfully''))
                   }
                 }
               }
           }
         }
       }
     }
   }"

section \<open>Login\<close>

text \<open>The fields of the union: \<open>uid\<close>, \<open>gid\<close> and the 4096 bytes of \<open>home\<close>.\<close>

definition login_uid :: "helper_response \<Rightarrow> u32" where
  "login_uid r = un_le32 (res_data r)"

definition login_gid :: "helper_response \<Rightarrow> u32" where
  "login_gid r = un_le32 (drop 4 (res_data r))"

definition login_home :: "helper_response \<Rightarrow> bytes" where
  "login_home r = drop 8 (res_data r)"

definition set_login :: "passwd \<Rightarrow> helper_response \<Rightarrow> helper_response" where
  "set_login pw r = r\<lparr>res_data := le32 (pw_uid pw) @ le32 (pw_gid pw)
                        @ strncpy 4096 (pw_dir pw) (drop 8 (res_data r))\<rparr>"

definition handleHelperLogin ::
  "'w kernel \<Rightarrow> int \<Rightarrow> string option \<Rightarrow> helper_response \<Rightarrow> 'w handler" where
  "handleHelperLogin K server_fd username res = (case username of
       None \<Rightarrow> respond K server_fd (copy_msg ''Missing username'' (res\<lparr>res_status := - 1\<rparr>))
     | Some u \<Rightarrow> do {
         pw \<leftarrow> sys K (ProcC (Getpwnam u));
         case pw_out pw of
           None \<Rightarrow> respond K server_fd
                     (set_msg (''User '' @ u @ '' not found'') (res\<lparr>res_status := - 1\<rparr>))
         | Some w \<Rightarrow> respond K server_fd (set_login w (res\<lparr>res_status := 0\<rparr>))
       })"

section \<open>Directory listings\<close>

record FileEntry =
  fe_name :: bytes
  fe_perms :: string
  fe_size :: int

text \<open>\<open>perms\<close> of the listing, without its terminator.\<close>

definition mode_bit :: "u32 \<Rightarrow> u32 \<Rightarrow> char \<Rightarrow> char" where
  "mode_bit m b c = (if and m b \<noteq> 0 then c else CHR ''-'')"

definition perm_string :: "u32 \<Rightarrow> string" where
  "perm_string m =
     [if S_ISDIR m then CHR ''d'' else if S_ISLNK m then CHR ''l'' else CHR ''-'',
      mode_bit m 0x100 CHR ''r'', mode_bit m 0x80 CHR ''w'', mode_bit m 0x40 CHR ''x'',
      mode_bit m 0x20 CHR ''r'', mode_bit m 0x10 CHR ''w'', mode_bit m 0x8 CHR ''x'',
      mode_bit m 0x4 CHR ''r'', mode_bit m 0x2 CHR ''w'', mode_bit m 0x1 CHR ''x'']"

definition make_entry :: "string \<Rightarrow> stat_buf \<Rightarrow> FileEntry" where
  "make_entry name st =
     \<lparr>fe_name = strncpy 55 name (replicate 56 NUL), fe_perms = perm_string (st_mode st),
      fe_size = st_size st\<rparr>"

definition le64 :: "int \<Rightarrow> bytes" where
  "le64 i = le32 (word_of_int i) @ le32 (word_of_int (i div 2 ^ 32))"

definition enc_entry :: "FileEntry \<Rightarrow> bytes" where
  "enc_entry e = fe_name e @ fe_perms e @ NUL # replicate 5 NUL @ le64 (fe_size e)"

text \<open>\<open>entries\<close> has room for 1024; the source does not check.\<close>

fun ls_loop :: "nat \<Rightarrow> 'w kernel \<Rightarrow> int \<Rightarrow> string \<Rightarrow> FileEntry list \<Rightarrow> ('w, FileEntry list outcome) sysprog" where
  "ls_loop 0 K dir path entries = State_Monad.return Running"
| "ls_loop (Suc fuel) K dir path entries = do {
     r \<leftarrow> sys K (FdC (Readdir dir));
     case ent_out r of
       None \<Rightarrow> State_Monad.return (Returned entries)
     | Some d \<Rightarrow>
         if d = ''.'' \<or> d = ''..'' then ls_loop fuel K dir path entries
         else do {
           st \<leftarrow> sys K (PathC (Stat (take 4095 (path @ ''/'' @ d))));
           if rv st \<noteq> 0 then ls_loop fuel K dir path entries
           else if 1024 \<le> length entries then State_Monad.return Undefined
           else ls_loop fuel K dir path (entries @ [make_entry d (stat_out st)])
         }
   }"

definition set_count :: "nat \<Rightarrow> helper_response \<Rightarrow> helper_response" where
  "set_count n r = r\<lparr>res_data := le32 (of_nat n) @ drop 4 (res_data r),
                     res_payload_len := of_nat (n * 80)\<rparr>"

definition ls_out :: "'w kernel \<Rightarrow> int \<Rightarrow> int \<Rightarrow> FileEntry list \<Rightarrow> helper_response \<Rightarrow> 'w handler" where
  "ls_out K server_fd dir entries res0 = do {
     _ \<leftarrow> (if 0 \<le> dir then call K (FdC (Closedir dir)) else State_Monad.return 0);
     r \<leftarrow> regainRoot K;
     if r = - 1 then State_Monad.return Exited
     else do {
       let res = set_count (length entries) res0;
       _ \<leftarrow> writeAll K server_fd (enc_response res);
       _ \<leftarrow> (if res_status res = 0 \<and> 0 < res_payload_len res
             then writeAll K server_fd (concat (map enc_entry entries))
             else State_Monad.return 0);
       State_Monad.return (Returned res)
     }
   }"

definition handleHelperLs ::
  "nat \<Rightarrow> 'w kernel \<Rightarrow> int \<Rightarrow> helper_request_header \<Rightarrow> string \<Rightarrow> string \<Rightarrow> helper_response \<Rightarrow> 'w handler" where
  "handleHelperLs fuel K server_fd hdr path rootDir res = do {
     s \<leftarrow> sandboxUserToRoot K (req_session hdr) rootDir;
     if s = - 1 then sandbox_failed K server_fd (copy_msg ''Internal server error'' res)
     else do {
       dir \<leftarrow> call K (PathC (Opendir path));
       if dir < 0 then do {
         e \<leftarrow> get_errno;
         ls_out K server_fd dir [] (set_msg (''ls failed: '' @ strerror e) (res\<lparr>res_status := - 1\<rparr>))
       }
       else do {
         es \<leftarrow> ls_loop fuel K dir path [];
         case es of
           Returned entries \<Rightarrow>
             ls_out K server_fd dir entries (copy_msg ''Success'' (res\<lparr>res_status := 0\<rparr>))
         | Exited \<Rightarrow> State_Monad.return Exited
         | Running \<Rightarrow> State_Monad.return Running
         | Undefined \<Rightarrow> State_Monad.return Undefined
       }
     }
   }"

section \<open>Transfers between users\<close>

text \<open>
  \<open>while ((n_read = read(src_fd, ...)) > 0) if (write(dest_fd, buf, n_read) != n_read) ...\<close>:
  \<open>None\<close> is out of fuel, \<open>Some False\<close> a short write.
\<close>

fun transfer_loop :: "nat \<Rightarrow> 'w kernel \<Rightarrow> int \<Rightarrow> int \<Rightarrow> ('w, bool option) sysprog" where
  "transfer_loop 0 K src_fd dest_fd = State_Monad.return None"
| "transfer_loop (Suc fuel) K src_fd dest_fd = do {
     r \<leftarrow> sys K (FdC (Read src_fd 8192));
     if rv r \<le> 0 then State_Monad.return (Some True)
     else do {
       w \<leftarrow> call K (FdC (Write dest_fd (take (nat (rv r)) (out r))));
       if w \<noteq> rv r then State_Monad.return (Some False)
       else transfer_loop fuel K src_fd dest_fd
     }
   }"

definition transfer_out :: "'w kernel \<Rightarrow> int \<Rightarrow> int \<Rightarrow> int \<Rightarrow> helper_response \<Rightarrow> 'w handler" where
  "transfer_out K server_fd src_fd dest_fd res = do {
     _ \<leftarrow> (if 0 \<le> src_fd then call K (FdC (Close src_fd)) else State_Monad.return 0);
     _ \<leftarrow> (if 0 \<le> dest_fd then call K (FdC (Close dest_fd)) else State_Monad.return 0);
     respond K server_fd res
   }"

definition transfer_src :: "string \<Rightarrow> string \<Rightarrow> string \<Rightarrow> string" where
  "transfer_src root sender filename = take 511 (root @ ''/'' @ sender @ ''/'' @ filename)"

definition transfer_dest :: "string \<Rightarrow> string \<Rightarrow> string \<Rightarrow> string \<Rightarrow> string" where
  "transfer_dest root recv targetPath filename =
     take 511 (root @ ''/'' @ recv @ ''/'' @ targetPath @ ''/'' @ filename)"

definition HandleHelperTransfer ::
  "nat \<Rightarrow> 'w kernel \<Rightarrow> int \<Rightarrow> string \<Rightarrow> string \<Rightarrow> string \<Rightarrow> string \<Rightarrow> string \<Rightarrow> helper_response \<Rightarrow> 'w handler" where
  "HandleHelperTransfer fuel K server_fd root sender filename recv targetPath res =
     (if strstr targetPath ''..'' \<or> strstr filename ''..'' then
        transfer_out K server_fd (- 1) (- 1) (set_msg ''Security Error: Illegal path characters'' res)
      else do {
        src_fd \<leftarrow> call K (PathC (Open (transfer_src root sender filename) [O_RDONLY] 0));
        if src_fd < 0 then transfer_out K server_fd src_fd (- 1) (set_msg ''Source file not found'' res)
        else do {
          l \<leftarrow> lock_fd K src_fd LOCK_SHARED;
          if l < 0 then transfer_out K server_fd src_fd (- 1) (set_msg ''Could not lock source file'' res)
          else do {
            dest_fd \<leftarrow> call K (PathC (Open (transfer_dest root recv targetPath filename)
                                          [O_WRONLY, O_CREAT, O_TRUNC] 0x1A4));
            if dest_fd < 0 then transfer_out K server_fd src_fd dest_fd
                (set_msg ''Destination path invalid or permission denied'' res)
            else do {
              pw \<leftarrow> sys K (ProcC (Getpwnam recv));
              case pw_out pw of
                None \<Rightarrow> transfer_out K server_fd src_fd dest_fd
                  (set_msg (''Recipient user '' @ [CHR 0x27] @ recv @ [CHR 0x27] @ '' does not exist on system'')
                    (res\<lparr>res_status := - 1\<rparr>))
              | Some u \<Rightarrow> do {
                  _ \<leftarrow> call K (FdC (Fchown dest_fd (pw_uid u) (pw_gid u)));
                  l' \<leftarrow> lock_fd K dest_fd LOCK_EXCLUSIVE;
                  if l' < 0 then transfer_out K server_fd src_fd dest_fd
                      (set_msg ''Could not lock destination file'' res)
                  else do {
                    c \<leftarrow> transfer_loop fuel K src_fd dest_fd;
                    case c of
                      None \<Rightarrow> State_Monad.return Running
                    | Some False \<Rightarrow> transfer_out K server_fd src_fd dest_fd
                        (set_msg ''Write error during transfer'' res)
                    | Some True \<Rightarrow> transfer_out K server_fd src_fd dest_fd
                        (set_msg ''Transfer successful'' (res\<lparr>res_status := 0\<rparr>))
                  }
                }
            }
          }
        }
      })"

end
