(* ===== verification/Tokenizer.thy ===== *)
theory Tokenizer
  imports Protocol
begin

text \<open>
  \<open>tokenizeCommand\<close> (\<open>src/src/server/handler/handlers.c\<close>): a request is cut into
  words in place.  A token is the offset of its first byte in the buffer, so that
  the pointer arithmetic of \<open>handleWrite\<close>, which finds the file data behind the last
  token, can be written down as it is in the code.
\<close>

section \<open>Definitions\<close>

text \<open>
  \<open>while (token != NULL && argc < MAXARGS)\<close>: \<open>n\<close> is what is left of \<open>MAXARGS\<close>.  The
  call of \<open>strtok\<close> comes before the test of the bound, so the buffer is cut once
  more than there are tokens.
\<close>

fun tokenize_loop :: "nat \<Rightarrow> bytes \<Rightarrow> nat \<Rightarrow> nat list \<times> bytes" where
  "tokenize_loop 0 buf p = (case strtok buf p of None \<Rightarrow> ([], buf) | Some (q, buf', p') \<Rightarrow> ([], buf'))"
| "tokenize_loop (Suc n) buf p = (case strtok buf p of None \<Rightarrow> ([], buf)
     | Some (q, buf', p') \<Rightarrow> (let (ts, b) = tokenize_loop n buf' p' in (q # ts, b)))"

definition tokenizeCommand :: "bytes \<Rightarrow> nat list \<times> bytes" where
  "tokenizeCommand input = tokenize_loop MAXARGS input 0"

definition argv_strings :: "nat list \<times> bytes \<Rightarrow> string list" where
  "argv_strings tb = map (\<lambda>q. c_str (drop q (snd tb))) (fst tb)"

section \<open>One call of \<open>strtok\<close>\<close>

lemma takeWhile_spaces: "c \<noteq> SPC \<Longrightarrow> takeWhile (\<lambda>c. c = SPC) (replicate k SPC @ c # r) = replicate k SPC"
  by (induction k) auto

lemma takeWhile_word:
  "\<forall>c\<in>set w. c \<noteq> SPC \<and> c \<noteq> NUL \<Longrightarrow> c = SPC \<or> c = NUL \<Longrightarrow>
   takeWhile (\<lambda>c. c \<noteq> SPC \<and> c \<noteq> NUL) (w @ c # r) = w"
  by (induction w) auto

lemma strtok_none: "strtok (pre @ replicate k SPC @ NUL # t) (length pre) = None"
  by (simp add: strtok_def Let_def takeWhile_spaces)

lemma strtok_word:
  assumes "w \<noteq> []" "\<forall>c\<in>set w. c \<noteq> SPC \<and> c \<noteq> NUL" "c = SPC \<or> c = NUL"
  shows "strtok (pre @ replicate k SPC @ w @ c # t) (length pre) =
    Some (length pre + k, pre @ replicate k SPC @ w @ NUL # t,
      length pre + k + length w + (if c = SPC then 1 else 0))"
proof -
  obtain a v where w: "w = a # v" "a \<noteq> SPC" using assms(1,2) by (cases w) auto
  then have s: "takeWhile (\<lambda>c. c = SPC) (replicate k SPC @ w @ c # t) = replicate k SPC"
    by (simp add: takeWhile_spaces)
  have n: "takeWhile (\<lambda>c. c \<noteq> SPC \<and> c \<noteq> NUL) (w @ c # t) = w"
    by (rule takeWhile_word [OF assms(2,3)])
  define x where "x = pre @ replicate k SPC @ w"
  have x: "pre @ replicate k SPC @ w @ c # t = x @ c # t" "length pre + k + length w = length x"
      "pre @ replicate k SPC @ w @ NUL # t = x @ NUL # t"
    by (simp_all add: x_def)
  have d: "drop (length pre + k) (x @ c # t) = w @ c # t"
    by (simp add: x_def)
  have lx: "length x < length (x @ c # t)" "(x @ c # t) ! length x = c"
      "(x @ c # t)[length x := NUL] = x @ NUL # t"
    by (simp_all add: list_update_append)
  have e: "length pre + length (takeWhile (\<lambda>c. c = SPC) (drop (length pre) (x @ c # t))) = length pre + k"
    using s by (simp add: x_def)
  show ?thesis
    unfolding x(1,3) strtok_def Let_def e d n x(2) lx(2,3)
    using assms(1,3) by auto
qed

section \<open>The loop cuts the words\<close>

text \<open>The next word of a string, or none.\<close>

lemma next_word:
  obtains (none) k where "s = replicate k SPC"
  | (last) k w where "s = replicate k SPC @ w" "w \<noteq> []" "SPC \<notin> set w"
  | (more) k w r where "s = replicate k SPC @ w @ SPC # r" "w \<noteq> []" "SPC \<notin> set w"
proof -
  define k where "k = length (takeWhile (\<lambda>c. c = SPC) s)"
  define u where "u = dropWhile (\<lambda>c. c = SPC) s"
  have "takeWhile (\<lambda>c. c = SPC) s = replicate k SPC"
    unfolding k_def by (rule replicate_eqI) (auto dest: set_takeWhileD)
  then have s: "s = replicate k SPC @ u" unfolding u_def by (metis takeWhile_dropWhile_id)
  have hd: "u = [] \<or> hd u \<noteq> SPC" unfolding u_def using hd_dropWhile by blast
  define w where "w = takeWhile (\<lambda>c. c \<noteq> SPC) u"
  have w: "SPC \<notin> set w" by (auto simp: w_def dest: set_takeWhileD)
  show thesis
  proof (cases u)
    case Nil
    then show thesis using s none by simp
  next
    case (Cons a v)
    then have ne: "w \<noteq> []" using hd by (simp add: w_def)
    show thesis
    proof (cases "dropWhile (\<lambda>c. c \<noteq> SPC) u")
      case Nil
      then have "u = w" unfolding w_def by (metis append_Nil2 takeWhile_dropWhile_id)
      then show thesis using last s ne w by blast
    next
      case (Cons b r)
      then have "b = SPC" by (metis (mono_tags, lifting) hd_dropWhile list.distinct(1) list.sel(1))
      then have "u = w @ SPC # r" unfolding w_def using Cons by (metis takeWhile_dropWhile_id)
      then show thesis using more s ne w by blast
    qed
  qed
qed

lemma words_of_replicate [simp]: "words_of (replicate k SPC @ s) = words_of s" "words_of (replicate k SPC) = []"
  by (induction k) auto

lemma tokenize_loop_words:
  assumes "NUL \<notin> set s"
  shows "\<exists>ts buf'. tokenize_loop n (pre @ s @ NUL # t) (length pre) = (ts, buf') \<and>
     length buf' = length pre + length s + Suc (length t) \<and> take (length pre) buf' = pre \<and>
     map (\<lambda>q. c_str (drop q buf')) ts = take n (words_of s) \<and> (\<forall>q\<in>set ts. length pre \<le> q)"
  using assms
proof (induction n arbitrary: pre s)
  case 0
  show ?case
  proof (cases rule: next_word [of s])
    case (none k)
    then show ?thesis by (simp add: strtok_none)
  next
    case (last k w)
    then have "\<forall>c\<in>set w. c \<noteq> SPC \<and> c \<noteq> NUL" using 0 by auto
    then show ?thesis using last strtok_word [of w NUL pre k t] by simp
  next
    case (more k w r)
    then have "\<forall>c\<in>set w. c \<noteq> SPC \<and> c \<noteq> NUL" using 0 by auto
    then show ?thesis using more strtok_word [of w SPC pre k "r @ NUL # t"] by simp
  qed
next
  case (Suc n)
  show ?case
  proof (cases rule: next_word [of s])
    case (none k)
    then show ?thesis by (simp add: strtok_none)
  next
    case (last k w)
    then have "\<forall>c\<in>set w. c \<noteq> SPC \<and> c \<noteq> NUL" using Suc.prems by auto
    then have tok: "strtok (pre @ s @ NUL # t) (length pre) =
        Some (length pre + k, pre @ s @ NUL # t, length pre + length s)"
      using last strtok_word [of w NUL pre k t] by (simp add: add.assoc)
    have "strtok (pre @ s @ NUL # t) (length pre + length s) = None"
      using strtok_none [of "pre @ s" 0 t] by simp
    then have rest: "tokenize_loop n (pre @ s @ NUL # t) (length pre + length s) = ([], pre @ s @ NUL # t)"
      by (cases n) simp_all
    have res: "tokenize_loop (Suc n) (pre @ s @ NUL # t) (length pre) = ([length pre + k], pre @ s @ NUL # t)"
      by (simp add: tok rest)
    show ?thesis unfolding res using last Suc.prems
      by (simp add: words_of_word c_str_append)
  next
    case (more k w r)
    define pre' where "pre' = pre @ replicate k SPC @ w @ [NUL]"
    have "\<forall>c\<in>set w. c \<noteq> SPC \<and> c \<noteq> NUL" using Suc.prems more by auto
    then have tok: "strtok (pre @ s @ NUL # t) (length pre) =
        Some (length pre + k, pre' @ r @ NUL # t, length pre')"
      using more strtok_word [of w SPC pre k "r @ NUL # t"] by (simp add: pre'_def add.assoc)
    obtain ts buf' where IH: "tokenize_loop n (pre' @ r @ NUL # t) (length pre') = (ts, buf')"
        "length buf' = length pre' + length r + Suc (length t)" "take (length pre') buf' = pre'"
        "map (\<lambda>q. c_str (drop q buf')) ts = take n (words_of r)" "\<forall>q\<in>set ts. length pre' \<le> q"
      using Suc.IH [of r pre'] Suc.prems more by auto
    obtain z where z: "buf' = pre' @ z" using IH(3) by (metis append_take_drop_id)
    have first: "c_str (drop (length pre + k) buf') = w"
      using Suc.prems more by (simp add: z pre'_def c_str_append)
    show ?thesis
      using IH first more z unfolding tokenize_loop.simps tok by (auto simp: words_of_word pre'_def)
  qed
qed

lemma tokenizeCommand_words:
  assumes "NUL \<notin> set s"
  shows "argv_strings (tokenizeCommand (s @ NUL # t)) = take MAXARGS (words_of s)"
  using tokenize_loop_words [OF assms, of MAXARGS "[]" t]
  by (auto simp: tokenizeCommand_def argv_strings_def)

section \<open>The buffer\<close>

text \<open>One call stays in front of the first NUL and writes at most one, over a space.\<close>

lemma strtok_bounds:
  assumes "strtok buf p = Some (q, buf', p')" "p \<le> L" "L < length buf" "buf ! L = NUL"
  shows "p \<le> q" "q < p'" "p' \<le> L" "length buf' = length buf"
    "\<forall>i<length buf. buf' ! i = buf ! i \<or> i < L \<and> buf ! i = SPC \<and> buf' ! i = NUL"
proof -
  define k n where "k = length (takeWhile (\<lambda>c. c = SPC) (drop p buf))"
    and "n = length (takeWhile (\<lambda>c. c \<noteq> SPC \<and> c \<noteq> NUL) (drop (p + k) buf))"
  have stop: "length (takeWhile P (drop i buf)) \<le> L - i" if "i \<le> L" "\<not> P NUL" for P i
  proof (rule ccontr)
    assume "\<not> length (takeWhile P (drop i buf)) \<le> L - i"
    then have less: "L - i < length (takeWhile P (drop i buf))" by simp
    then have "P (takeWhile P (drop i buf) ! (L - i))" using set_takeWhileD nth_mem by fast
    then have "P (buf ! L)" using takeWhile_nth [OF less] that(1) assms(3) by simp
    then show False using that(2) assms(4) by simp
  qed
  have k: "p + k \<le> L" using stop [OF assms(2), of "\<lambda>c. c = SPC"] assms(2) by (simp add: k_def)
  have n: "p + k + n \<le> L" using stop [OF k, of "\<lambda>c. c \<noteq> SPC \<and> c \<noteq> NUL"] k by (simp add: n_def)
  have lt: "p + k + n < L" if "buf ! (p + k + n) = SPC" using n that assms(4) by (cases "p + k + n = L") auto
  show "p \<le> q" "q < p'" "p' \<le> L" "length buf' = length buf"
    "\<forall>i<length buf. buf' ! i = buf ! i \<or> i < L \<and> buf ! i = SPC \<and> buf' ! i = NUL"
    using assms(1) n lt assms(3) unfolding strtok_def Let_def k_def [symmetric] n_def [symmetric]
    by (auto split: if_splits simp: nth_list_update)
qed

lemma tokenize_loop_buffer:
  assumes "p \<le> L" "L < length buf" "buf ! L = NUL" "tokenize_loop n buf p = (ts, b)"
  shows "sorted_wrt (<) ts \<and> (\<forall>q\<in>set ts. p \<le> q \<and> q < L) \<and> length b = length buf \<and>
    (\<forall>i<length buf. b ! i = buf ! i \<or> i < L \<and> buf ! i = SPC \<and> b ! i = NUL)"
  using assms
proof (induction n arbitrary: buf p ts b)
  case 0
  then show ?case
    using strtok_bounds(4,5) [OF _ 0(1-3)] by (auto split: option.splits)
next
  case (Suc n)
  show ?case
  proof (cases "strtok buf p")
    case None
    then show ?thesis using Suc.prems(4) by simp
  next
    case (Some a)
    obtain q buf' p' where s: "strtok buf p = Some (q, buf', p')" using Some by (cases a) auto
    note bounds = strtok_bounds [OF s Suc.prems(1-3)]
    obtain ts' b' where r: "tokenize_loop n buf' p' = (ts', b')" by fastforce
    have L: "L < length buf'" "buf' ! L = NUL" using Suc.prems(2,3) bounds(4,5) by auto
    have "ts = q # ts'" "b = b'" using Suc.prems(4) s r by simp_all
    then show ?thesis
      using Suc.IH [OF bounds(3) L r] bounds by (fastforce simp: less_imp_le)
  qed
qed

text \<open>C33. The tokenizer works in place and equals the plain function on words.  For a line without NUL
  bytes and anything behind it, the tokens are the first words of the line, their number bounded by
  the table of arguments; they are offsets in ascending order inside the line; the buffer keeps its
  length, only spaces of the line have been overwritten, with terminators, and what follows the
  line is untouched.\<close>

theorem tokenizer_splits_in_place:
  assumes "NUL \<notin> set line" "tokenizeCommand (line @ NUL # t) = (ts, b)"
  shows "map (\<lambda>q. c_str (drop q b)) ts = take MAXARGS (words_of line) \<and>
    sorted_wrt (<) ts \<and> (\<forall>q\<in>set ts. q < length line) \<and> length b = length line + 1 + length t \<and>
    (\<forall>i<length line. b ! i = line ! i \<or> line ! i = SPC \<and> b ! i = NUL) \<and> drop (length line) b = NUL # t"
proof -
  let ?buf = "line @ NUL # t"
  have L: "length line < length ?buf" "?buf ! length line = NUL" by simp_all
  note inv = tokenize_loop_buffer [OF le0 L assms(2) [unfolded tokenizeCommand_def]]
  have "drop (length line) b = NUL # t"
  proof (rule nth_equalityI)
    show "length (drop (length line) b) = length (NUL # t)" using inv by simp
    fix i assume "i < length (drop (length line) b)"
    then have "length line + i < length ?buf" using inv by auto
    then have "b ! (length line + i) = ?buf ! (length line + i)" using inv by (metis not_add_less1)
    then show "drop (length line) b ! i = (NUL # t) ! i" using inv by (simp add: nth_append)
  qed
  moreover have "b ! i = line ! i \<or> line ! i = SPC \<and> b ! i = NUL" if "i < length line" for i
  proof -
    have "i < length ?buf" "?buf ! i = line ! i" using that by (simp_all add: nth_append)
    then show ?thesis using inv by metis
  qed
  moreover have "map (\<lambda>q. c_str (drop q b)) ts = take MAXARGS (words_of line)"
    using tokenizeCommand_words [OF assms(1), of t] assms(2) by (simp add: argv_strings_def)
  ultimately show ?thesis using inv by simp
qed

theorem tokenizer_splits_in_place_witness:
  "tokenizeCommand (''cd  d'' @ NUL # ''x'') = ([0, 4], ''cd'' @ NUL # SPC # ''d'' @ NUL # ''x'') \<and>
   drop 5 (snd (tokenizeCommand (''cd  d'' @ NUL # ''x''))) = NUL # ''x''"
proof -
  have t: "tokenizeCommand (''cd  d'' @ NUL # ''x'') = ([0, 4], ''cd'' @ NUL # SPC # ''d'' @ NUL # ''x'')"
    by (simp add: tokenizeCommand_def strtok_def numeral_eq_Suc)
  show ?thesis using tokenizer_splits_in_place [OF _ t] t by simp
qed

end
