(* ===== verification/Client.thy ===== *)
theory Client
  imports Helper_Main Tokenizer
begin

text \<open>
  The client (\<open>src/src/client/\<close>): the thread that reads commands and sends requests,
  the thread that reads answers, and the background transfers.  The flags the
  threads share are reached through \<open>C\<close>; what other threads do between two accesses
  is up to the kernel, which may change them at every call.  A critical section on the
  flags is one access \<open>on_flags\<close>, one on the terminal is one \<open>Puts\<close>.
\<close>

section \<open>Shared flags\<close>

record client_flags =
  should_exit :: bool
  waiting_for_response :: bool
  bg_ops_count :: int
  is_writing_content :: bool

record 'w flags =
  fl_get :: "'w \<Rightarrow> client_flags"
  fl_put :: "client_flags \<Rightarrow> 'w \<Rightarrow> 'w"

definition on_flags :: "'w flags \<Rightarrow> (client_flags \<Rightarrow> 'a \<times> client_flags) \<Rightarrow> ('w, 'a) sysprog" where
  "on_flags C f = State (\<lambda>p. let (a, s) = f (fl_get C (world p)) in (a, p\<lparr>world := fl_put C s (world p)\<rparr>))"

definition initial_flags :: client_flags where
  "initial_flags = \<lparr>should_exit = False, waiting_for_response = False, bg_ops_count = 0,
     is_writing_content = False\<rparr>"

section \<open>The terminal\<close>

abbreviation (input) newline :: string where "newline \<equiv> [CHR 0x0A]"

definition say :: "'w kernel \<Rightarrow> string \<Rightarrow> ('w, unit) sysprog" where
  "say K s = do { _ \<leftarrow> call K (StdioC (Puts s)); State_Monad.return () }"

definition complain :: "'w kernel \<Rightarrow> string \<Rightarrow> ('w, unit) sysprog" where
  "complain K s = do { _ \<leftarrow> call K (StdioC (Eputs s)); State_Monad.return () }"

definition perror :: "'w kernel \<Rightarrow> string \<Rightarrow> ('w, unit) sysprog" where
  "perror K s = do { e \<leftarrow> get_errno; complain K (s @ '': '' @ strerror e @ newline) }"

text \<open>The control sequence that clears the line the cursor is in: \<open>"\r\033[K"\<close>.\<close>

definition clear_line :: string where
  "clear_line = [CHR 0x0D, CHR 0x1B] @ ''[K''"

definition prompt :: string where
  "prompt = ''[Client]> Enter command: ''"

section \<open>Connecting\<close>

definition connectToServer :: "'w kernel \<Rightarrow> string \<Rightarrow> int \<Rightarrow> ('w, int) sysprog" where
  "connectToServer K ip port = do {
     client_fd \<leftarrow> call K (NetC Socket_inet);
     if client_fd < 0 then do {
       _ \<leftarrow> perror K ''socker'';
       _ \<leftarrow> say K (''Socket creation error '' @ newline);
       State_Monad.return (- 1)
     }
     else do {
       r \<leftarrow> call K (NetC (Inet_pton ip));
       if r \<le> 0 then do {
         _ \<leftarrow> complain K (''Invalid address: '' @ ip @ newline);
         State_Monad.return (- 1)
       }
       else do {
         c \<leftarrow> call K (NetC (Connect_inet client_fd ip (port mod 65536)));
         if c < 0 then do { _ \<leftarrow> perror K ''connect''; State_Monad.return (- 1) }
         else State_Monad.return client_fd
       }
     }
   }"

section \<open>Requests\<close>

text \<open>\<open>strcspn(command, "\n")\<close> cuts the line.\<close>

definition strip_newline :: "string \<Rightarrow> string" where
  "strip_newline line = takeWhile (\<lambda>c. c \<noteq> CHR 0x0A) (c_str line)"

definition background_of :: "string \<Rightarrow> bool" where
  "background_of command = strstr command '' -b''"

definition is_write :: "string \<Rightarrow> bool" where
  "is_write command = has_prefix ''write '' command"

text \<open>The header and the bytes sent for a command, \<open>data\<close> being the recorded content.\<close>

definition build_request :: "string \<Rightarrow> bytes \<Rightarrow> msg_header \<times> bytes" where
  "build_request command data =
     (let payload = (if is_write command then command @ NUL # data else command @ [NUL])
      in (make_header (if is_write command then WRITECMD else CMDREQ) 0 (length payload)
            (if background_of command then 1 else 0), payload))"

text \<open>\<open>exit\<close>: refused while background operations are pending.\<close>

definition exit_allowed :: "client_flags \<Rightarrow> bool" where
  "exit_allowed f \<longleftrightarrow> \<not> 0 < bg_ops_count f"

definition exit_refusal :: "client_flags \<Rightarrow> string" where
  "exit_refusal f = ''[Client]> Cannot exit: '' @ show_int (bg_ops_count f)
     @ '' background operation(s) pending'' @ newline"

text \<open>A command is about to be sent: it counts as pending, or its answer is waited for.\<close>

definition mark_sent :: "'w kernel \<Rightarrow> 'w flags \<Rightarrow> bool \<Rightarrow> ('w, unit) sysprog" where
  "mark_sent K C bg =
     (if bg then do {
        _ \<leftarrow> on_flags C (\<lambda>f. ((), f\<lparr>bg_ops_count := bg_ops_count f + 1\<rparr>));
        _ \<leftarrow> say K (''[Client]> Command sent to background...'' @ newline);
        on_flags C (\<lambda>f. ((), f\<lparr>waiting_for_response := False\<rparr>))
      }
      else on_flags C (\<lambda>f. ((), f\<lparr>waiting_for_response := True\<rparr>)))"

text \<open>A transfer has ended.\<close>

definition bg_done :: "client_flags \<Rightarrow> client_flags" where
  "bg_done f = (if 0 < bg_ops_count f then f\<lparr>bg_ops_count := bg_ops_count f - 1\<rparr> else f)"

text \<open>\<open>read(STDIN_FILENO, temp, 1024)\<close> up to its end.\<close>

fun record_content :: "nat \<Rightarrow> 'w kernel \<Rightarrow> bytes \<Rightarrow> ('w, bytes option) sysprog" where
  "record_content 0 K buf = State_Monad.return None"
| "record_content (Suc fuel) K buf = do {
     n \<leftarrow> sys K (FdC (Read 0 1024));
     if rv n \<le> 0 then State_Monad.return (Some buf)
     else record_content fuel K (buf @ take (nat (rv n)) (out n))
   }"

text \<open>
  One round of \<open>writeThreadFunc\<close> from the prompt on: \<open>Returned True\<close> goes on,
  \<open>Returned False\<close> ends the thread.
\<close>

definition write_round :: "nat \<Rightarrow> 'w kernel \<Rightarrow> 'w flags \<Rightarrow> int \<Rightarrow> ('w, bool outcome) sysprog" where
  "write_round fuel K C server_socket = do {
     _ \<leftarrow> say K prompt;
     l \<leftarrow> sys K (NetC (Fgets_stdin 256));
     case ent_out l of
       None \<Rightarrow> do {
         _ \<leftarrow> on_flags C (\<lambda>f. ((), f\<lparr>should_exit := True\<rparr>));
         State_Monad.return (Returned False)
       }
     | Some line \<Rightarrow>
         (let command = strip_newline line in
          if command = [] then State_Monad.return (Returned True)
          else if command = ''exit'' then do {
            f \<leftarrow> on_flags C (\<lambda>f. (f, if exit_allowed f then f\<lparr>should_exit := True\<rparr> else f));
            if exit_allowed f then State_Monad.return (Returned False)
            else do {
              _ \<leftarrow> say K (exit_refusal f);
              State_Monad.return (Returned True)
            }
          }
          else do {
            _ \<leftarrow> (if is_write command then do {
                    _ \<leftarrow> say K (''[Client]> Enter content (Ctrl+D to finish):'' @ newline);
                    on_flags C (\<lambda>f. ((), f\<lparr>is_writing_content := True\<rparr>))
                  } else State_Monad.return ());
            d \<leftarrow> (if is_write command then record_content fuel K [] else State_Monad.return (Some []));
            case d of
              None \<Rightarrow> State_Monad.return Running
            | Some data \<Rightarrow> do {
                _ \<leftarrow> (if is_write command then on_flags C (\<lambda>f. ((), f\<lparr>is_writing_content := False\<rparr>))
                      else State_Monad.return ());
                _ \<leftarrow> mark_sent K C (background_of command);
                let (hdr, payload) = build_request command data;
                _ \<leftarrow> writeAll K server_socket (enc_msg_header hdr);
                _ \<leftarrow> writeAll K server_socket payload;
                State_Monad.return (Returned True)
              }
          })
   }"

text \<open>
  \<open>while (!should_exit)\<close> with the wait for the previous answer in front of a round:
  a turn that finds the answer still missing is a turn of waiting, and \<open>pthread_cond_wait\<close> is a
  \<open>Sleep\<close> of no seconds: what matters of it here is that other threads may change the flags.
\<close>

fun writeThreadFunc :: "nat \<Rightarrow> 'w kernel \<Rightarrow> 'w flags \<Rightarrow> int \<Rightarrow> ('w, unit outcome) sysprog" where
  "writeThreadFunc 0 K C server_socket = State_Monad.return Running"
| "writeThreadFunc (Suc fuel) K C server_socket = do {
     f \<leftarrow> on_flags C (\<lambda>f. (f, f));
     if should_exit f then State_Monad.return (Returned ())
     else if waiting_for_response f then do {
       _ \<leftarrow> call K (ProcC (Sleep 0));
       writeThreadFunc fuel K C server_socket
     }
     else do {
       r \<leftarrow> write_round fuel K C server_socket;
       case r of
         Returned True \<Rightarrow> writeThreadFunc fuel K C server_socket
       | Returned False \<Rightarrow> State_Monad.return (Returned ())
       | Exited \<Rightarrow> State_Monad.return Exited
       | Running \<Rightarrow> State_Monad.return Running
       | Undefined \<Rightarrow> State_Monad.return Undefined
     }
   }"

section \<open>Answers\<close>

text \<open>
  \<open>sscanf(buf, "DATA_PORT %d %s", ...)\<close> with both conversions made; the blanks of the
  format match any white space, also none.
\<close>

definition skip_space :: "string \<Rightarrow> string" where
  "skip_space s = dropWhile isspace s"

definition scan_int :: "string \<Rightarrow> (int \<times> string) option" where
  "scan_int s =
     (let s1 = skip_space s;
          signed = (s1 \<noteq> [] \<and> (hd s1 = CHR ''-'' \<or> hd s1 = CHR ''+''));
          s2 = (if signed then tl s1 else s1);
          ds = takeWhile (isdigit_base 10) s2
      in if ds = [] then None
         else Some (atoi ((if signed then [hd s1] else []) @ ds), drop (length ds) s2))"

definition parse_data_port :: "string \<Rightarrow> (int \<times> string) option" where
  "parse_data_port s =
     (if \<not> has_prefix ''DATA_PORT'' s then None
      else case scan_int (drop 9 s) of
        None \<Rightarrow> None
      | Some (port, r) \<Rightarrow>
          (let path = takeWhile (\<lambda>c. \<not> isspace c) (skip_space r)
           in if path = [] then None else Some (port, path)))"

text \<open>The lines of a listing: \<open>%-11s %-20s %10ld bytes\<close>.\<close>

definition un_le64 :: "bytes \<Rightarrow> int" where
  "un_le64 bs = uint (un_le32 bs) + 2 ^ 32 * sint (un_le32 (drop 4 bs))"

definition dec_entry :: "bytes \<Rightarrow> FileEntry" where
  "dec_entry bs = \<lparr>fe_name = take 56 bs, fe_perms = take 10 (drop 56 bs), fe_size = un_le64 (drop 72 bs)\<rparr>"

fun dec_entries :: "nat \<Rightarrow> bytes \<Rightarrow> FileEntry list" where
  "dec_entries 0 bs = []"
| "dec_entries (Suc n) bs = dec_entry (take 80 bs) # dec_entries n (drop 80 bs)"

definition pad_right :: "nat \<Rightarrow> string \<Rightarrow> string" where
  "pad_right n s = s @ replicate (n - length s) SPC"

definition pad_left :: "nat \<Rightarrow> string \<Rightarrow> string" where
  "pad_left n s = replicate (n - length s) SPC @ s"

definition entry_line :: "FileEntry \<Rightarrow> string" where
  "entry_line e = pad_right 11 (fe_perms e) @ SPC # pad_right 20 (c_str (fe_name e)) @ SPC
     # pad_left 10 (show_int (fe_size e)) @ '' bytes'' @ [CHR 0x0A]"

text \<open>
  What is printed for an answer once the line is cleared, \<open>buf\<close> being its payload and a
  terminator.
\<close>

definition shown :: "bool \<Rightarrow> msg_header \<Rightarrow> bytes \<Rightarrow> string" where
  "shown writing hdr buf =
     (if hdr_type hdr = msg_type_code TEXT then
        (if is_background hdr \<noteq> 0 then
           ''[Background]> '' @ c_str buf @ CHR 0x0A #
           (if writing then ''[Client]> (Still recording file content... hit Ctrl+D to finish)'' @ [CHR 0x0A]
             else prompt)
         else ''[Server]> '' @ c_str buf @ [CHR 0x0A])
      else if hdr_type hdr = msg_type_code LSRES then
        concat (map entry_line (dec_entries (unat (payloadLength hdr) div 80) buf))
      else if hdr_type hdr = msg_type_code READCMD then
        (if 0 < payloadLength hdr then
           ''[Server]> Content:'' @ CHR 0x0A # take (unat (payloadLength hdr)) buf @ [CHR 0x0A]
         else ''[Server]> File is empty'' @ [CHR 0x0A])
      else if hdr_type hdr = msg_type_code DOWNLOAD_RES \<and> parse_data_port (c_str buf) = None then
        ''[Error]> Failed to parse download response: '' @ c_str buf @ [CHR 0x0A]
      else if hdr_type hdr = msg_type_code UPLOAD_RES \<and> parse_data_port (c_str buf) = None then
        ''[Error]> Failed to parse upload response'' @ [CHR 0x0A]
      else [])"

text \<open>The transfer an answer starts: upload or download, port, path, \<open>is_bg\<close>.\<close>

definition is_data_type :: "u32 \<Rightarrow> bool" where
  "is_data_type t \<longleftrightarrow> t = msg_type_code DOWNLOAD_RES \<or> t = msg_type_code UPLOAD_RES"

definition transfer_of :: "msg_header \<Rightarrow> bytes \<Rightarrow> stdio_call option" where
  "transfer_of hdr buf =
     (if is_data_type (hdr_type hdr) then
        map_option (\<lambda>(port, path).
            Thread_create (hdr_type hdr = msg_type_code UPLOAD_RES) port path (is_background hdr))
          (parse_data_port (c_str buf))
      else None)"

text \<open>
  The conversion \<open>%s\<close> copies a word of any length into \<open>dest_path[256]\<close>: one of 256 characters
  or more overruns it.
\<close>

definition path_overruns :: "msg_header \<Rightarrow> bytes \<Rightarrow> bool" where
  "path_overruns hdr buf \<longleftrightarrow> is_data_type (hdr_type hdr) \<and>
     (case parse_data_port (c_str buf) of None \<Rightarrow> False | Some (port, path) \<Rightarrow> 256 \<le> length path)"

text \<open>An answer in the foreground that does not start a transfer wakes the writer.\<close>

definition answer_flags :: "msg_header \<Rightarrow> client_flags \<Rightarrow> client_flags" where
  "answer_flags hdr f =
     (if is_background hdr = 0 \<and> \<not> is_data_type (hdr_type hdr) then f\<lparr>waiting_for_response := False\<rparr> else f)"

definition read_round :: "'w kernel \<Rightarrow> 'w flags \<Rightarrow> int \<Rightarrow> ('w, bool outcome) sysprog" where
  "read_round K C server_socket = do {
     (n, got) \<leftarrow> readAll K server_socket 16;
     if n \<le> 0 then do {
       _ \<leftarrow> on_flags C (\<lambda>f. ((), f\<lparr>should_exit := True\<rparr>));
       State_Monad.return (Returned False)
     }
     else do {
       let hdr = dec_msg_header got;
       if payloadLength hdr + 1 = 0 then State_Monad.return Undefined
       else do {
         (m, body) \<leftarrow> (if payloadLength hdr = 0 then State_Monad.return (1, [])
                       else readAll K server_socket (unat (payloadLength hdr)));
         if m \<le> 0 then do {
           _ \<leftarrow> on_flags C (\<lambda>f. ((), f\<lparr>should_exit := True\<rparr>));
           State_Monad.return (Returned False)
         }
         else do {
           f \<leftarrow> on_flags C (\<lambda>f. (f, f));
           _ \<leftarrow> say K (clear_line @ shown (is_writing_content f) hdr (body @ [NUL]));
           if path_overruns hdr (body @ [NUL]) then State_Monad.return Undefined
           else do {
             _ \<leftarrow> (case transfer_of hdr (body @ [NUL]) of
                    None \<Rightarrow> State_Monad.return 0
                  | Some t \<Rightarrow> call K (StdioC t));
             _ \<leftarrow> on_flags C (\<lambda>f. ((), answer_flags hdr f));
             State_Monad.return (Returned True)
           }
         }
       }
     }
   }"

fun readThreadFunc :: "nat \<Rightarrow> 'w kernel \<Rightarrow> 'w flags \<Rightarrow> int \<Rightarrow> ('w, unit outcome) sysprog" where
  "readThreadFunc 0 K C server_socket = State_Monad.return Running"
| "readThreadFunc (Suc fuel) K C server_socket = do {
     f \<leftarrow> on_flags C (\<lambda>f. (f, f));
     if should_exit f then State_Monad.return (Returned ())
     else do {
       r \<leftarrow> read_round K C server_socket;
       case r of
         Returned True \<Rightarrow> readThreadFunc fuel K C server_socket
       | Returned False \<Rightarrow> State_Monad.return (Returned ())
       | Exited \<Rightarrow> State_Monad.return Exited
       | Running \<Rightarrow> State_Monad.return Running
       | Undefined \<Rightarrow> State_Monad.return Undefined
     }
   }"

section \<open>Background transfers\<close>

text \<open>A failure is reported on standard error, with a new prompt when in the background.\<close>

definition transfer_error :: "'w kernel \<Rightarrow> bool \<Rightarrow> string \<Rightarrow> ('w, unit) sysprog" where
  "transfer_error K is_bg text =
     complain K (if is_bg then clear_line @ ''[Error]> '' @ text @ newline @ prompt
                 else ''[Error]> '' @ text @ newline)"

text \<open>The loops over \<open>buf[16384]\<close>; \<open>False\<close> is a loop that has used up its fuel.\<close>

fun upload_loop :: "nat \<Rightarrow> 'w kernel \<Rightarrow> bool \<Rightarrow> int \<Rightarrow> int \<Rightarrow> ('w, bool) sysprog" where
  "upload_loop 0 K is_bg fp data_socket = State_Monad.return False"
| "upload_loop (Suc fuel) K is_bg fp data_socket = do {
     n \<leftarrow> sys K (StdioC (Fread fp 16384));
     if rv n \<le> 0 then State_Monad.return True
     else do {
       w \<leftarrow> writeAll K data_socket (take (nat (rv n)) (out n));
       if w < 0 then do {
         _ \<leftarrow> transfer_error K is_bg ''Upload: Network write failed'';
         State_Monad.return True
       }
       else upload_loop fuel K is_bg fp data_socket
     }
   }"

fun download_loop :: "nat \<Rightarrow> 'w kernel \<Rightarrow> bool \<Rightarrow> string \<Rightarrow> int \<Rightarrow> int \<Rightarrow> ('w, bool) sysprog" where
  "download_loop 0 K is_bg dest_path fp data_socket = State_Monad.return False"
| "download_loop (Suc fuel) K is_bg dest_path fp data_socket = do {
     n \<leftarrow> sys K (FdC (Read data_socket 16384));
     if rv n < 0 then do {
       _ \<leftarrow> transfer_error K is_bg ''Network interrupted during download'';
       State_Monad.return True
     }
     else if rv n = 0 then State_Monad.return True
     else do {
       written \<leftarrow> call K (StdioC (Fwrite fp (take (nat (rv n)) (out n))));
       if written < rv n then do {
         _ \<leftarrow> transfer_error K is_bg (''Disk write error on '' @ CHR 0x27 # dest_path @ [CHR 0x27]);
         State_Monad.return True
       }
       else download_loop fuel K is_bg dest_path fp data_socket
     }
   }"

text \<open>The label \<open>cleanup\<close>; \<open>- 1\<close> stands for a stream that was not opened.\<close>

definition transfer_cleanup :: "'w kernel \<Rightarrow> 'w flags \<Rightarrow> int \<Rightarrow> int \<Rightarrow> ('w, unit outcome) sysprog" where
  "transfer_cleanup K C fp data_socket = do {
     _ \<leftarrow> (if 0 \<le> fp then call K (StdioC (Fclose fp)) else State_Monad.return 0);
     _ \<leftarrow> (if 0 \<le> data_socket then call K (FdC (Close data_socket)) else State_Monad.return 0);
     _ \<leftarrow> on_flags C (\<lambda>f. ((), bg_done f));
     State_Monad.return (Returned ())
   }"

definition backgroundUploadFunc ::
  "nat \<Rightarrow> 'w kernel \<Rightarrow> 'w flags \<Rightarrow> string \<Rightarrow> int \<Rightarrow> string \<Rightarrow> bool \<Rightarrow> ('w, unit outcome) sysprog" where
  "backgroundUploadFunc fuel K C ip port dest_path is_bg = do {
     data_socket \<leftarrow> connectToServer K ip port;
     if data_socket < 0 then do {
       _ \<leftarrow> transfer_error K is_bg (''Upload: Connection to port '' @ show_int port @ '' failed'');
       transfer_cleanup K C (- 1) data_socket
     }
     else do {
       fp \<leftarrow> call K (StdioC (Fopen dest_path ''rb''));
       if fp < 0 then do {
         e \<leftarrow> get_errno;
         _ \<leftarrow> transfer_error K is_bg (''Upload: Cannot open '' @ CHR 0x27 # dest_path @ CHR 0x27 # '' ('' @ strerror e @ '')'');
         transfer_cleanup K C (- 1) data_socket
       }
       else do {
         ended \<leftarrow> upload_loop fuel K is_bg fp data_socket;
         if ended then transfer_cleanup K C fp data_socket else State_Monad.return Running
       }
     }
   }"

definition backgroundDownloadFunc ::
  "nat \<Rightarrow> 'w kernel \<Rightarrow> 'w flags \<Rightarrow> string \<Rightarrow> int \<Rightarrow> string \<Rightarrow> bool \<Rightarrow> ('w, unit outcome) sysprog" where
  "backgroundDownloadFunc fuel K C ip port dest_path is_bg = do {
     data_socket \<leftarrow> connectToServer K ip port;
     if data_socket < 0 then do {
       _ \<leftarrow> transfer_error K is_bg ''Download: Connection failed'';
       transfer_cleanup K C (- 1) data_socket
     }
     else do {
       fp \<leftarrow> call K (StdioC (Fopen dest_path ''wb''));
       if fp < 0 then do {
         _ \<leftarrow> transfer_error K is_bg (''Download: Cannot create '' @ CHR 0x27 # dest_path @ [CHR 0x27]);
         transfer_cleanup K C (- 1) data_socket
       }
       else do {
         ended \<leftarrow> download_loop fuel K is_bg dest_path fp data_socket;
         if ended then transfer_cleanup K C fp data_socket else State_Monad.return Running
       }
     }
   }"

section \<open>\<open>main\<close>\<close>

text \<open>The command line: address, port, and whether an address was given; \<open>None\<close> is a wrong number of words.\<close>

definition client_args :: "string list \<Rightarrow> (string \<times> int \<times> bool) option" where
  "client_args argv =
     (if 3 < length argv then None
      else Some (if 2 \<le> length argv \<and> argv ! 1 \<noteq> [] then argv ! 1 else ''127.0.0.1'',
        if 3 \<le> length argv \<and> argv ! 2 \<noteq> [] then atoi (argv ! 2) else 8080,
        2 \<le> length argv \<and> argv ! 1 \<noteq> []))"

definition validate_ipv4 :: "'w kernel \<Rightarrow> string \<Rightarrow> ('w, bool) sysprog" where
  "validate_ipv4 K ip = do {
     r \<leftarrow> call K (NetC (Inet_pton ip));
     State_Monad.return (r = 1)
   }"

text \<open>
  The socket, and the address the background transfers will use
  (\<open>global_server_ip[64]\<close>); \<open>None\<close> is an error message and \<open>- 1\<close>.
\<close>

definition client_connect :: "'w kernel \<Rightarrow> string list \<Rightarrow> ('w, (int \<times> string) option) sysprog" where
  "client_connect K argv = (case client_args argv of
       None \<Rightarrow> do {
         _ \<leftarrow> say K (''Usage: '' @ hd argv @ '' [IP] [Port]'' @ newline);
         State_Monad.return None
       }
     | Some (ip, port, given) \<Rightarrow> do {
         ok \<leftarrow> (if given then validate_ipv4 K ip else State_Monad.return True);
         if \<not> ok then do {
           _ \<leftarrow> say K (''> IP: '' @ ip @ '' not valid'' @ newline);
           State_Monad.return None
         }
         else do {
           s \<leftarrow> connectToServer K ip port;
           State_Monad.return (if s = - 1 then None else Some (s, take 63 ip))
         }
       })"

text \<open>The two threads run until the writer ends; then the reader is cancelled.\<close>

definition client_main :: "'w kernel \<Rightarrow> string list \<Rightarrow> ('w, int) sysprog" where
  "client_main K argv = do {
     c \<leftarrow> client_connect K argv;
     case c of
       None \<Rightarrow> State_Monad.return (- 1)
     | Some (server_socket, global_server_ip) \<Rightarrow> do {
         _ \<leftarrow> say K (''[Client]> Successfully connected to server'' @ newline);
         _ \<leftarrow> call K (StdioC (Thread_start False));
         _ \<leftarrow> call K (StdioC (Thread_start True));
         _ \<leftarrow> call K (StdioC (Thread_join True));
         _ \<leftarrow> call K (StdioC (Thread_cancel False));
         _ \<leftarrow> call K (StdioC (Thread_join False));
         _ \<leftarrow> call K (FdC (Close server_socket));
         State_Monad.return 0
       }
   }"

end
