(* ===== verification/Registry.thy ===== *)
theory Registry
  imports Privileges
begin

text \<open>
  The shared memory of the server's handler processes (\<open>SharedRegistry\<close> in
  \<open>src/src/server/net/net.h\<close>) and the critical sections on it in
  \<open>src/src/server/handler/handlers.c\<close>: the table of online users and the table of
  transfer requests.  Each definition is what the code does between \<open>sem_wait\<close> and
  \<open>sem_post\<close>.

  Character arrays are kept as bytes: the code fills them with \<open>strncpy\<close>, \<open>snprintf\<close>
  and \<open>memset\<close>, and a name is what a \<open>strcmp\<close> reads from the array and the memory
  after it.
\<close>

section \<open>Data\<close>

abbreviation MAX_USERS :: nat where "MAX_USERS \<equiv> 20"
abbreviation MAX_TRANSFERS :: nat where "MAX_TRANSFERS \<equiv> 20"
abbreviation FILENAME_SIZE :: nat where "FILENAME_SIZE \<equiv> 256"

datatype TransferStatus = FREE | PENDING | NOTIFIED | REJECTED

fun status_code :: "TransferStatus \<Rightarrow> nat" where
  "status_code FREE = 0"
| "status_code PENDING = 1"
| "status_code NOTIFIED = 2"
| "status_code REJECTED = 3"

lemma status_code_inj: "status_code a = status_code b \<longleftrightarrow> a = b"
  by (cases a; cases b) simp_all

text \<open>The order of the enumeration is the order in which a request goes through the states.\<close>

instantiation TransferStatus :: linorder
begin

definition less_eq_TransferStatus :: "TransferStatus \<Rightarrow> TransferStatus \<Rightarrow> bool" where
  "less_eq_TransferStatus a b \<longleftrightarrow> status_code a \<le> status_code b"

definition less_TransferStatus :: "TransferStatus \<Rightarrow> TransferStatus \<Rightarrow> bool" where
  "less_TransferStatus a b \<longleftrightarrow> status_code a < status_code b"

instance
  by standard (auto simp: less_eq_TransferStatus_def less_TransferStatus_def status_code_inj [symmetric])

end

record UserEntry =
  ue_username :: bytes
  handler_pid :: int
  is_active :: int

record TransferRequest =
  tr_id :: int
  tr_sender :: bytes
  tr_receiver :: bytes
  tr_filename :: bytes
  tr_status :: TransferStatus

record SharedRegistry =
  online_users :: "UserEntry list"
  pending :: "TransferRequest list"
  global_id_counter :: u32

text \<open>The strings that start in the arrays; the fields are adjacent in memory.\<close>

definition entry_name :: "UserEntry \<Rightarrow> string" where
  "entry_name e = c_str (ue_username e @ le32 (word_of_int (handler_pid e)) @ le32 (word_of_int (is_active e)))"

definition sender_name :: "TransferRequest \<Rightarrow> string" where
  "sender_name t =
     c_str (tr_sender t @ tr_receiver t @ tr_filename t @ le32 (of_nat (status_code (tr_status t))))"

definition receiver_name :: "TransferRequest \<Rightarrow> string" where
  "receiver_name t =
     c_str (tr_receiver t @ tr_filename t @ le32 (of_nat (status_code (tr_status t))))"

definition file_name :: "TransferRequest \<Rightarrow> string" where
  "file_name t = c_str (tr_filename t @ le32 (of_nat (status_code (tr_status t))))"

definition free_request :: TransferRequest where
  "free_request = \<lparr>tr_id = 0, tr_sender = replicate MAX_USERNAME_LEN NUL,
     tr_receiver = replicate MAX_USERNAME_LEN NUL, tr_filename = replicate FILENAME_SIZE NUL,
     tr_status = FREE\<rparr>"

definition free_entry :: UserEntry where
  "free_entry = \<lparr>ue_username = replicate MAX_USERNAME_LEN NUL, handler_pid = 0, is_active = 0\<rparr>"

text \<open>\<open>initSharedRegistry\<close> clears the two tables and leaves the counter of the segment.\<close>

definition init_registry :: "u32 \<Rightarrow> SharedRegistry" where
  "init_registry c = \<lparr>online_users = replicate MAX_USERS free_entry,
     pending = replicate MAX_TRANSFERS free_request, global_id_counter = c\<rparr>"

section \<open>Online users\<close>

text \<open>\<open>handleLogin\<close>: the first inactive entry; without one the login is not recorded.\<close>

definition register_user :: "string \<Rightarrow> int \<Rightarrow> SharedRegistry \<Rightarrow> SharedRegistry" where
  "register_user name pid r = (case find_index (\<lambda>e. is_active e = 0) (online_users r) of
       None \<Rightarrow> r
     | Some i \<Rightarrow> r\<lparr>online_users := (online_users r)[i :=
           \<lparr>ue_username = strncpy MAX_USERNAME_LEN name (ue_username (online_users r ! i)),
            handler_pid = pid, is_active = 1\<rparr>]\<rparr>)"

text \<open>The end of \<open>handleClient\<close>: the first entry of this process.\<close>

definition unregister_user :: "int \<Rightarrow> SharedRegistry \<Rightarrow> SharedRegistry" where
  "unregister_user pid r = (case find_index (\<lambda>e. handler_pid e = pid) (online_users r) of
       None \<Rightarrow> r
     | Some i \<Rightarrow> r\<lparr>online_users := (online_users r)[i := (online_users r ! i)\<lparr>is_active := 0\<rparr>]\<rparr>)"

text \<open>The handler to signal: the first active entry of that name.\<close>

definition find_handler :: "string \<Rightarrow> SharedRegistry \<Rightarrow> int option" where
  "find_handler name r =
     map_option (\<lambda>i. handler_pid (online_users r ! i))
       (find_index (\<lambda>e. is_active e \<noteq> 0 \<and> entry_name e = name) (online_users r))"

section \<open>Transfer requests\<close>

text \<open>
  \<open>check_for_notifications\<close>: one slot of the scan.  \<open>Some (t, b)\<close> is a copy of the
  slot to tell the user about, \<open>b\<close> says that it is a rejection.
\<close>

definition check_slot :: "string \<Rightarrow> TransferRequest \<Rightarrow> (TransferRequest \<times> bool) option \<times> TransferRequest" where
  "check_slot user t =
     (if tr_status t = PENDING \<and> receiver_name t = user then
        (Some (t, False), t\<lparr>tr_status := NOTIFIED\<rparr>)
      else if tr_status t = REJECTED \<and> sender_name t = user then (Some (t, True), free_request)
      else (None, t))"

definition check_requests :: "string \<Rightarrow> SharedRegistry \<Rightarrow> (TransferRequest \<times> bool) list \<times> SharedRegistry" where
  "check_requests user r =
     (List.map_filter (\<lambda>t. fst (check_slot user t)) (pending r),
      r\<lparr>pending := map (\<lambda>t. snd (check_slot user t)) (pending r)\<rparr>)"

text \<open>The text of a notification, cut to \<open>msg[512]\<close>.\<close>

definition notification_text :: "TransferRequest \<times> bool \<Rightarrow> string" where
  "notification_text n = (case n of (t, rejection) \<Rightarrow>
     take 511
       (if rejection then
          ''[NOTIFICATION] User '' @ receiver_name t @ '' REJECTED your transfer: '' @ file_name t
        else
          ''[NOTIFICATION] User '' @ sender_name t @ '' sent a file: '' @ file_name t
          @ '' (ID: '' @ show_int (tr_id t) @ '')'' @ CHR 0x0A # ''   > Accept: accept <dir> ''
          @ show_int (tr_id t) @ CHR 0x0A # ''   > Reject: reject '' @ show_int (tr_id t)))"

text \<open>\<open>cleanup_user_requests\<close>: \<open>memset(sender, 0, 32)\<close> runs 12 bytes into the receiver.\<close>

definition cleanup_slot :: "string \<Rightarrow> TransferRequest \<Rightarrow> TransferRequest" where
  "cleanup_slot user t =
     (if tr_status t \<noteq> FREE \<and> receiver_name t = user then
        t\<lparr>tr_status := FREE, tr_id := 0, tr_sender := replicate MAX_USERNAME_LEN NUL,
          tr_receiver := memset0 12 (tr_receiver t)\<rparr>
      else t)"

definition cleanup_user_requests :: "string \<Rightarrow> SharedRegistry \<Rightarrow> SharedRegistry" where
  "cleanup_user_requests user r = r\<lparr>pending := map (cleanup_slot user) (pending r)\<rparr>"

text \<open>
  \<open>handleTransferRequest\<close>: the new id, \<open>- 1\<close> when every slot is taken.  The bound
  given to the last \<open>snprintf\<close> is \<open>FILENAME_MAX\<close> (4096), so a longer name than
  the array holds is written over what follows: undefined behaviour.
\<close>

definition new_request :: "int \<Rightarrow> string \<Rightarrow> string \<Rightarrow> string \<Rightarrow> TransferRequest \<Rightarrow> TransferRequest" where
  "new_request i sender dest filename t =
     \<lparr>tr_id = i, tr_sender = snprintf MAX_USERNAME_LEN sender (tr_sender t),
      tr_receiver = snprintf MAX_USERNAME_LEN dest (tr_receiver t),
      tr_filename = snprintf FILENAME_SIZE filename (tr_filename t), tr_status = PENDING\<rparr>"

definition create_request ::
  "string \<Rightarrow> string \<Rightarrow> string \<Rightarrow> SharedRegistry \<Rightarrow> (int \<times> SharedRegistry) outcome" where
  "create_request sender dest filename r = (case find_index (\<lambda>t. tr_status t = FREE) (pending r) of
       None \<Rightarrow> Returned (- 1, r)
     | Some i \<Rightarrow>
         (if FILENAME_SIZE \<le> length filename then Undefined
          else let c = global_id_counter r + 1; assigned = sint c in
            Returned (assigned, r\<lparr>global_id_counter := c,
              pending := (pending r)[i := new_request assigned sender dest filename (pending r ! i)]\<rparr>)))"

text \<open>\<open>handleAcceptTransfer\<close>: a copy of the request, which is freed.\<close>

definition accept_request ::
  "string \<Rightarrow> int \<Rightarrow> SharedRegistry \<Rightarrow> TransferRequest option \<times> SharedRegistry" where
  "accept_request user req_id r =
     (case find_index (\<lambda>t. tr_id t = req_id \<and> tr_status t = NOTIFIED \<and> receiver_name t = user) (pending r) of
        None \<Rightarrow> (None, r)
      | Some i \<Rightarrow> (Some (pending r ! i),
          r\<lparr>pending := (pending r)[i := (pending r ! i)\<lparr>tr_status := FREE, tr_id := 0\<rparr>]\<rparr>))"

text \<open>\<open>handleRejectTransfer\<close>: \<open>found\<close> and the copy of the sender's name.\<close>

definition reject_request ::
  "string \<Rightarrow> int \<Rightarrow> SharedRegistry \<Rightarrow> (int \<times> string) \<times> SharedRegistry" where
  "reject_request user target_id r =
     (case find_index (\<lambda>t. tr_id t = target_id \<and> tr_status t \<noteq> FREE) (pending r) of
        None \<Rightarrow> ((0, []), r)
      | Some i \<Rightarrow>
          (if receiver_name (pending r ! i) = user then
             ((1, take 19 (sender_name (pending r ! i))),
              r\<lparr>pending := (pending r)[i := (pending r ! i)\<lparr>tr_status := REJECTED, tr_id := 0\<rparr>]\<rparr>)
           else ((- 1, []), r)))"

end
