(* ===== verification/Server_Commands.thy ===== *)
theory Server_Commands
  imports Tokenizer Registry Helper_Files
begin

text \<open>
  The commands a handler process of the server carries out for its client by asking
  the helper (\<open>src/src/server/handler/handlers.c\<close>, lines 232 to 632): create a user,
  log in, and the operations on files.  A command returns the session as it leaves
  it.

  \<open>M\<close> gives access to the registry in the world, \<open>junk\<close> is what the uninitialised
  \<open>helper_response res\<close> on the stack holds: when the exchange with the helper
  fails, the code sends \<open>res.msg\<close> all the same.
\<close>

section \<open>Shared definitions\<close>

record 'w shm =
  shm_get :: "'w \<Rightarrow> SharedRegistry"
  shm_put :: "SharedRegistry \<Rightarrow> 'w \<Rightarrow> 'w"

text \<open>
  One access to the shared memory, and a critical section.  An access changes the world without
  a call to the system, so it is no event; it is visible only in what is made of \<open>M\<close>.
\<close>

definition on_registry :: "'w shm \<Rightarrow> (SharedRegistry \<Rightarrow> 'a \<times> SharedRegistry) \<Rightarrow> ('w, 'a) sysprog" where
  "on_registry M f = State (\<lambda>p. let (a, r) = f (shm_get M (world p)) in (a, p\<lparr>world := shm_put M r (world p)\<rparr>))"

definition critical :: "'w kernel \<Rightarrow> 'w shm \<Rightarrow> (SharedRegistry \<Rightarrow> 'a \<times> SharedRegistry) \<Rightarrow> ('w, 'a) sysprog" where
  "critical K M f = do {
     _ \<leftarrow> call K (MemC SemWait);
     a \<leftarrow> on_registry M f;
     _ \<leftarrow> call K (MemC SemPost);
     State_Monad.return a
   }"

type_synonym 'w client_command = "('w, ClientSession outcome) sysprog"

text \<open>The string that starts at \<open>res.msg\<close>, and the response as it lies in memory.\<close>

definition res_text :: "bytes \<Rightarrow> string" where
  "res_text outv = c_str (drop 8 outv)"

text \<open>\<open>sendProtocolMsg(client_sfd, TEXT, status, msg)\<close>, and on with the session.\<close>

definition reply :: "'w kernel \<Rightarrow> int \<Rightarrow> int \<Rightarrow> string \<Rightarrow> ClientSession \<Rightarrow> 'w client_command" where
  "reply K client_sfd status msg session = do {
     _ \<leftarrow> sendProtocolMsg K client_sfd TEXT status msg;
     State_Monad.return (Returned session)
   }"

definition reply_close :: "'w kernel \<Rightarrow> int \<Rightarrow> int \<Rightarrow> int \<Rightarrow> string \<Rightarrow> ClientSession \<Rightarrow> 'w client_command" where
  "reply_close K client_sfd helper_fd status msg session = do {
     _ \<leftarrow> sendProtocolMsg K client_sfd TEXT status msg;
     _ \<leftarrow> call K (FdC (Close helper_fd));
     State_Monad.return (Returned session)
   }"

text \<open>
  The common body of the commands that only pass on the helper's answer: \<open>asked\<close> is
  the session the helper is told about.
\<close>

definition relay ::
  "'w kernel \<Rightarrow> bytes \<Rightarrow> int \<Rightarrow> helper_commands \<Rightarrow> string list \<Rightarrow> ClientSession option \<Rightarrow> ClientSession \<Rightarrow>
   'w client_command" where
  "relay K junk client_sfd cmd args asked session = do {
     helper_fd \<leftarrow> connectToHelper K;
     if helper_fd < 0 then reply K client_sfd (- 1) ''Internal error: Helper unreachable'' session
     else do {
       (status, res) \<leftarrow> sendHelperRequest K helper_fd cmd args asked junk;
       reply_close K client_sfd helper_fd status (res_text res) session
     }
   }"

section \<open>Users\<close>

definition handleCreateUser ::
  "'w kernel \<Rightarrow> bytes \<Rightarrow> int \<Rightarrow> string list \<Rightarrow> ClientSession \<Rightarrow> 'w client_command" where
  "handleCreateUser K junk client_sfd argv session =
     (if length argv \<noteq> 3 then
        reply K client_sfd (- 1) ''Usage: create_user <username> <permissions>'' session
      else if \<not> isUsernameValid (argv ! 1) then reply K client_sfd (- 1) ''Invalid username'' session
      else relay K junk client_sfd CREATE_USER (tl argv) None session)"

text \<open>The session after a login that the helper confirmed with the answer \<open>res\<close>.\<close>

definition logged_in :: "string \<Rightarrow> bytes \<Rightarrow> ClientSession \<Rightarrow> ClientSession" where
  "logged_in username res s = s\<lparr>
     sess_state := STATE_LOGGED_IN,
     sess_uid := un_le32 (drop 1268 res),
     sess_gid := un_le32 (drop 1272 res),
     sess_workdir := CHR ''/'' # NUL # drop 2 (sess_workdir s),
     sess_home := strncpy ABS_PATH (c_str (drop 1276 res)) (sess_home s),
     sess_username := strncpy MAX_USERNAME_LEN username (sess_username s)\<rparr>"

definition handleLogin ::
  "'w kernel \<Rightarrow> 'w shm \<Rightarrow> bytes \<Rightarrow> int \<Rightarrow> string list \<Rightarrow> ClientSession \<Rightarrow> 'w client_command" where
  "handleLogin K M junk client_sfd argv session =
     (if sess_state session = STATE_LOGGED_IN then reply K client_sfd 0 ''Already logged in'' session
      else if length argv \<noteq> 2 then reply K client_sfd (- 1) ''Usage: login <username>'' session
      else if \<not> isUsernameValid (argv ! 1) then reply K client_sfd (- 1) ''Invalid username'' session
      else do {
        helper_fd \<leftarrow> connectToHelper K;
        if helper_fd < 0 then reply K client_sfd (- 1) ''Internal error'' session
        else do {
          (status, res) \<leftarrow> sendHelperRequest K helper_fd LOGIN (tl argv) None junk;
          if status = 0 then do {
            pid \<leftarrow> call K (ProcC Getpid);
            _ \<leftarrow> critical K M (\<lambda>r. ((), register_user (argv ! 1) pid r));
            reply_close K client_sfd helper_fd 0 ''Login successful'' (logged_in (argv ! 1) res session)
          }
          else reply_close K client_sfd helper_fd (- 1) (res_text res) session
        }
      })"

section \<open>Directories\<close>

definition set_workdir :: "string \<Rightarrow> ClientSession \<Rightarrow> ClientSession" where
  "set_workdir d s = s\<lparr>sess_workdir := strncpy ABS_PATH d (sess_workdir s)\<rparr>"

definition handleCd ::
  "'w kernel \<Rightarrow> bytes \<Rightarrow> int \<Rightarrow> string list \<Rightarrow> ClientSession \<Rightarrow> 'w client_command" where
  "handleCd K junk client_sfd argv session =
     (if sess_state session \<noteq> STATE_LOGGED_IN then reply K client_sfd (- 1) ''Log in first'' session
      else if length argv \<noteq> 2 then reply K client_sfd (- 1) ''Usage: cd <path>'' session
      else do {
        helper_fd \<leftarrow> connectToHelper K;
        if helper_fd < 0 then reply K client_sfd (- 1) ''Internal error'' session
        else do {
          (status, res) \<leftarrow> sendHelperRequest K helper_fd CD (tl argv) (Some session) junk;
          if status = 0 then do {
            let session' = set_workdir (c_str (drop 1268 res)) session;
            reply_close K client_sfd helper_fd 0
              (take 1255 (''Current workDir: '' @ session_workdir session')) session'
          }
          else reply_close K client_sfd helper_fd (- 1) (res_text res) session
        }
      })"

text \<open>A block of data from the helper is passed on behind a header of type \<open>type\<close>.\<close>

definition forward_data ::
  "'w kernel \<Rightarrow> int \<Rightarrow> int \<Rightarrow> msg_type \<Rightarrow> u32 \<Rightarrow> ClientSession \<Rightarrow> 'w client_command" where
  "forward_data K client_sfd helper_fd type len session = do {
     (n, bs) \<leftarrow> readAll K helper_fd (unat len);
     if n = int (unat len) then do {
       _ \<leftarrow> writeAll K client_sfd (enc_msg_header (make_header type 0 (unat len) 0));
       _ \<leftarrow> writeAll K client_sfd bs;
       _ \<leftarrow> call K (FdC (Close helper_fd));
       State_Monad.return (Returned session)
     }
     else reply_close K client_sfd helper_fd (- 1) ''Failed to read data from Helper'' session
   }"

definition handleLs ::
  "'w kernel \<Rightarrow> bytes \<Rightarrow> int \<Rightarrow> string list \<Rightarrow> ClientSession \<Rightarrow> 'w client_command" where
  "handleLs K junk client_sfd argv session =
     (if sess_state session \<noteq> STATE_LOGGED_IN then reply K client_sfd (- 1) ''Log in first'' session
      else if length argv \<noteq> 2 then reply K client_sfd (- 1) ''Usage: ls <path>'' session
      else do {
        helper_fd \<leftarrow> connectToHelper K;
        if helper_fd < 0 then reply K client_sfd (- 1) ''Internal server error: Helper unreachable'' session
        else do {
          (status, res) \<leftarrow> sendHelperRequest K helper_fd LS (tl argv) (Some session) junk;
          let len = res_payload_len (dec_response res);
          if status \<noteq> 0 then reply_close K client_sfd helper_fd (- 1) (res_text res) session
          else if 0 < len then forward_data K client_sfd helper_fd LSRES len session
          else reply_close K client_sfd helper_fd 0 ''Directory is empty'' session
        }
      })"

section \<open>Files\<close>

definition handleCreateFile ::
  "'w kernel \<Rightarrow> bytes \<Rightarrow> int \<Rightarrow> string list \<Rightarrow> ClientSession \<Rightarrow> 'w client_command" where
  "handleCreateFile K junk client_sfd argv session =
     (if sess_state session \<noteq> STATE_LOGGED_IN then reply K client_sfd 0 ''Log in first'' session
      else if length argv < 3 \<or> 4 < length argv then
        reply K client_sfd (- 1) ''Usage: create <path> <permissions> [-d]'' session
      else if length argv = 4 \<and> argv ! 3 \<noteq> ''-d'' then
        reply K client_sfd (- 1) ''Unknown option. Only -d supported'' session
      else relay K junk client_sfd CREATE_FILE (tl argv) (Some session) session)"

definition handleChmod ::
  "'w kernel \<Rightarrow> bytes \<Rightarrow> int \<Rightarrow> string list \<Rightarrow> ClientSession \<Rightarrow> 'w client_command" where
  "handleChmod K junk client_sfd argv session =
     (if sess_state session \<noteq> STATE_LOGGED_IN then reply K client_sfd 0 ''Log in first'' session
      else if length argv \<noteq> 3 then
        reply K client_sfd (- 1) ''Usage: chmod <path> <permissions>'' session
      else relay K junk client_sfd CHMOD (tl argv) (Some session) session)"

definition handleDelete ::
  "'w kernel \<Rightarrow> bytes \<Rightarrow> int \<Rightarrow> string list \<Rightarrow> ClientSession \<Rightarrow> 'w client_command" where
  "handleDelete K junk client_sfd argv session =
     (if sess_state session \<noteq> STATE_LOGGED_IN then reply K client_sfd 0 ''Log in first'' session
      else if length argv \<noteq> 2 then reply K client_sfd (- 1) ''Usage: delete <path>'' session
      else relay K junk client_sfd DELETE (tl argv) (Some session) session)"

definition handleMove ::
  "'w kernel \<Rightarrow> bytes \<Rightarrow> int \<Rightarrow> string list \<Rightarrow> ClientSession \<Rightarrow> 'w client_command" where
  "handleMove K junk client_sfd argv session =
     (if sess_state session \<noteq> STATE_LOGGED_IN then reply K client_sfd 0 ''Log in first'' session
      else if length argv \<noteq> 3 then reply K client_sfd (- 1) ''Usage: move <path1> <path2>'' session
      else relay K junk client_sfd MOVE (tl argv) (Some session) session)"

text \<open>
  The path and offset of \<open>read\<close> and \<open>write\<close>; \<open>Inl\<close> is the usage message, of which
  \<open>read\<close> has two.
\<close>

definition OFFSET_PREFIX :: string where
  "OFFSET_PREFIX = ''-offset=''"

definition offset_and_path :: "string \<Rightarrow> string \<Rightarrow> string list \<Rightarrow> string + (int \<times> string)" where
  "offset_and_path usage3 usage argv =
     (if length argv = 3 then
        (if has_prefix OFFSET_PREFIX (argv ! 1)
         then Inr (atoi (drop (length OFFSET_PREFIX) (argv ! 1)), argv ! 2)
         else Inl usage3)
      else if length argv = 2 then Inr (0, argv ! 1)
      else Inl usage)"

definition handleRead ::
  "'w kernel \<Rightarrow> bytes \<Rightarrow> int \<Rightarrow> string list \<Rightarrow> ClientSession \<Rightarrow> 'w client_command" where
  "handleRead K junk client_sfd argv session =
     (if sess_state session \<noteq> STATE_LOGGED_IN then reply K client_sfd 0 ''Log in first'' session
      else case offset_and_path ''Usage: read -offset=N <path>'' ''Usage: read [-offset=N] <path>'' argv of
        Inl usage \<Rightarrow> reply K client_sfd (- 1) usage session
      | Inr (offset, path) \<Rightarrow> do {
          helper_fd \<leftarrow> connectToHelper K;
          if helper_fd < 0 then reply K client_sfd (- 1) ''Internal error: Helper unreachable'' session
          else do {
            (status, res) \<leftarrow> sendHelperRequestRW K helper_fd READ [path] offset (Some session) None 0 junk;
            let len = res_payload_len (dec_response res);
            if status \<noteq> 0 then reply_close K client_sfd helper_fd (- 1) (res_text res) session
            else if 0 < len then forward_data K client_sfd helper_fd READCMD len session
            else reply_close K client_sfd helper_fd 0 ''File is empty'' session
          }
        })"

text \<open>
  \<open>cmd_end\<close>: the offset one past the terminator of the last token; \<open>data_len\<close> is
  computed from the first token on, and the data is read from \<open>cmd_end\<close>.  \<open>buf\<close> is
  the request with the NUL the server appends; \<open>None\<close>: the data would reach past it.
\<close>

definition cmd_end :: "nat list \<times> bytes \<Rightarrow> nat" where
  "cmd_end tb = (let q = last (fst tb) in q + length (c_str (drop q (snd tb))) + 1)"

definition write_data_len :: "u32 \<Rightarrow> nat list \<times> bytes \<Rightarrow> u32" where
  "write_data_len payload_len tb = payload_len - of_nat (cmd_end tb - hd (fst tb))"

definition write_file_data :: "u32 \<Rightarrow> nat list \<times> bytes \<Rightarrow> bytes option" where
  "write_file_data payload_len tb =
     (let n = unat (write_data_len payload_len tb)
      in if n = 0 then Some []
         else if cmd_end tb + n \<le> length (snd tb) then Some (take n (drop (cmd_end tb) (snd tb)))
         else None)"

definition handleWrite ::
  "'w kernel \<Rightarrow> bytes \<Rightarrow> int \<Rightarrow> nat list \<times> bytes \<Rightarrow> u32 \<Rightarrow> ClientSession \<Rightarrow> 'w client_command" where
  "handleWrite K junk client_sfd tb payload_len session =
     (if sess_state session \<noteq> STATE_LOGGED_IN then reply K client_sfd (- 1) ''Log in first'' session
      else case offset_and_path ''Usage: write [-offset=N] <path>'' ''Usage: write [-offset=N] <path>''
                  (argv_strings tb) of
        Inl usage \<Rightarrow> reply K client_sfd (- 1) usage session
      | Inr (offset, path) \<Rightarrow> do {
          helper_fd \<leftarrow> connectToHelper K;
          if helper_fd < 0 then reply K client_sfd (- 1) ''Internal error: Helper unreachable'' session
          else (case write_file_data payload_len tb of
              None \<Rightarrow> State_Monad.return Undefined
            | Some data \<Rightarrow> do {
                (status, res) \<leftarrow> sendHelperRequestRW K helper_fd WRITE [path] offset (Some session)
                                   (Some data) (write_data_len payload_len tb) junk;
                reply_close K client_sfd helper_fd status (res_text res) session
              })
        })"

end
