(* ===== verification/Server_Transfers.thy ===== *)
theory Server_Transfers
  imports Server_Commands
begin

text \<open>
  Downloads and uploads over a data connection, and transfers between users through
  the registry (\<open>src/src/server/handler/handlers.c\<close>, lines 78 to 129 and 636 to 961).
  A download or upload forks; the child moves the data and never comes back
  (\<open>Exited\<close>), the parent tells the client the port.
\<close>

section \<open>Data connections\<close>

definition send_locked :: "'w kernel \<Rightarrow> int \<Rightarrow> int \<Rightarrow> string \<Rightarrow> int \<Rightarrow> ClientSession \<Rightarrow> 'w client_command" where
  "send_locked K client_sfd status msg is_bg session = do {
     _ \<leftarrow> sendProtocolMsgLocked K client_sfd TEXT status msg is_bg;
     State_Monad.return (Returned session)
   }"

text \<open>\<open>snprintf(port_info, 64, "DATA_PORT %d %s", ...)\<close>.\<close>

definition port_info :: "int \<Rightarrow> string \<Rightarrow> string" where
  "port_info data_port path = take 63 (''DATA_PORT '' @ show_int data_port @ SPC # path)"

text \<open>
  What the two commands share: open a listening socket, fork, and in the parent send
  the port under the message type \<open>type\<close>.  \<open>child\<close> is the program of the child, given
  the listening socket.
\<close>

definition with_data_port ::
  "'w kernel \<Rightarrow> int \<Rightarrow> int \<Rightarrow> msg_type \<Rightarrow> string \<Rightarrow> ClientSession \<Rightarrow> (int \<Rightarrow> 'w client_command) \<Rightarrow> 'w client_command" where
  "with_data_port K client_sfd is_bg type path session child = do {
     data_listener \<leftarrow> call K (NetC Socket_inet);
     b \<leftarrow> call K (NetC (Bind_any data_listener));
     if b < 0 then send_locked K client_sfd (- 1) ''Internal: bind failed'' is_bg session
     else do {
       _ \<leftarrow> call K (NetC (Listen data_listener 1));
       g \<leftarrow> sys K (NetC (Getsockname data_listener));
       let data_port = (if rv g < 0 then 0 else wait_out g);
       pid \<leftarrow> call K (ProcC Fork);
       if pid < 0 then do {
         _ \<leftarrow> sendProtocolMsgLocked K client_sfd TEXT (- 1) ''Fork failed'' is_bg;
         _ \<leftarrow> call K (FdC (Close data_listener));
         State_Monad.return (Returned session)
       }
       else if 0 < pid then do {
         _ \<leftarrow> sendProtocolMsgLocked K client_sfd type 0 (port_info data_port path) 0;
         _ \<leftarrow> call K (FdC (Close data_listener));
         State_Monad.return (Returned session)
       }
       else do {
         _ \<leftarrow> release_socket_lock K client_sfd;
         child data_listener
       }
     }
   }"

text \<open>
  \<open>while (total_received < total_to_read)\<close>: terminates because every round that goes
  on has received at least one byte.
\<close>

function relay_bytes :: "'w kernel \<Rightarrow> int \<Rightarrow> int \<Rightarrow> nat \<Rightarrow> ('w, unit) sysprog" where
  "relay_bytes K src dst todo =
     (if todo = 0 then State_Monad.return ()
      else do {
        n \<leftarrow> sys K (FdC (Read src (min todo 16384)));
        if rv n \<le> 0 then State_Monad.return ()
        else do {
          w \<leftarrow> writeAll K dst (take (nat (rv n)) (out n));
          if w < 0 then State_Monad.return ()
          else relay_bytes K src dst (todo - nat (rv n))
        }
      })"
  by pat_completeness auto
termination
  by (relation "measure (\<lambda>(K, src, dst, todo). todo)") auto

declare relay_bytes.simps [simp del]

text \<open>The text of a failure: \<open>res.msg\<close> or a default, cut to the buffer.\<close>

definition failure_text :: "string \<Rightarrow> bytes \<Rightarrow> nat \<Rightarrow> string" where
  "failure_text prefix res bound =
     take (bound - 1) (prefix @ (if res_text res \<noteq> [] then res_text res else ''Helper error''))"

definition is_background_command :: "string list \<Rightarrow> bool" where
  "is_background_command argv \<longleftrightarrow> 4 \<le> length argv \<and> last argv = ''-b''"

definition download_child ::
  "'w kernel \<Rightarrow> bytes \<Rightarrow> int \<Rightarrow> int \<Rightarrow> string list \<Rightarrow> ClientSession \<Rightarrow> int \<Rightarrow> 'w client_command" where
  "download_child K junk client_sfd is_bg argv session data_listener = do {
     data_sfd \<leftarrow> call K (NetC (Accept data_listener));
     if data_sfd < 0 then State_Monad.return Exited
     else do {
       _ \<leftarrow> call K (FdC (Close data_listener));
       helper_fd \<leftarrow> connectToHelper K;
       (status, res) \<leftarrow> sendHelperRequestRW K helper_fd DOWNLOAD [argv ! 1] 0 (Some session) None 0 junk;
       if status = 0 then do {
         _ \<leftarrow> relay_bytes K helper_fd data_sfd (unat (res_payload_len (dec_response res)));
         _ \<leftarrow> call K (FdC (Close data_sfd));
         _ \<leftarrow> sendProtocolMsgLocked K client_sfd TEXT 0
                (take 127 (''download '' @ argv ! 1 @ SPC # argv ! 2 @ '' concluded'')) is_bg;
         _ \<leftarrow> call K (FdC (Close helper_fd));
         State_Monad.return Exited
       }
       else do {
         _ \<leftarrow> call K (FdC (Close data_sfd));
         _ \<leftarrow> sendProtocolMsgLocked K client_sfd TEXT (- 1) (failure_text ''Download failed: '' res 2048) is_bg;
         _ \<leftarrow> call K (FdC (Close helper_fd));
         State_Monad.return Exited
       }
     }
   }"

definition handleDownload ::
  "'w kernel \<Rightarrow> bytes \<Rightarrow> int \<Rightarrow> string list \<Rightarrow> ClientSession \<Rightarrow> 'w client_command" where
  "handleDownload K junk client_sfd argv session =
     (let is_bg = (if is_background_command argv then 1 else 0)
      in if 4 \<le> length argv \<and> last argv \<noteq> ''-b'' then
           send_locked K client_sfd (- 1) ''Usage: download <server_path> <client_path> [-b]'' is_bg session
         else if sess_state session \<noteq> STATE_LOGGED_IN then
           send_locked K client_sfd (- 1) ''Log in first'' is_bg session
         else if length argv < 3 \<or> 4 < length argv then
           send_locked K client_sfd (- 1) ''Usage: download <server_path> <client_path> [-b]'' 0 session
         else with_data_port K client_sfd is_bg DOWNLOAD_RES (argv ! 2) session
                (download_child K junk client_sfd is_bg argv session))"

definition upload_child ::
  "nat \<Rightarrow> 'w kernel \<Rightarrow> bytes \<Rightarrow> int \<Rightarrow> int \<Rightarrow> string list \<Rightarrow> ClientSession \<Rightarrow> int \<Rightarrow> 'w client_command" where
  "upload_child fuel K junk client_sfd is_bg argv session data_listener = do {
     data_sfd \<leftarrow> call K (NetC (Accept data_listener));
     _ \<leftarrow> call K (FdC (Close data_listener));
     if data_sfd < 0 then State_Monad.return Exited
     else do {
       helper_fd \<leftarrow> connectToHelper K;
       (status, res) \<leftarrow> sendHelperRequestRW K helper_fd UPLOAD [argv ! 2] 0 (Some session) None 0 junk;
       if status = 0 then do {
         ended \<leftarrow> copy_stream fuel K data_sfd helper_fd 16384;
         if \<not> ended then State_Monad.return Running
         else do {
           _ \<leftarrow> call K (FdC (Close data_sfd));
           _ \<leftarrow> sendProtocolMsgLocked K client_sfd TEXT 0
                  (take 127 (''upload '' @ argv ! 2 @ SPC # argv ! 1 @ '' concluded'')) is_bg;
           _ \<leftarrow> call K (FdC (Close helper_fd));
           State_Monad.return Exited
         }
       }
       else do {
         _ \<leftarrow> call K (FdC (Close data_sfd));
         _ \<leftarrow> sendProtocolMsgLocked K client_sfd TEXT (- 1) (failure_text ''Upload failed: '' res 1500) is_bg;
         _ \<leftarrow> call K (FdC (Close helper_fd));
         State_Monad.return Exited
       }
     }
   }"

definition handleUpload ::
  "nat \<Rightarrow> 'w kernel \<Rightarrow> bytes \<Rightarrow> int \<Rightarrow> string list \<Rightarrow> ClientSession \<Rightarrow> 'w client_command" where
  "handleUpload fuel K junk client_sfd argv session =
     (let is_bg = (if is_background_command argv then 1 else 0)
      in if sess_state session \<noteq> STATE_LOGGED_IN then
           send_locked K client_sfd (- 1) ''Log in first'' is_bg session
         else if length argv < 3 \<or> 4 < length argv then
           send_locked K client_sfd (- 1) ''Usage: upload <client_path> <server_path> [-b]'' 0 session
         else with_data_port K client_sfd is_bg UPLOAD_RES (argv ! 1) session
                (upload_child fuel K junk client_sfd is_bg argv session))"

section \<open>Transfers between users\<close>

text \<open>\<open>while (target_pid == 0)\<close>: look the receiver up, sleep a second when absent.\<close>

fun await_handler :: "nat \<Rightarrow> 'w kernel \<Rightarrow> 'w shm \<Rightarrow> string \<Rightarrow> ('w, int option) sysprog" where
  "await_handler 0 K M dest_user = State_Monad.return None"
| "await_handler (Suc fuel) K M dest_user = do {
     t \<leftarrow> critical K M (\<lambda>r. (find_handler dest_user r, r));
     (case t of
        Some pid \<Rightarrow> if pid \<noteq> 0 then State_Monad.return (Some pid)
                    else do { _ \<leftarrow> call K (ProcC (Sleep 1)); await_handler fuel K M dest_user }
      | None \<Rightarrow> do { _ \<leftarrow> call K (ProcC (Sleep 1)); await_handler fuel K M dest_user })
   }"

definition SIGUSR1 :: int where "SIGUSR1 = 10"
definition SIGTERM :: int where "SIGTERM = 15"

text \<open>The registry part of a request, with the undefined case as \<open>None\<close>.\<close>

definition create_section ::
  "string \<Rightarrow> string \<Rightarrow> string \<Rightarrow> SharedRegistry \<Rightarrow> int option \<times> SharedRegistry" where
  "create_section sender dest filename r = (case create_request sender dest filename r of
       Returned (i, r') \<Rightarrow> (Some i, r')
     | _ \<Rightarrow> (None, r))"

definition handleTransferRequest ::
  "nat \<Rightarrow> 'w kernel \<Rightarrow> 'w shm \<Rightarrow> int \<Rightarrow> string list \<Rightarrow> ClientSession \<Rightarrow> 'w client_command" where
  "handleTransferRequest fuel K M client_sfd argv session =
     (if sess_state session \<noteq> STATE_LOGGED_IN then reply K client_sfd (- 1) ''Login required'' session
      else if length argv < 3 \<or> 4 < length argv then
        reply K client_sfd (- 1) ''Usage: transfer_request <file> <dest_user>'' session
      else do {
        t \<leftarrow> await_handler fuel K M (argv ! 2);
        case t of
          None \<Rightarrow> State_Monad.return Running
        | Some target_pid \<Rightarrow> do {
            assigned \<leftarrow> critical K M (create_section (session_user session) (argv ! 2) (argv ! 1));
            case assigned of
              None \<Rightarrow> State_Monad.return Undefined
            | Some assigned_id \<Rightarrow>
                if assigned_id = - 1 then
                  reply K client_sfd (- 1) ''Server busy: Too many pending transfers'' session
                else do {
                  _ \<leftarrow> call K (ProcC (Kill target_pid SIGUSR1));
                  reply K client_sfd 0
                    (take 127 (''Transfer request created with ID: '' @ show_int assigned_id
                               @ ''. Waiting for recipient...'')) session
                }
          }
      })"

definition handleAcceptTransfer ::
  "'w kernel \<Rightarrow> 'w shm \<Rightarrow> bytes \<Rightarrow> int \<Rightarrow> string list \<Rightarrow> ClientSession \<Rightarrow> 'w client_command" where
  "handleAcceptTransfer K M junk client_sfd argv session =
     (if sess_state session \<noteq> STATE_LOGGED_IN then reply K client_sfd (- 1) ''Login required'' session
      else if length argv \<noteq> 3 then reply K client_sfd (- 1) ''Usage: accept <directory> <ID>'' session
      else do {
        found \<leftarrow> critical K M (accept_request (session_user session) (atoi (argv ! 2)));
        case found of
          None \<Rightarrow> reply K client_sfd (- 1) ''Error: ID not found or notification not yet processed.'' session
        | Some t \<Rightarrow> do {
            helper_fd \<leftarrow> connectToHelper K;
            if helper_fd < 0 then reply K client_sfd (- 1) ''Internal Error: Helper unreachable'' session
            else do {
              (status, res) \<leftarrow> sendHelperRequest K helper_fd TRANSFER
                 [sender_name t, file_name t, session_user session, argv ! 1] None junk;
              reply_close K client_sfd helper_fd status (res_text res) session
            }
          }
      })"

definition handleRejectTransfer ::
  "'w kernel \<Rightarrow> 'w shm \<Rightarrow> int \<Rightarrow> string list \<Rightarrow> ClientSession \<Rightarrow> 'w client_command" where
  "handleRejectTransfer K M client_sfd argv session =
     (if sess_state session \<noteq> STATE_LOGGED_IN then reply K client_sfd (- 1) ''Login required'' session
      else if length argv \<noteq> 2 then reply K client_sfd (- 1) ''Usage: reject <request_id>'' session
      else do {
        (found, sender) \<leftarrow> critical K M (reject_request (session_user session) (atoi (argv ! 1)));
        if found = 1 then do {
          _ \<leftarrow> sendProtocolMsg K client_sfd TEXT 0 ''Transfer rejected.'';
          _ \<leftarrow> call K (MemC SemWait);
          t \<leftarrow> on_registry M (\<lambda>r. (find_handler sender r, r));
          _ \<leftarrow> (case t of Some pid \<Rightarrow> call K (ProcC (Kill pid SIGUSR1)) | None \<Rightarrow> State_Monad.return 0);
          _ \<leftarrow> call K (MemC SemPost);
          State_Monad.return (Returned session)
        }
        else if found = - 1 then reply K client_sfd 1 ''Error: This transfer is not for you.'' session
        else reply K client_sfd 1 ''Error: Request ID not found.'' session
      })"

section \<open>Notifications\<close>

fun send_notifications :: "'w kernel \<Rightarrow> int \<Rightarrow> (TransferRequest \<times> bool) list \<Rightarrow> ('w, unit) sysprog" where
  "send_notifications K client_fds [] = State_Monad.return ()"
| "send_notifications K client_fds (n # ns) = do {
     _ \<leftarrow> sendProtocolMsgBg K client_fds TEXT 0 (notification_text n) 1;
     send_notifications K client_fds ns
   }"

definition check_for_notifications ::
  "'w kernel \<Rightarrow> 'w shm \<Rightarrow> int \<Rightarrow> ClientSession \<Rightarrow> ('w, unit) sysprog" where
  "check_for_notifications K M client_fds session =
     (if sess_state session \<noteq> STATE_LOGGED_IN then State_Monad.return ()
      else do {
        ns \<leftarrow> critical K M (check_requests (session_user session));
        send_notifications K client_fds ns
      })"

end
