(* ===== verification/Server_Session.thy ===== *)
theory Server_Session
  imports Server_Transfers
begin

text \<open>
  The session of one client (\<open>src/src/server/handler/handlers.c\<close>, lines 39 to 75 and
  143 to 231): the table of commands, the dispatch, and the loop that reads
  requests, looks for notifications when a signal has arrived, and cleans the
  registry up at the end.
\<close>

section \<open>Dispatch\<close>

text \<open>
  The table \<open>commands[]\<close>; \<open>tb\<close> is the tokenised request, \<open>len\<close> its length, which only
  \<open>write\<close> looks at beyond its words.
\<close>

type_synonym 'w cmd_func = "string list \<Rightarrow> ClientSession \<Rightarrow> 'w client_command"

definition commands ::
  "nat \<Rightarrow> 'w kernel \<Rightarrow> 'w shm \<Rightarrow> bytes \<Rightarrow> int \<Rightarrow> nat list \<times> bytes \<Rightarrow> u32 \<Rightarrow> (string \<times> 'w cmd_func) list" where
  "commands fuel K M junk client_sfd tb len =
     [(''create_user'', handleCreateUser K junk client_sfd),
      (''login'', handleLogin K M junk client_sfd),
      (''ls'', handleLs K junk client_sfd),
      (''cd'', handleCd K junk client_sfd),
      (''create'', handleCreateFile K junk client_sfd),
      (''chmod'', handleChmod K junk client_sfd),
      (''delete'', handleDelete K junk client_sfd),
      (''move'', handleMove K junk client_sfd),
      (''read'', handleRead K junk client_sfd),
      (''write'', (\<lambda>_. handleWrite K junk client_sfd tb len)),
      (''download'', handleDownload K junk client_sfd),
      (''upload'', handleUpload fuel K junk client_sfd),
      (''transfer_request'', handleTransferRequest fuel K M client_sfd),
      (''accept'', handleAcceptTransfer K M junk client_sfd),
      (''reject'', handleRejectTransfer K M client_sfd)]"

text \<open>The search of the table for the first word.\<close>

definition run_command ::
  "nat \<Rightarrow> 'w kernel \<Rightarrow> 'w shm \<Rightarrow> bytes \<Rightarrow> int \<Rightarrow> nat list \<times> bytes \<Rightarrow> u32 \<Rightarrow> ClientSession \<Rightarrow> 'w client_command" where
  "run_command fuel K M junk client_sfd tb len session =
     (let argv = argv_strings tb
      in case map_of (commands fuel K M junk client_sfd tb len) (hd argv) of
           Some func \<Rightarrow> func argv session
         | None \<Rightarrow> reply K client_sfd (- 1) ''Command not found'' session)"

lemma run_command_cases:
  "run_command fuel K M junk client_sfd tb len session =
     (let argv = argv_strings tb; name = hd argv
      in if name = ''create_user'' then handleCreateUser K junk client_sfd argv session
         else if name = ''login'' then handleLogin K M junk client_sfd argv session
         else if name = ''ls'' then handleLs K junk client_sfd argv session
         else if name = ''cd'' then handleCd K junk client_sfd argv session
         else if name = ''create'' then handleCreateFile K junk client_sfd argv session
         else if name = ''chmod'' then handleChmod K junk client_sfd argv session
         else if name = ''delete'' then handleDelete K junk client_sfd argv session
         else if name = ''move'' then handleMove K junk client_sfd argv session
         else if name = ''read'' then handleRead K junk client_sfd argv session
         else if name = ''write'' then handleWrite K junk client_sfd tb len session
         else if name = ''download'' then handleDownload K junk client_sfd argv session
         else if name = ''upload'' then handleUpload fuel K junk client_sfd argv session
         else if name = ''transfer_request'' then handleTransferRequest fuel K M client_sfd argv session
         else if name = ''accept'' then handleAcceptTransfer K M junk client_sfd argv session
         else if name = ''reject'' then handleRejectTransfer K M client_sfd argv session
         else reply K client_sfd (- 1) ''Command not found'' session)"
  by (simp add: run_command_def commands_def Let_def)

text \<open>
  The request is \<open>None\<close> when its length was 0: then \<open>payload\<close> is a null pointer,
  which \<open>strtok\<close> takes for "go on with the previous string".
\<close>

definition dispatchCommands ::
  "nat \<Rightarrow> 'w kernel \<Rightarrow> 'w shm \<Rightarrow> bytes \<Rightarrow> int \<Rightarrow> msg_header \<Rightarrow> bytes option \<Rightarrow> ClientSession \<Rightarrow> 'w client_command" where
  "dispatchCommands fuel K M junk client_sfd hdr payload session = (case payload of
       None \<Rightarrow> State_Monad.return Undefined
     | Some bs \<Rightarrow>
         (let tb = tokenizeCommand (bs @ [NUL])
          in if fst tb = [] then reply K client_sfd 0 ''Problems with command? add args'' session
             else run_command fuel K M junk client_sfd tb (payloadLength hdr) session))"

section \<open>The session loop\<close>

datatype round_result = Continue ClientSession | Break ClientSession

text \<open>
  One round of \<open>while (1)\<close>.  \<open>malloc(hdr.payloadLength + 1)\<close> is a 32 bit sum: for the
  largest length it asks for no memory at all, and the read overruns it.
\<close>

definition client_round ::
  "nat \<Rightarrow> 'w kernel \<Rightarrow> 'w shm \<Rightarrow> bytes \<Rightarrow> int \<Rightarrow> ClientSession \<Rightarrow> ('w, round_result outcome) sysprog" where
  "client_round fuel K M junk client_sfd session = do {
     flag \<leftarrow> call K (MemC FlagRead);
     _ \<leftarrow> (if flag \<noteq> 0 then do {
             _ \<leftarrow> check_for_notifications K M client_sfd session;
             call K (MemC FlagClear)
           } else State_Monad.return 0);
     (n, got) \<leftarrow> readAll K client_sfd 16;
     if n < 0 then do {
       e \<leftarrow> get_errno;
       State_Monad.return (Returned (if e = EINTR then Continue session else Break session))
     }
     else if n = 0 then State_Monad.return (Returned (Break session))
     else do {
       let hdr = dec_msg_header got;
       if payloadLength hdr + 1 = 0 then State_Monad.return Undefined else do {
       (m, body) \<leftarrow> (if payloadLength hdr = 0 then State_Monad.return (1, [])
                     else readAll K client_sfd (unat (payloadLength hdr)));
       if m \<le> 0 then State_Monad.return (Returned (Break session))
       else do {
         r \<leftarrow> dispatchCommands fuel K M junk client_sfd hdr
                (if payloadLength hdr = 0 then None else Some body) session;
         State_Monad.return (case r of Returned s \<Rightarrow> Returned (Continue s) | Exited \<Rightarrow> Exited
                             | Running \<Rightarrow> Running | Undefined \<Rightarrow> Undefined)
       }
       }
     }
   }"

fun client_loop ::
  "nat \<Rightarrow> 'w kernel \<Rightarrow> 'w shm \<Rightarrow> bytes \<Rightarrow> int \<Rightarrow> ClientSession \<Rightarrow> ('w, ClientSession outcome) sysprog" where
  "client_loop 0 K M junk client_sfd session = State_Monad.return Running"
| "client_loop (Suc fuel) K M junk client_sfd session = do {
     r \<leftarrow> client_round fuel K M junk client_sfd session;
     case r of
       Returned (Continue s) \<Rightarrow> client_loop fuel K M junk client_sfd s
     | Returned (Break s) \<Rightarrow> State_Monad.return (Returned s)
     | Exited \<Rightarrow> State_Monad.return Exited
     | Running \<Rightarrow> State_Monad.return Running
     | Undefined \<Rightarrow> State_Monad.return Undefined
   }"

text \<open>What the handler does when its client has gone.\<close>

definition end_session :: "'w kernel \<Rightarrow> 'w shm \<Rightarrow> int \<Rightarrow> ClientSession \<Rightarrow> ('w, unit) sysprog" where
  "end_session K M client_sfd session = do {
     _ \<leftarrow> (if sess_state session = STATE_LOGGED_IN then do {
             _ \<leftarrow> critical K M (\<lambda>r. ((), cleanup_user_requests (session_user session) r));
             pid \<leftarrow> call K (ProcC Getpid);
             critical K M (\<lambda>r. ((), unregister_user pid r))
           } else State_Monad.return ());
     _ \<leftarrow> call K (FdC (Close client_sfd));
     State_Monad.return ()
   }"

text \<open>
  \<open>SIGUSR1\<close> (10) gets the handler \<open>handle_sigusr1\<close>, which sets the flag that \<open>FlagRead\<close>
  reads; \<open>False\<close> is \<open>exit(1)\<close>.
\<close>

definition setup_signal_handling :: "'w kernel \<Rightarrow> ('w, bool) sysprog" where
  "setup_signal_handling K = do {
     sg \<leftarrow> call K (MemC (Sigaction 10));
     State_Monad.return (sg \<noteq> - 1)
   }"

definition handleClient :: "nat \<Rightarrow> 'w kernel \<Rightarrow> 'w shm \<Rightarrow> bytes \<Rightarrow> int \<Rightarrow> ('w, unit outcome) sysprog" where
  "handleClient fuel K M junk client_sfd = do {
     installed \<leftarrow> setup_signal_handling K;
     if \<not> installed then State_Monad.return Exited
     else do {
       r \<leftarrow> client_loop fuel K M junk client_sfd zero_session;
       case r of
         Returned s \<Rightarrow> do {
           _ \<leftarrow> end_session K M client_sfd s;
           State_Monad.return (Returned ())
         }
       | Exited \<Rightarrow> State_Monad.return Exited
       | Running \<Rightarrow> State_Monad.return Running
       | Undefined \<Rightarrow> State_Monad.return Undefined
     }
   }"

end
