(* ===== verification/Helper_Dispatch.thy ===== *)
theory Helper_Dispatch
  imports Helper_Main
begin

text \<open>
  The request loop of the helper (\<open>handleCommands\<close>), its set-up and its accept loop
  (\<open>src/src/server/helper/helper.c\<close>, lines 33 to 240).  A request is a header, the
  packed argument strings and the data that goes with a write; the dispatch on the
  command is \<open>handle_request\<close>.  Undefined behaviour of the C code (a missing
  argument that is dereferenced, argument strings that run past the payload) is the
  outcome \<open>Undefined\<close>.
\<close>

section \<open>The helper and its requests\<close>

record Helper =
  socket_fds :: int
  rootDir :: string

text \<open>\<open>realpath\<close> answers with the absolute path or fails; \<open>rootDir\<close> has 64 bytes.\<close>

definition CreateHelper :: "int \<Rightarrow> string option \<Rightarrow> Helper option" where
  "CreateHelper socket_fd absRoot =
     map_option (\<lambda>r. \<lparr>socket_fds = socket_fd, rootDir = take 63 r\<rparr>) absRoot"

definition lock_file_path_of :: "Helper \<Rightarrow> string" where
  "lock_file_path_of helper = take 4095 (rootDir helper @ ''/'' @ USER_CREATION_LOCK_FILENAME)"

fun decode_command :: "u32 \<Rightarrow> helper_commands option" where
  "decode_command c =
     find (\<lambda>k. command_code k = c)
       [CREATE_USER, LOGIN, CD, LS, CREATE_FILE, CHMOD, DELETE, MOVE, READ, WRITE, DOWNLOAD,
        UPLOAD, TRANSFER]"

text \<open>\<open>args[i]\<close>, a null pointer when there was no such argument.\<close>

definition arg :: "string list \<Rightarrow> nat \<Rightarrow> string option" where
  "arg args i = (if i < length args \<and> i < MAXARGS then Some (args ! i) else None)"

text \<open>\<open>mode_t mode = strtol(s, NULL, 8)\<close>.\<close>

definition octal_mode :: "string \<Rightarrow> u32" where
  "octal_mode s = word_of_int (strtol 8 s)"

text \<open>\<open>memset(&res, 0, sizeof(res)); res.cmd = hdr.cmd; res.status = -1;\<close>\<close>

definition initial_response :: "u32 \<Rightarrow> helper_response" where
  "initial_response cmd = \<lparr>res_status = - 1, res_payload_len = 0, res_msg = replicate RES_MSG NUL,
     res_cmd = cmd, res_data = replicate RES_DATA NUL\<rparr>"

definition create_user_request ::
  "'w kernel \<Rightarrow> Helper \<Rightarrow> int \<Rightarrow> string \<Rightarrow> string \<Rightarrow> helper_response \<Rightarrow> 'w handler" where
  "create_user_request K helper server_fd username mode res = do {
     c \<leftarrow> CreateSystemUser K (lock_file_path_of helper) (rootDir helper) username (octal_mode mode);
     case c of
       Returned (status, msg) \<Rightarrow> respond K server_fd ((set_msg msg res)\<lparr>res_status := status\<rparr>)
     | Exited \<Rightarrow> State_Monad.return Exited
     | Running \<Rightarrow> State_Monad.return Running
     | Undefined \<Rightarrow> State_Monad.return Undefined
   }"

text \<open>The \<open>switch\<close>; a null argument handed to a call that reads it is undefined.\<close>

definition handle_request ::
  "nat \<Rightarrow> 'w kernel \<Rightarrow> Helper \<Rightarrow> int \<Rightarrow> helper_request_header \<Rightarrow> string list \<Rightarrow> bytes \<Rightarrow> 'w handler" where
  "handle_request fuel K helper server_fd hdr args data =
     (let res = initial_response (req_cmd hdr);
          offset = sint (req_offset hdr)
      in case decode_command (req_cmd hdr) of
           None \<Rightarrow> respond K server_fd (copy_msg ''Command not available on the helper'' res)
         | Some LOGIN \<Rightarrow> handleHelperLogin K server_fd (arg args 0) res
         | Some cmd \<Rightarrow>
             (case (cmd, arg args 0, arg args 1, arg args 2, arg args 3) of
                (CREATE_USER, Some u, Some m, _, _) \<Rightarrow> create_user_request K helper server_fd u m res
              | (LS, Some p, _, _, _) \<Rightarrow> handleHelperLs fuel K server_fd hdr p (rootDir helper) res
              | (CD, Some p, _, _, _) \<Rightarrow> ChangeDirectory K server_fd hdr p res
              | (CREATE_FILE, Some p, Some m, d, _) \<Rightarrow>
                  (if 2 < req_argc hdr \<and> d = None then State_Monad.return Undefined
                   else HandlerHelperCreateFile K server_fd hdr p (octal_mode m)
                          (2 < req_argc hdr \<and> d = Some ''-d'') res)
              | (CHMOD, Some p, Some m, _, _) \<Rightarrow> HandleHelperChmod K server_fd hdr p (octal_mode m) res
              | (DELETE, Some p, _, _, _) \<Rightarrow> HandleHelperDelete K server_fd hdr p res
              | (MOVE, Some p, Some q, _, _) \<Rightarrow> HandleHelperMove K server_fd hdr p q res
              | (READ, Some p, _, _, _) \<Rightarrow> HandleHelperRead K server_fd hdr p offset res
              | (WRITE, Some p, _, _, _) \<Rightarrow>
                  HandleHelperWrite K server_fd hdr p offset data (req_data_len hdr) res
              | (DOWNLOAD, Some p, _, _, _) \<Rightarrow> HandleHelperDownload fuel K server_fd hdr p res
              | (UPLOAD, Some p, _, _, _) \<Rightarrow> HandleHelperUpload fuel K server_fd hdr p res
              | (TRANSFER, Some s, Some f, Some r, Some t) \<Rightarrow>
                  HandleHelperTransfer fuel K server_fd (rootDir helper) s f r t res
              | _ \<Rightarrow> State_Monad.return Undefined))"

section \<open>The loop\<close>

text \<open>\<open>readAll(fd, buf, len) <= 0\<close> ends the loop; nothing is read for length 0.\<close>

definition read_block :: "'w kernel \<Rightarrow> int \<Rightarrow> u32 \<Rightarrow> ('w, bytes option) sysprog" where
  "read_block K fd len =
     (if len = 0 then State_Monad.return (Some [])
      else do {
        (n, got) \<leftarrow> readAll K fd (unat len);
        State_Monad.return (if n \<le> 0 then None else Some got)
      })"

text \<open>One round: \<open>Returned True\<close> goes on, \<open>Returned False\<close> leaves the loop.\<close>

definition command_round :: "nat \<Rightarrow> 'w kernel \<Rightarrow> Helper \<Rightarrow> int \<Rightarrow> ('w, bool outcome) sysprog" where
  "command_round fuel K helper server_fds = do {
     (n, got) \<leftarrow> readAll K server_fds 2100;
     if n \<le> 0 then State_Monad.return (Returned False)
     else do {
       let hdr = dec_request_header got;
       payload \<leftarrow> read_block K server_fds (req_payload_len hdr);
       case payload of
         None \<Rightarrow> State_Monad.return (Returned False)
       | Some bs \<Rightarrow>
           (case args_of_payload (req_argc hdr) bs of
              None \<Rightarrow> State_Monad.return Undefined
            | Some args \<Rightarrow> do {
                data \<leftarrow> read_block K server_fds (req_data_len hdr);
                case data of
                  None \<Rightarrow> State_Monad.return (Returned False)
                | Some d \<Rightarrow> do {
                    r \<leftarrow> handle_request fuel K helper server_fds hdr args d;
                    State_Monad.return (case r of Returned _ \<Rightarrow> Returned True | Exited \<Rightarrow> Exited
                                        | Running \<Rightarrow> Running | Undefined \<Rightarrow> Undefined)
                  }
              })
     }
   }"

fun handleCommands :: "nat \<Rightarrow> 'w kernel \<Rightarrow> Helper \<Rightarrow> int \<Rightarrow> ('w, unit outcome) sysprog" where
  "handleCommands 0 K helper server_fds = State_Monad.return Running"
| "handleCommands (Suc fuel) K helper server_fds = do {
     r \<leftarrow> command_round fuel K helper server_fds;
     case r of
       Returned True \<Rightarrow> handleCommands fuel K helper server_fds
     | Returned False \<Rightarrow> State_Monad.return (Returned ())
     | Exited \<Rightarrow> State_Monad.return Exited
     | Running \<Rightarrow> State_Monad.return Running
     | Undefined \<Rightarrow> State_Monad.return Undefined
   }"

text \<open>The accept loop: the child serves one connection and exits, the parent goes on.\<close>

fun helper_accept_loop :: "nat \<Rightarrow> 'w kernel \<Rightarrow> Helper \<Rightarrow> ('w, unit outcome) sysprog" where
  "helper_accept_loop 0 K helper = State_Monad.return Running"
| "helper_accept_loop (Suc fuel) K helper = do {
     server_fds \<leftarrow> call K (NetC (Accept (socket_fds helper)));
     if server_fds < 0 then State_Monad.return (Returned ())
     else do {
       pid \<leftarrow> call K (ProcC Fork);
       if pid < 0 then do {
         _ \<leftarrow> call K (FdC (Close server_fds));
         helper_accept_loop fuel K helper
       }
       else if pid = 0 then do {
         _ \<leftarrow> call K (FdC (Close (socket_fds helper)));
         r \<leftarrow> handleCommands fuel K helper server_fds;
         case r of
           Returned _ \<Rightarrow> do {
             _ \<leftarrow> call K (FdC (Close server_fds));
             State_Monad.return Exited
           }
         | _ \<Rightarrow> State_Monad.return r
       }
       else do {
         _ \<leftarrow> call K (FdC (Close server_fds));
         helper_accept_loop fuel K helper
       }
     }
   }"

definition runHelperLoop :: "nat \<Rightarrow> 'w kernel \<Rightarrow> Helper \<Rightarrow> ('w, unit outcome) sysprog" where
  "runHelperLoop fuel K helper = do {
     test_fd \<leftarrow> call K (PathC (Open (lock_file_path_of helper) [O_CREAT, O_WRONLY] 0x180));
     if test_fd < 0 then State_Monad.return (Returned ())
     else do {
       _ \<leftarrow> call K (FdC (Close test_fd));
       helper_accept_loop fuel K helper
     }
   }"

end
