(* ===== verification/Server_Core.thy ===== *)
theory Server_Core
  imports Server_Session Helper_Dispatch
begin

text \<open>
  The server process (\<open>src/src/server/core/server.c\<close>, \<open>src/src/server/main.c\<close>, and
  the shared memory set-up of \<open>helper.c\<close>): creating the listening socket and the root
  directory, starting the helper, giving up root for good, accepting clients, and
  shutting down.
\<close>

section \<open>Shared memory\<close>

text \<open>\<open>exit(1)\<close> when a call fails; the counter keeps what the segment held.\<close>

definition clear_registry :: "SharedRegistry \<Rightarrow> SharedRegistry" where
  "clear_registry r = init_registry (global_id_counter r)"

definition REGISTRY_SIZE :: nat where
  "REGISTRY_SIZE = 20 * 28 + 20 * 304 + 8 + 32"

definition initSharedRegistry :: "'w kernel \<Rightarrow> 'w shm \<Rightarrow> ('w, unit outcome) sysprog" where
  "initSharedRegistry K M = do {
     fd \<leftarrow> call K (MemC Shm_open);
     if fd = - 1 then State_Monad.return Exited
     else do {
       t \<leftarrow> call K (MemC (Ftruncate fd REGISTRY_SIZE));
       if t = - 1 then State_Monad.return Exited
       else do {
         m \<leftarrow> call K (MemC (Mmap fd REGISTRY_SIZE));
         if m < 0 then State_Monad.return Exited
         else do {
           s \<leftarrow> call K (MemC SemInit);
           if s = - 1 then State_Monad.return Exited
           else do {
             _ \<leftarrow> on_registry M (\<lambda>r. ((), clear_registry r));
             State_Monad.return (Returned ())
           }
         }
       }
     }
   }"

text \<open>\<open>mapped\<close>: \<open>registry != NULL\<close>; the lock file's path is empty outside the helper.\<close>

definition SharedMemCleanup :: "'w kernel \<Rightarrow> bool \<Rightarrow> string \<Rightarrow> ('w, unit) sysprog" where
  "SharedMemCleanup K mapped lock_path = do {
     _ \<leftarrow> (if mapped then call K (MemC SemDestroy) else State_Monad.return 0);
     _ \<leftarrow> call K (MemC Shm_unlink);
     _ \<leftarrow> (if lock_path \<noteq> [] then call K (PathC (Unlink lock_path)) else State_Monad.return 0);
     _ \<leftarrow> call K (PathC (Unlink HELPER_SOCK_REL));
     State_Monad.return ()
   }"

section \<open>The server\<close>

record Server =
  Port :: int
  Root :: string
  Ip :: string
  sfd :: int

definition createRootDirectory :: "'w kernel \<Rightarrow> string \<Rightarrow> u32 \<Rightarrow> ('w, int) sysprog" where
  "createRootDirectory K pathname mode = do {
     m \<leftarrow> call K (PathC (Mkdir pathname mode));
     if m = - 1 then do {
       e \<leftarrow> get_errno;
       if e = EEXIST then do {
         st \<leftarrow> sys K (PathC (Stat pathname));
         State_Monad.return (if rv st = - 1 then - 1
                             else if \<not> S_ISDIR (st_mode (stat_out st)) then - 1 else 0)
       }
       else State_Monad.return (- 1)
     }
     else State_Monad.return 0
   }"

text \<open>\<open>Root[256]\<close>, \<open>Ip[16]\<close>; \<open>htons\<close> keeps 16 bits of the port.\<close>

definition createServer :: "'w kernel \<Rightarrow> string \<Rightarrow> int \<Rightarrow> string \<Rightarrow> ('w, Server option) sysprog" where
  "createServer K root port ip = do {
     let rootd = take 255 root;
     let ips = take 15 ip;
     s \<leftarrow> call K (NetC Socket_inet);
     if s < 0 then State_Monad.return None
     else do {
       r \<leftarrow> call K (NetC (Inet_pton ips));
       if r \<le> 0 then do { _ \<leftarrow> call K (FdC (Close s)); State_Monad.return None }
       else do {
         opt \<leftarrow> call K (NetC (Setsockopt_reuseaddr s));
         if opt < 0 then do { _ \<leftarrow> call K (FdC (Close s)); State_Monad.return None }
         else do {
           b \<leftarrow> call K (NetC (Bind_inet s ips (port mod 65536)));
           if b = - 1 then do { _ \<leftarrow> call K (FdC (Close s)); State_Monad.return None }
           else do {
             created \<leftarrow> createRootDirectory K rootd 0x1ED;
             State_Monad.return (if created < 0 then None
               else Some \<lparr>Port = port, Root = rootd, Ip = ips, sfd = s\<rparr>)
           }
         }
       }
     }
   }"

text \<open>
  \<open>select\<close> reports the readable descriptors: bit 0 of \<open>wait_out\<close> is standard input,
  bit 1 the listening socket.
\<close>

definition stdin_ready :: "sysres \<Rightarrow> bool" where
  "stdin_ready r \<longleftrightarrow> wait_out r mod 2 = 1"

definition socket_ready :: "sysres \<Rightarrow> bool" where
  "socket_ready r \<longleftrightarrow> wait_out r div 2 mod 2 = 1"

definition exit_command :: "sysres \<Rightarrow> bool" where
  "exit_command r \<longleftrightarrow> (case ent_out r of None \<Rightarrow> False
     | Some line \<Rightarrow> takeWhile (\<lambda>c. c \<noteq> CHR 0x0A) (c_str line) = ''exit'')"

text \<open>The child of the accept loop serves its client and exits.\<close>

definition serve_client :: "nat \<Rightarrow> 'w kernel \<Rightarrow> 'w shm \<Rightarrow> bytes \<Rightarrow> Server \<Rightarrow> int \<Rightarrow> ('w, int outcome) sysprog" where
  "serve_client fuel K M junk server client_sfd = do {
     _ \<leftarrow> call K (FdC (Close (sfd server)));
     r \<leftarrow> handleClient fuel K M junk client_sfd;
     case r of
       Returned _ \<Rightarrow> do {
         _ \<leftarrow> call K (FdC (Close client_sfd));
         State_Monad.return Exited
       }
     | Exited \<Rightarrow> State_Monad.return Exited
     | Running \<Rightarrow> State_Monad.return Running
     | Undefined \<Rightarrow> State_Monad.return Undefined
   }"

fun accept_loop :: "nat \<Rightarrow> 'w kernel \<Rightarrow> 'w shm \<Rightarrow> bytes \<Rightarrow> Server \<Rightarrow> ('w, int outcome) sysprog" where
  "accept_loop 0 K M junk server = State_Monad.return Running"
| "accept_loop (Suc fuel) K M junk server = do {
     s \<leftarrow> sys K (NetC (Select (sfd server)));
     if rv s < 0 then do {
       e \<leftarrow> get_errno;
       if e = EINTR then accept_loop fuel K M junk server else State_Monad.return (Returned 0)
     }
     else do {
       stop \<leftarrow> (if stdin_ready s then do {
                  l \<leftarrow> sys K (NetC (Fgets_stdin 256));
                  State_Monad.return (exit_command l)
                } else State_Monad.return False);
       if stop then State_Monad.return (Returned 0)
       else if \<not> socket_ready s then accept_loop fuel K M junk server
       else do {
         client_sfd \<leftarrow> call K (NetC (Accept (sfd server)));
         if client_sfd < 0 then accept_loop fuel K M junk server
         else do {
           pid \<leftarrow> call K (ProcC Fork);
           if pid = 0 then serve_client fuel K M junk server client_sfd
           else do {
             _ \<leftarrow> call K (FdC (Close client_sfd));
             accept_loop fuel K M junk server
           }
         }
       }
     }
   }"

definition startServer :: "nat \<Rightarrow> 'w kernel \<Rightarrow> 'w shm \<Rightarrow> bytes \<Rightarrow> Server \<Rightarrow> ('w, int outcome) sysprog" where
  "startServer fuel K M junk server = do {
     l \<leftarrow> call K (NetC (Listen (sfd server) 20));
     if l = - 1 then do {
       _ \<leftarrow> call K (FdC (Close (sfd server)));
       State_Monad.return (Returned (- 1))
     }
     else do {
       _ \<leftarrow> call K (ProcC (Sleep 1));
       accept_loop fuel K M junk server
     }
   }"

text \<open>The signal handler reaps all children that have ended.\<close>

fun sigchld_handler :: "nat \<Rightarrow> 'w kernel \<Rightarrow> ('w, unit outcome) sysprog" where
  "sigchld_handler 0 K = State_Monad.return Running"
| "sigchld_handler (Suc fuel) K = do {
     w \<leftarrow> sys K (ProcC Waitpid_nohang);
     if 0 < rv w then do {
       _ \<leftarrow> call K (FdC (Write 1 (take 99 (''Child '' @ show_int (rv w) @ '' exited with status ''
                  @ show_int (wait_out w) @ [CHR 0x0A]))));
       sigchld_handler fuel K
     }
     else State_Monad.return (Returned ())
   }"

text \<open>It is installed for \<open>SIGCHLD\<close> (17); \<open>False\<close> is \<open>exit(1)\<close>.\<close>

definition setup_sigchld :: "'w kernel \<Rightarrow> ('w, bool) sysprog" where
  "setup_sigchld K = do {
     sa \<leftarrow> call K (MemC (Sigaction 17));
     State_Monad.return (sa \<noteq> - 1)
   }"

section \<open>Identity\<close>

definition userLookUp :: "'w kernel \<Rightarrow> ('w, passwd option) sysprog" where
  "userLookUp K = do {
     v \<leftarrow> sys K (ProcC (Getenv ''SUDO_UID''));
     case ent_out v of
       None \<Rightarrow> State_Monad.return None
     | Some s \<Rightarrow> do {
         r \<leftarrow> sys K (ProcC (Getpwuid (word_of_int (atoi s))));
         State_Monad.return (pw_out r)
       }
   }"

definition dropPriviledges :: "'w kernel \<Rightarrow> passwd \<Rightarrow> ('w, int) sysprog" where
  "dropPriviledges K pw = do {
     u \<leftarrow> call K (CredC Getuid);
     if u = 0 then do {
       g \<leftarrow> call K (CredC (Setgid (pw_gid pw)));
       if g \<noteq> 0 then State_Monad.return (- 1)
       else do {
         s \<leftarrow> call K (CredC (Setuid (pw_uid pw)));
         State_Monad.return (if s \<noteq> 0 then - 1 else 0)
       }
     }
     else State_Monad.return 0
   }"

section \<open>Shutting down\<close>

fun kill_handlers :: "'w kernel \<Rightarrow> 'w shm \<Rightarrow> nat list \<Rightarrow> ('w, unit) sysprog" where
  "kill_handlers K M [] = State_Monad.return ()"
| "kill_handlers K M (i # is) = do {
     e \<leftarrow> on_registry M (\<lambda>r. (online_users r ! i, r));
     _ \<leftarrow> (if is_active e \<noteq> 0 then do {
             _ \<leftarrow> call K (ProcC (Kill (handler_pid e) SIGTERM));
             call K (ProcC (Waitpid (handler_pid e)))
           } else State_Monad.return 0);
     kill_handlers K M is
   }"

definition performFullCleanup :: "'w kernel \<Rightarrow> 'w shm \<Rightarrow> Server \<Rightarrow> int \<Rightarrow> ('w, unit) sysprog" where
  "performFullCleanup K M server helperPid = do {
     _ \<leftarrow> (if 0 < helperPid then call K (ProcC (Kill helperPid SIGTERM)) else State_Monad.return 0);
     _ \<leftarrow> call K (MemC SemWait);
     _ \<leftarrow> kill_handlers K M [0..<MAX_USERS];
     _ \<leftarrow> call K (MemC SemPost);
     _ \<leftarrow> SharedMemCleanup K True [];
     _ \<leftarrow> call K (FdC (Close (sfd server)));
     State_Monad.return ()
   }"

section \<open>\<open>main\<close>\<close>

text \<open>The command line: root directory, address and port, or the usage message.\<close>

definition main_args :: "string list \<Rightarrow> (string \<times> string \<times> int) option" where
  "main_args argv =
     (if length argv < 2 \<or> argv ! 1 = [] then None
      else Some (argv ! 1,
        if 3 \<le> length argv \<and> argv ! 2 \<noteq> [] then argv ! 2 else ''127.0.0.1'',
        if 4 \<le> length argv \<and> argv ! 3 \<noteq> [] then atoi (argv ! 3) else 8080))"

text \<open>The helper's side of the fork.\<close>

definition helper_process :: "nat \<Rightarrow> 'w kernel \<Rightarrow> Server \<Rightarrow> int \<Rightarrow> u32 \<Rightarrow> Helper option \<Rightarrow> ('w, int outcome) sysprog" where
  "helper_process fuel K server listen_fd gid helper = do {
     _ \<leftarrow> call K (FdC (Close (sfd server)));
     g \<leftarrow> call K (CredC (Setgid gid));
     if g \<noteq> 0 then State_Monad.return Exited
     else (case helper of
         None \<Rightarrow> State_Monad.return Undefined
       | Some h \<Rightarrow> do {
           r \<leftarrow> runHelperLoop fuel K h;
           case r of
             Returned _ \<Rightarrow> do {
               _ \<leftarrow> call K (FdC (Close listen_fd));
               State_Monad.return Exited
             }
           | Exited \<Rightarrow> State_Monad.return Exited
           | Running \<Rightarrow> State_Monad.return Running
           | Undefined \<Rightarrow> State_Monad.return Undefined
         })
   }"

text \<open>The server's side: into the root, out of root's identity, then the accept loop.\<close>

definition server_process ::
  "nat \<Rightarrow> 'w kernel \<Rightarrow> 'w shm \<Rightarrow> bytes \<Rightarrow> string \<Rightarrow> passwd \<Rightarrow> u32 \<Rightarrow> Server \<Rightarrow> int \<Rightarrow> int \<Rightarrow> ('w, int outcome) sysprog" where
  "server_process fuel K M junk root_dir pw gid server listen_fd helperPid = do {
     _ \<leftarrow> call K (FdC (Close listen_fd));
     installed \<leftarrow> setup_sigchld K;
     if \<not> installed then State_Monad.return Exited
     else do {
       c \<leftarrow> call K (CredC (Chroot root_dir));
       if c < 0 then State_Monad.return (Returned 1)
       else do {
         d \<leftarrow> call K (CredC (Chdir ''/''));
         if d < 0 then State_Monad.return (Returned 1)
         else do {
           p \<leftarrow> dropPriviledges K (pw\<lparr>pw_gid := gid\<rparr>);
           if p = - 1 then State_Monad.return (Returned 1)
           else do {
             status \<leftarrow> startServer fuel K M junk server;
             case status of
               Returned s \<Rightarrow>
                 if s < 0 then State_Monad.return (Returned 1)
                 else do {
                   _ \<leftarrow> performFullCleanup K M server helperPid;
                   State_Monad.return (Returned 0)
                 }
             | _ \<Rightarrow> State_Monad.return status
           }
         }
       }
     }
   }"

text \<open>\<open>realpath\<close> is the last argument: the absolute path of the root, if there is one.\<close>

definition main ::
  "nat \<Rightarrow> 'w kernel \<Rightarrow> 'w shm \<Rightarrow> bytes \<Rightarrow> string list \<Rightarrow> (string \<Rightarrow> string option) \<Rightarrow> ('w, int outcome) sysprog" where
  "main fuel K M junk argv realpath = (case main_args argv of
       None \<Rightarrow> State_Monad.return (Returned 1)
     | Some (root_dir, ip, port) \<Rightarrow> do {
         pwo \<leftarrow> userLookUp K;
         case pwo of
           None \<Rightarrow> State_Monad.return (Returned 1)
         | Some pw \<Rightarrow> do {
             gr \<leftarrow> call K (ProcC (Getgrnam ''myServerG''));
             let gid = (if gr < 0 then pw_gid pw else word_of_int gr);
             so \<leftarrow> createServer K root_dir port ip;
             case so of
               None \<Rightarrow> State_Monad.return (Returned 1)
             | Some server \<Rightarrow> do {
                 let socket_dir = Root server @ ''/tmp'';
                 c \<leftarrow> createRootDirectory K socket_dir 0x1F8;
                 if c < 0 then State_Monad.return (Returned 1)
                 else do {
                   m \<leftarrow> call K (PathC (Chmod socket_dir 0x1F8));
                   if m < 0 then State_Monad.return (Returned 1)
                   else do {
                     g \<leftarrow> call K (PathC (Chgrp socket_dir gid));
                     if g < 0 then State_Monad.return (Returned 1)
                     else do {
                       listen_fd \<leftarrow> createUnixSocket K (Root server) gid;
                       if listen_fd < 0 then State_Monad.return (Returned 1)
                       else do {
                         _ \<leftarrow> SharedMemCleanup K False [];
                         i \<leftarrow> initSharedRegistry K M;
                         if i = Exited then State_Monad.return Exited
                         else do {
                           pid \<leftarrow> call K (ProcC Fork);
                           if pid < 0 then State_Monad.return (Returned 1)
                           else if pid = 0 then
                             helper_process fuel K server listen_fd gid
                               (CreateHelper listen_fd (realpath root_dir))
                           else server_process fuel K M junk root_dir pw gid server listen_fd pid
                         }
                       }
                     }
                   }
                 }
               }
           }
       })"

end
