(* ===== verification/Unix_Kernel.thy ===== *)
theory Unix_Kernel
  imports Server_Core Client
begin

text \<open>
  One concrete kernel: a file tree in memory, a table of open descriptors, root and
  working directory of the process, its file mode creation mask, stream sockets that hand bytes out and take
  them in pieces whose sizes a schedule decides, and a terminal.  A file or directory that is created gets the mode it is asked for without the bits
  of the mask (no program here changes the mask: \<open>umask\<close> is never called).  Permissions are not
  checked: a mode is data here, and a call that the modes would refuse succeeds.  It
  provides the interfaces of \<open>Stream_IO\<close> (a socket is a byte source and a byte
  sink), it is what the functional theorems on the handlers are about, and the
  witnesses run on it.
\<close>

section \<open>The world\<close>

type_synonym fs_path = "string list"

datatype node = File bytes u32 | Dir u32

record unix =
  fs :: "(fs_path \<times> node) list"
  fdt :: "(int \<times> fs_path \<times> nat) list"
  next_fd :: int
  uroot :: fs_path
  ucwd :: fs_path
  umask :: u32
  users :: "(string \<times> passwd) list"
  socks :: "int list"
  sock_in :: "int \<Rightarrow> bytes"
  sock_out :: "int \<Rightarrow> bytes"
  sched :: "nat list"
  shared :: SharedRegistry
  sigflag :: bool
  my_pid :: int
  tty :: "string list"
  screen :: string
  cflags :: client_flags
  fork_ret :: int
  data_port :: int
  started :: "(bool \<times> int \<times> string \<times> u8) list"

fun split_slash :: "string \<Rightarrow> string list" where
  "split_slash [] = [[]]"
| "split_slash (c # s) =
     (if c = CHR ''/'' then [] # split_slash s
      else (case split_slash s of [] \<Rightarrow> [[c]] | w # ws \<Rightarrow> (c # w) # ws))"

text \<open>Walking a path from the directory \<open>rev acc\<close>; \<open>..\<close> at the top stays there.\<close>

fun walk :: "fs_path \<Rightarrow> string list \<Rightarrow> fs_path" where
  "walk acc [] = rev acc"
| "walk acc (c # cs) =
     (if c = [] \<or> c = ''.'' then walk acc cs
      else if c = ''..'' then walk (tl acc) cs
      else walk (c # acc) cs)"

definition abs_path :: "unix \<Rightarrow> string \<Rightarrow> fs_path" where
  "abs_path w p = uroot w @
     walk (if has_prefix ''/'' p then [] else rev (ucwd w)) (split_slash p)"

definition node_at :: "unix \<Rightarrow> fs_path \<Rightarrow> node option" where
  "node_at w q = map_of (fs w) q"

definition fs_set :: "fs_path \<Rightarrow> node \<Rightarrow> unix \<Rightarrow> unix" where
  "fs_set q n w = w\<lparr>fs := (q, n) # filter (\<lambda>x. fst x \<noteq> q) (fs w)\<rparr>"

definition fs_del :: "fs_path \<Rightarrow> unix \<Rightarrow> unix" where
  "fs_del q w = w\<lparr>fs := filter (\<lambda>x. fst x \<noteq> q) (fs w)\<rparr>"

definition is_dir :: "unix \<Rightarrow> fs_path \<Rightarrow> bool" where
  "is_dir w q \<longleftrightarrow> (case node_at w q of Some (Dir m) \<Rightarrow> True | _ \<Rightarrow> False)"

definition children :: "unix \<Rightarrow> fs_path \<Rightarrow> string list" where
  "children w q = map (\<lambda>x. last (fst x)) (filter (\<lambda>x. fst x \<noteq> [] \<and> butlast (fst x) = q) (fs w))"

definition node_stat :: "node \<Rightarrow> stat_buf" where
  "node_stat n = (case n of File c m \<Rightarrow> \<lparr>st_mode = or 0x8000 m, st_size = int (length c)\<rparr>
     | Dir m \<Rightarrow> \<lparr>st_mode = or 0x4000 m, st_size = 0\<rparr>)"

definition new_fd :: "fs_path \<Rightarrow> unix \<Rightarrow> sysres \<times> unix" where
  "new_fd q w = (res_val (next_fd w), w\<lparr>fdt := (next_fd w, q, 0) # fdt w, next_fd := next_fd w + 1\<rparr>)"

text \<open>The mode of a file that is created, and \<open>open\<close> of the absolute path \<open>q\<close>.\<close>

abbreviation creation_mode :: "unix \<Rightarrow> u32 \<Rightarrow> u32" where
  "creation_mode w mode \<equiv> and mode (not (umask w))"

definition open_at :: "fs_path \<Rightarrow> oflag list \<Rightarrow> u32 \<Rightarrow> unix \<Rightarrow> sysres \<times> unix" where
  "open_at q fl mode w = (case node_at w q of
       None \<Rightarrow> if O_CREAT \<in> set fl \<and> q \<noteq> [] \<and> is_dir w (butlast q) then new_fd q (fs_set q (File [] (creation_mode w mode)) w)
               else (res_err ENOENT, w)
     | Some (Dir m) \<Rightarrow> if fl = [O_RDONLY] \<or> O_DIRECTORY \<in> set fl then new_fd q w else (res_err EISDIR, w)
     | Some (File c m) \<Rightarrow>
         if O_DIRECTORY \<in> set fl then (res_err ENOTDIR, w)
         else new_fd q (if O_TRUNC \<in> set fl then fs_set q (File [] m) w else w))"

section \<open>The calls\<close>

fun unix_path :: "unix \<Rightarrow> path_call \<Rightarrow> sysres \<times> unix" where
  "unix_path w (Open p fl m) = open_at (abs_path w p) fl m w"
| "unix_path w (Openat d p fl m) = (case map_of (fdt w) d of
       None \<Rightarrow> (res_err 9, w)
     | Some (q, _) \<Rightarrow>
         open_at (uroot w @ walk (if has_prefix ''/'' p then [] else rev (drop (length (uroot w)) q))
                    (split_slash p)) fl m w)"
| "unix_path w (Stat p) = (case node_at w (abs_path w p) of
       None \<Rightarrow> (res_err ENOENT, w) | Some n \<Rightarrow> ((res_val 0)\<lparr>stat_out := node_stat n\<rparr>, w))"
| "unix_path w (Mkdir p m) = (let q = abs_path w p in
     if node_at w q \<noteq> None then (res_err EEXIST, w)
     else if q \<noteq> [] \<and> is_dir w (butlast q) then (res_val 0, fs_set q (Dir (creation_mode w m)) w)
     else (res_err ENOENT, w))"
| "unix_path w (Rmdir p) = (let q = abs_path w p in
     if \<not> is_dir w q then (res_err ENOTDIR, w)
     else if children w q \<noteq> [] then (res_err ENOTEMPTY, w)
     else (res_val 0, fs_del q w))"
| "unix_path w (Unlink p) = (let q = abs_path w p in
     (case node_at w q of None \<Rightarrow> (res_err ENOENT, w) | Some (Dir m) \<Rightarrow> (res_err EISDIR, w)
      | Some (File c m) \<Rightarrow> (res_val 0, fs_del q w)))"
| "unix_path w (Rename p p') = (let q = abs_path w p; q' = abs_path w p' in
     (case node_at w q of None \<Rightarrow> (res_err ENOENT, w)
      | Some n \<Rightarrow> if q' \<noteq> [] \<and> is_dir w (butlast q')
                  then (res_val 0, w\<lparr>fs := map (\<lambda>x. if take (length q) (fst x) = q
                           then (q' @ drop (length q) (fst x), snd x) else x)
                           (filter (\<lambda>x. fst x \<noteq> q') (fs w))\<rparr>)
                  else (res_err ENOENT, w)))"
| "unix_path w (Chmod p m) = (let q = abs_path w p in
     (case node_at w q of None \<Rightarrow> (res_err ENOENT, w) | Some (Dir _) \<Rightarrow> (res_val 0, fs_set q (Dir m) w)
      | Some (File c _) \<Rightarrow> (res_val 0, fs_set q (File c m) w)))"
| "unix_path w (Chown p u g) = (case node_at w (abs_path w p) of None \<Rightarrow> (res_err ENOENT, w) | Some _ \<Rightarrow> (res_val 0, w))"
| "unix_path w (Chgrp p g) = (case node_at w (abs_path w p) of None \<Rightarrow> (res_err ENOENT, w) | Some _ \<Rightarrow> (res_val 0, w))"
| "unix_path w (Opendir p) = (let q = abs_path w p in
     if is_dir w q then new_fd q w else (res_err ENOTDIR, w))"

text \<open>How many of \<open>n\<close> bytes the next transfer on a socket moves: at least one.\<close>

definition piece :: "unix \<Rightarrow> nat \<Rightarrow> nat" where
  "piece w n = (case sched w of [] \<Rightarrow> n | k # _ \<Rightarrow> min n (Suc k))"

definition overwrite :: "bytes \<Rightarrow> nat \<Rightarrow> bytes \<Rightarrow> bytes" where
  "overwrite old pos bs = take pos old @ bs @ drop (pos + length bs) old"

definition set_pos :: "int \<Rightarrow> fs_path \<Rightarrow> nat \<Rightarrow> unix \<Rightarrow> unix" where
  "set_pos fd q n w = w\<lparr>fdt := (fd, q, n) # filter (\<lambda>x. fst x \<noteq> fd) (fdt w)\<rparr>"

fun unix_fd :: "unix \<Rightarrow> fd_call \<Rightarrow> sysres \<times> unix" where
  "unix_fd w (Close fd) =
     (if fd \<in> set (socks w) then (res_val 0, w)
      else if map_of (fdt w) fd = None then (res_err 9, w)
      else (res_val 0, w\<lparr>fdt := filter (\<lambda>x. fst x \<noteq> fd) (fdt w)\<rparr>))"
| "unix_fd w (Read fd n) =
     (if fd \<in> set (socks w) then
        (let k = piece w (min n (length (sock_in w fd))) in
         ((res_val (int k))\<lparr>out := take k (sock_in w fd)\<rparr>,
          w\<lparr>sock_in := (sock_in w)(fd := drop k (sock_in w fd)), sched := tl (sched w)\<rparr>))
      else (case map_of (fdt w) fd of
          Some (q, pos) \<Rightarrow> (case node_at w q of
              Some (File c m) \<Rightarrow>
                (let bs = take n (drop pos c) in
                 ((res_val (int (length bs)))\<lparr>out := bs\<rparr>, set_pos fd q (pos + length bs) w))
            | _ \<Rightarrow> (res_err EISDIR, w))
        | None \<Rightarrow> (res_err 9, w)))"
| "unix_fd w (Write fd bs) =
     (if fd \<in> set (socks w) then
        (let k = piece w (length bs) in
         (res_val (int k), w\<lparr>sock_out := (sock_out w)(fd := sock_out w fd @ take k bs), sched := tl (sched w)\<rparr>))
      else (case map_of (fdt w) fd of
          Some (q, pos) \<Rightarrow> (case node_at w q of
              Some (File c m) \<Rightarrow>
                (res_val (int (length bs)),
                 set_pos fd q (pos + length bs) (fs_set q (File (overwrite c pos bs) m) w))
            | _ \<Rightarrow> (res_err EISDIR, w))
        | None \<Rightarrow> (res_err 9, w)))"
| "unix_fd w (Lseek fd i wh) = (case map_of (fdt w) fd of
       None \<Rightarrow> (res_err 9, w)
     | Some (q, pos) \<Rightarrow>
         (let j = (case wh of SEEK_SET \<Rightarrow> i
                   | SEEK_END \<Rightarrow> i + (case node_at w q of Some n \<Rightarrow> st_size (node_stat n) | None \<Rightarrow> 0)) in
          if j < 0 then (res_err EINVAL, w) else (res_val j, set_pos fd q (nat j) w)))"
| "unix_fd w (Fstat fd) = (case map_of (fdt w) fd of
       None \<Rightarrow> (res_err 9, w)
     | Some (q, pos) \<Rightarrow> (case node_at w q of None \<Rightarrow> (res_err ENOENT, w)
                        | Some n \<Rightarrow> ((res_val 0)\<lparr>stat_out := node_stat n\<rparr>, w)))"
| "unix_fd w (Readdir fd) = (case map_of (fdt w) fd of
       None \<Rightarrow> (res_err 9, w)
     | Some (q, pos) \<Rightarrow>
         (let names = ''.'' # ''..'' # children w q in
          if pos < length names then ((res_val 0)\<lparr>ent_out := Some (names ! pos)\<rparr>, set_pos fd q (Suc pos) w)
          else (res_val 0, w)))"
| "unix_fd w (Closedir fd) = (res_val 0, w\<lparr>fdt := filter (\<lambda>x. fst x \<noteq> fd) (fdt w)\<rparr>)"
| "unix_fd w (Fchown fd u g) = (res_val 0, w)"
| "unix_fd w (Setlkw fd k) = (res_val 0, w)"
| "unix_fd w (Setlk fd k) = (res_val 0, w)"

fun join_slash :: "string list \<Rightarrow> string" where
  "join_slash [] = ''/''"
| "join_slash [c] = CHR ''/'' # c"
| "join_slash (c # cs) = CHR ''/'' # c @ join_slash cs"

fun unix_cred :: "unix \<Rightarrow> cred_call \<Rightarrow> sysres \<times> unix" where
  "unix_cred w (Chroot d) = (let q = abs_path w d in
     if is_dir w q then (res_val 0, w\<lparr>uroot := q\<rparr>) else (res_err ENOENT, w))"
| "unix_cred w (Chdir d) = (let q = abs_path w d in
     if is_dir w q then (res_val 0, w\<lparr>ucwd := drop (length (uroot w)) q\<rparr>) else (res_err ENOENT, w))"
| "unix_cred w (Getcwd n) = ((res_val 0)\<lparr>out := join_slash (ucwd w)\<rparr>, w)"
| "unix_cred w _ = (res_val 0, w)"

fun unix_proc :: "unix \<Rightarrow> proc_call \<Rightarrow> sysres \<times> unix" where
  "unix_proc w (Getpwnam u) = ((res_val 0)\<lparr>pw_out := map_of (users w) u\<rparr>, w)"
| "unix_proc w Getpid = (res_val (my_pid w), w)"
| "unix_proc w Fork = (if fork_ret w < 0 then (res_err 11, w) else (res_val (fork_ret w), w))"
| "unix_proc w _ = (res_val 0, w)"

text \<open>
  A connection to the helper is the socket 4, an internet socket that is opened is 6, and
  the connection it accepts 7.  The lines typed at the terminal are those of \<open>tty\<close>, the
  threads a client has started for a transfer those of \<open>started\<close>.
\<close>

fun unix_net :: "unix \<Rightarrow> net_call \<Rightarrow> sysres \<times> unix" where
  "unix_net w Socket_unix = (res_val 4, w)"
| "unix_net w (Connect_unix fd p) = (res_val 0, w)"
| "unix_net w (Fgets_stdin n) = (case tty w of [] \<Rightarrow> (res_val 0, w)
     | l # ls \<Rightarrow> ((res_val 0)\<lparr>ent_out := Some l\<rparr>, w\<lparr>tty := ls\<rparr>))"
| "unix_net w Socket_inet = (res_val 6, w)"
| "unix_net w (Inet_pton ip) = (res_val 1, w)"
| "unix_net w (Connect_inet fd ip port) = (res_val 0, w)"
| "unix_net w (Bind_any fd) = (res_val 0, w)"
| "unix_net w (Listen fd n) = (res_val 0, w)"
| "unix_net w (Getsockname fd) = ((res_val 0)\<lparr>wait_out := data_port w\<rparr>, w)"
| "unix_net w (Accept fd) = (res_val 7, w)"
| "unix_net w _ = (res_err EINVAL, w)"

fun unix_mem :: "unix \<Rightarrow> mem_call \<Rightarrow> sysres \<times> unix" where
  "unix_mem w FlagRead = (res_val (if sigflag w then 1 else 0), w)"
| "unix_mem w FlagClear = (res_val 0, w\<lparr>sigflag := False\<rparr>)"
| "unix_mem w _ = (res_val 0, w)"

text \<open>Streams of the C library are descriptors here; a new file is asked for with the mode 0666.
  Both standard streams are the terminal.\<close>

fun unix_stdio :: "unix \<Rightarrow> stdio_call \<Rightarrow> sysres \<times> unix" where
  "unix_stdio w (Fopen p m) =
     open_at (abs_path w p) (if m = ''rb'' then [O_RDONLY] else [O_WRONLY, O_CREAT, O_TRUNC]) 0x1B6 w"
| "unix_stdio w (Fread fd n) = unix_fd w (Read fd n)"
| "unix_stdio w (Fwrite fd bs) = unix_fd w (Write fd bs)"
| "unix_stdio w (Fclose fd) = unix_fd w (Close fd)"
| "unix_stdio w (Puts s) = (res_val 0, w\<lparr>screen := screen w @ s\<rparr>)"
| "unix_stdio w (Thread_create up port path bg) = (res_val 0, w\<lparr>started := started w @ [(up, port, path, bg)]\<rparr>)"
| "unix_stdio w (Eputs s) = (res_val 0, w\<lparr>screen := screen w @ s\<rparr>)"
| "unix_stdio w _ = (res_val 0, w)"

fun unix_kernel :: "unix kernel" where
  "unix_kernel w (PathC c) = unix_path w c"
| "unix_kernel w (FdC c) = unix_fd w c"
| "unix_kernel w (CredC c) = unix_cred w c"
| "unix_kernel w (ProcC c) = unix_proc w c"
| "unix_kernel w (NetC c) = unix_net w c"
| "unix_kernel w (MemC c) = unix_mem w c"
| "unix_kernel w (StdioC c) = unix_stdio w c"

definition unix_shm :: "unix shm" where
  "unix_shm = \<lparr>shm_get = shared, shm_put = (\<lambda>r w. w\<lparr>shared := r\<rparr>)\<rparr>"

definition unix_flags :: "unix flags" where
  "unix_flags = \<lparr>fl_get = cflags, fl_put = (\<lambda>f w. w\<lparr>cflags := f\<rparr>)\<rparr>"

section \<open>Sockets are byte sources and byte sinks\<close>

lemma piece_le: "piece w n \<le> n"
  by (simp add: piece_def split: list.split)

lemma piece_pos: "0 < n \<Longrightarrow> 0 < piece w n"
  by (simp add: piece_def split: list.split)

text \<open>What a transfer on \<open>fd\<close> leaves alone.\<close>

definition but_in :: "int \<Rightarrow> unix \<Rightarrow> unix" where
  "but_in fd w = w\<lparr>sock_in := (sock_in w)(fd := []), sched := []\<rparr>"

definition but_out :: "int \<Rightarrow> unix \<Rightarrow> unix" where
  "but_out fd w = w\<lparr>sock_out := (sock_out w)(fd := []), sched := []\<rparr>"

interpretation usrc: byte_source unix_kernel fd "\<lambda>w. sock_in w fd" "but_in fd" "\<lambda>w. fd \<in> set (socks w)" for fd
proof
  fix w w' :: unix and n :: nat and r :: sysres
  assume ok: "fd \<in> set (socks w)"
  show "0 < rv r \<and> rv r \<le> int n \<and> nat (rv r) \<le> length (sock_in w fd) \<and>
      out r = take (nat (rv r)) (sock_in w fd) \<and> sock_in w' fd = drop (nat (rv r)) (sock_in w fd)"
    if "0 < n" "sock_in w fd \<noteq> []" "unix_kernel w (FdC (Read fd n)) = (r, w')"
    using that ok piece_le [of w "min n (length (sock_in w fd))"]
      piece_pos [of "min n (length (sock_in w fd))" w]
    by (auto simp: Let_def)
  show "rv r = 0 \<and> sock_in w' fd = []"
    if "0 < n" "sock_in w fd = []" "unix_kernel w (FdC (Read fd n)) = (r, w')"
    using that ok piece_le [of w 0] by (auto simp: Let_def)
  show "but_in fd w' = but_in fd w \<and> fd \<in> set (socks w')"
    if "unix_kernel w (FdC (Read fd n)) = (r, w')"
    using that ok by (auto simp: Let_def but_in_def)
qed

interpretation usnk: byte_sink unix_kernel fd "\<lambda>w. sock_out w fd" "but_out fd" "\<lambda>w. fd \<in> set (socks w)" for fd
proof
  fix w w' :: unix and bs :: bytes and r :: sysres
  assume ok: "fd \<in> set (socks w)"
  show "0 < rv r \<and> nat (rv r) \<le> length bs \<and> sock_out w' fd = sock_out w fd @ take (nat (rv r)) bs"
    if "bs \<noteq> []" "unix_kernel w (FdC (Write fd bs)) = (r, w')"
    using that ok piece_le [of w "length bs"] piece_pos [of "length bs" w] by (auto simp: Let_def)
  show "but_out fd w' = but_out fd w \<and> fd \<in> set (socks w')"
    if "unix_kernel w (FdC (Write fd bs)) = (r, w')"
    using that ok by (auto simp: Let_def but_out_def)
qed

text \<open>The loops as rules for programs on this kernel.\<close>

lemma but_out_eq:
  "but_out fd w' = but_out fd w \<Longrightarrow> sock_out w' fd = s \<Longrightarrow>
   w' = w\<lparr>sock_out := (sock_out w)(fd := s), sched := sched w'\<rparr>"
  by (drule arg_cong [where f = "\<lambda>u. u\<lparr>sock_out := (sock_out u)(fd := s), sched := sched w'\<rparr>"])
    (auto simp: but_out_def)

lemma but_in_eq:
  "but_in fd w' = but_in fd w \<Longrightarrow> sock_in w' fd = s \<Longrightarrow>
   w' = w\<lparr>sock_in := (sock_in w)(fd := s), sched := sched w'\<rparr>"
  by (drule arg_cong [where f = "\<lambda>u. u\<lparr>sock_in := (sock_in u)(fd := s), sched := sched w'\<rparr>"])
    (auto simp: but_in_def)

lemma wp_unix_writeAll:
  assumes "fd \<in> set (socks (world p))"
    and "\<And>p' sc. world p' = (world p)\<lparr>sock_out := (sock_out (world p))(fd := sock_out (world p) fd @ bs), sched := sc\<rparr> \<Longrightarrow>
           Q (int (length bs)) p'"
  shows "wp (writeAll unix_kernel fd bs) Q p"
proof (rule usnk.writeAll_sink [of fd p bs])
  fix p'
  assume "run_state (writeAll unix_kernel fd bs) p = (int (length bs), p')"
    "sock_out (world p') fd = sock_out (world p) fd @ bs" "but_out fd (world p') = but_out fd (world p)"
  then show ?thesis
    using assms(2) [of p' "sched (world p')"] but_out_eq by (simp add: wp_def)
qed (rule assms(1))

lemma wp_unix_readAll:
  assumes "fd \<in> set (socks (world p))" "n \<le> length (sock_in (world p) fd)"
    and "\<And>p' sc. world p' = (world p)\<lparr>sock_in := (sock_in (world p))(fd := drop n (sock_in (world p) fd)), sched := sc\<rparr> \<Longrightarrow>
           Q (int n, take n (sock_in (world p) fd)) p'"
  shows "wp (readAll unix_kernel fd n) Q p"
proof (rule usrc.readAll_enough [of fd p n])
  fix p'
  assume "run_state (readAll unix_kernel fd n) p = ((int n, take n (sock_in (world p) fd)), p')"
    "sock_in (world p') fd = drop n (sock_in (world p) fd)" "but_in fd (world p') = but_in fd (world p)"
  then show ?thesis
    using assms(3) [of p' "sched (world p')"] but_in_eq by (simp add: wp_def)
qed (use assms in auto)

lemma wp_unix_sys [wp_simps]:
  "wp (sys unix_kernel c) Q p \<longleftrightarrow>
     Q (fst (unix_kernel (world p) c)) (after_call p c (fst (unix_kernel (world p) c)) (snd (unix_kernel (world p) c)))"
  by (simp add: wp_def run_sys)

lemma wp_unix_call [wp_simps]:
  "wp (call unix_kernel c) Q p \<longleftrightarrow>
     Q (rv (fst (unix_kernel (world p) c)))
       (after_call p c (fst (unix_kernel (world p) c)) (snd (unix_kernel (world p) c)))"
  by (simp add: wp_def run_call)

section \<open>Paths stay below the root\<close>

lemma abs_path_below: "take (length (uroot w)) (abs_path w p) = uroot w"
  by (simp add: abs_path_def)

end
