(* ===== verification/Helper_Semantics.thy ===== *)
theory Helper_Semantics
  imports Unix_Kernel
begin

text \<open>
  What the file handlers do to the file tree and what they answer, on the kernel of
  \<open>Unix_Kernel\<close>, for every fragmentation of the connection.
\<close>

section \<open>Symbolic execution\<close>

text \<open>
  Congruences that keep the simplifier in the first step of a program until its
  answer is known: what comes after is not looked at under the binder.
\<close>

lemma wp_weak_cong: "m = m' \<Longrightarrow> p = p' \<Longrightarrow> wp m Q p = wp m' Q p'"
  by simp

lemma bind_weak_cong: "m = m' \<Longrightarrow> State_Monad.bind m f = State_Monad.bind m' f"
  by simp

lemmas step_congs = wp_weak_cong bind_weak_cong

text \<open>One call: only the world after it is kept.\<close>

lemma wp_unix_sysI:
  "(\<And>p'. world p' = snd (unix_kernel (world p) c) \<Longrightarrow> Q (fst (unix_kernel (world p) c)) p') \<Longrightarrow>
   wp (sys unix_kernel c) Q p"
  by (simp add: wp_unix_sys)

lemma wp_unix_callI:
  "(\<And>p'. world p' = snd (unix_kernel (world p) c) \<Longrightarrow> Q (rv (fst (unix_kernel (world p) c))) p') \<Longrightarrow>
   wp (call unix_kernel c) Q p"
  by (simp add: wp_unix_call)

lemmas prog_simps = wp_bind wp_return wp_if

section \<open>Entering and leaving the sandbox\<close>

definition home_root :: "unix \<Rightarrow> ClientSession \<Rightarrow> unix" where
  "home_root w s = w\<lparr>uroot := abs_path w (session_home s)\<rparr>"

definition in_home :: "unix \<Rightarrow> ClientSession \<Rightarrow> unix" where
  "in_home w s = (home_root w s)\<lparr>ucwd :=
     drop (length (uroot (home_root w s))) (abs_path (home_root w s) (session_workdir s))\<rparr>"

definition sandboxable :: "unix \<Rightarrow> ClientSession \<Rightarrow> bool" where
  "sandboxable w s \<longleftrightarrow> is_dir w (abs_path w (session_home s)) \<and>
     is_dir (home_root w s) (abs_path (home_root w s) (session_workdir s))"

lemma in_home_simps [simp]:
  "fs (in_home w s) = fs w" "fdt (in_home w s) = fdt w" "next_fd (in_home w s) = next_fd w"
  "socks (in_home w s) = socks w" "sock_in (in_home w s) = sock_in w"
  "sock_out (in_home w s) = sock_out w" "node_at (in_home w s) q = node_at w q"
  "screen (in_home w s) = screen w" "cflags (in_home w s) = cflags w" "umask (in_home w s) = umask w"
  by (simp_all add: in_home_def home_root_def node_at_def)

lemma wp_unix_sandbox:
  assumes "sandboxable (world p) s"
    and "\<And>p'. world p' = in_home (world p) s \<Longrightarrow> Q 0 p'"
  shows "wp (sandboxUserToHisHome unix_kernel s) Q p"
  using assms(1) unfolding sandboxUserToHisHome_def dropPrivilegesTemp_def
  by (auto simp: wp_simps Let_def sandboxable_def home_root_def [symmetric] in_home_def [symmetric]
      intro!: assms(2))

lemma wp_unix_regain:
  assumes "\<And>p'. world p' = world p \<Longrightarrow> Q 0 p'"
  shows "wp (regainRoot unix_kernel) Q p"
  unfolding regainRoot_def by (auto simp: wp_simps intro!: assms)

lemma wp_unix_regain_respond:
  assumes "cfd \<in> set (socks (world p))"
    and "\<And>p' sc. world p' = (world p)\<lparr>sock_out := (sock_out (world p))
            (cfd := sock_out (world p) cfd @ enc_response res), sched := sc\<rparr> \<Longrightarrow> Q (Returned res) p'"
  shows "wp (regain_and_respond unix_kernel cfd res) Q p"
  unfolding regain_and_respond_def respond_def
  using assms by (auto simp: wp_simps intro!: wp_unix_regain wp_unix_writeAll)

text \<open>The answer of success with the text \<open>msg\<close> and the announced length \<open>n\<close>.\<close>

definition ok_answer :: "string \<Rightarrow> u32 \<Rightarrow> helper_response \<Rightarrow> helper_response" where
  "ok_answer msg n res = set_msg msg (res\<lparr>res_status := 0, res_payload_len := n\<rparr>)"

lemma ok_answer_simps [simp]:
  "res_status (ok_answer msg n res) = 0" "res_payload_len (ok_answer msg n res) = n"
  "set_msg msg (res\<lparr>res_status := 0, res_payload_len := n\<rparr>) = ok_answer msg n res"
  "set_msg msg (res\<lparr>res_status := 0\<rparr>) = ok_answer msg (res_payload_len res) res"
  "(set_msg msg res)\<lparr>res_status := 0\<rparr> = ok_answer msg (res_payload_len res) res"
  by (simp_all add: ok_answer_def set_msg_def)

lemma ok_answer_wf [simp]: "response_wf res \<Longrightarrow> response_wf (ok_answer msg n res)"
  by (simp add: ok_answer_def response_wf_def set_msg_def length_snprintf)

section \<open>Descriptors and files\<close>

lemma node_at_simps [simp]:
  "node_at (w\<lparr>fdt := t\<rparr>) q = node_at w q" "node_at (w\<lparr>next_fd := i\<rparr>) q = node_at w q"
  "node_at (w\<lparr>sock_out := so\<rparr>) q = node_at w q" "node_at (w\<lparr>sched := sc\<rparr>) q = node_at w q"
  "node_at (w\<lparr>sock_in := si\<rparr>) q = node_at w q" "node_at (set_pos fd q' n w) q = node_at w q"
  by (simp_all add: node_at_def set_pos_def)

lemma map_of_drop: "map_of (filter (\<lambda>x. fst x \<noteq> q) xs) q' = (if q' = q then None else map_of xs q')"
  by (induction xs) auto

lemma node_at_fs_set [simp]: "node_at (fs_set q n w) q' = (if q' = q then Some n else node_at w q')"
  by (simp add: node_at_def fs_set_def map_of_drop)

lemma node_at_fs_del [simp]: "node_at (fs_del q w) q' = (if q' = q then None else node_at w q')"
  by (simp add: node_at_def fs_del_def map_of_drop)

lemma fs_set_simps [simp]:
  "fdt (fs_set q n w) = fdt w" "next_fd (fs_set q n w) = next_fd w" "socks (fs_set q n w) = socks w"
  "uroot (fs_set q n w) = uroot w" "ucwd (fs_set q n w) = ucwd w" "sock_out (fs_set q n w) = sock_out w"
  "sock_in (fs_set q n w) = sock_in w" "fdt (fs_del q w) = fdt w" "next_fd (fs_del q w) = next_fd w"
  "socks (fs_del q w) = socks w" "uroot (fs_del q w) = uroot w" "ucwd (fs_del q w) = ucwd w"
  "sock_out (fs_del q w) = sock_out w" "screen (fs_set q n w) = screen w" "cflags (fs_set q n w) = cflags w"
  by (simp_all add: fs_set_def fs_del_def)

lemma set_pos_simps [simp]:
  "map_of (fdt (set_pos fd q n w)) fd = Some (q, n)" "socks (set_pos fd q n w) = socks w"
  "fs (set_pos fd q n w) = fs w" "sock_out (set_pos fd q n w) = sock_out w"
  "sock_in (set_pos fd q n w) = sock_in w"
  "uroot (set_pos fd q n w) = uroot w" "ucwd (set_pos fd q n w) = ucwd w"
  "screen (set_pos fd q n w) = screen w" "cflags (set_pos fd q n w) = cflags w"
  by (simp_all add: set_pos_def)

lemma abs_path_simps [simp]:
  "abs_path (w\<lparr>fdt := t\<rparr>) p = abs_path w p" "abs_path (w\<lparr>next_fd := i\<rparr>) p = abs_path w p"
  "abs_path (w\<lparr>fs := f\<rparr>) p = abs_path w p" "abs_path (w\<lparr>sock_out := so\<rparr>) p = abs_path w p"
  "abs_path (fs_set q n w) p = abs_path w p" "abs_path (set_pos fd q k w) p = abs_path w p"
  by (simp_all add: abs_path_def)

text \<open>A fresh descriptor is neither negative nor a socket.\<close>

definition fresh_fd :: "unix \<Rightarrow> bool" where
  "fresh_fd w \<longleftrightarrow> 0 \<le> next_fd w \<and> next_fd w \<notin> set (socks w)"

definition plain_mode :: "u32 \<Rightarrow> bool" where
  "plain_mode m \<longleftrightarrow> and m 0xF000 = 0"

lemma file_stat_reg [simp]: "plain_mode m \<Longrightarrow> S_ISREG (st_mode (node_stat (File c m)))"
  by (simp add: node_stat_def S_ISREG_def plain_mode_def bit.conj_disj_distrib2)

lemma file_stat_not_dir [simp]: "plain_mode m \<Longrightarrow> \<not> S_ISDIR (st_mode (node_stat (File c m)))"
  by (simp add: node_stat_def S_ISDIR_def plain_mode_def bit.conj_disj_distrib2)

lemma dir_stat [simp]: "plain_mode m \<Longrightarrow> S_ISDIR (st_mode (node_stat (Dir m)))"
  by (simp add: node_stat_def S_ISDIR_def plain_mode_def bit.conj_disj_distrib2)

lemma file_stat_size [simp]: "st_size (node_stat (File c m)) = int (length c)"
  by (simp add: node_stat_def)

lemma unat_of_nat_u32: "n < 2 ^ 32 \<Longrightarrow> unat (of_nat n :: u32) = n"
  by (simp add: unsigned_of_nat take_bit_nat_eq_self)

lemma of_nat_u32_pos: "n < 2 ^ 32 \<Longrightarrow> (0 :: u32) < of_nat n \<longleftrightarrow> 0 < n"
  using unat_of_nat_u32 [of n] by (simp add: word_less_nat_alt)

section \<open>Opening, locking, closing\<close>

definition opened :: "fs_path \<Rightarrow> unix \<Rightarrow> unix" where
  "opened q w = snd (new_fd q w)"

definition closed :: "int \<Rightarrow> unix \<Rightarrow> unix" where
  "closed fd w = w\<lparr>fdt := filter (\<lambda>x. fst x \<noteq> fd) (fdt w)\<rparr>"

lemma opened_simps [simp]:
  "fd = next_fd w \<Longrightarrow> map_of (fdt (opened q w)) fd = Some (q, 0)" "socks (opened q w) = socks w"
  "fs (opened q w) = fs w" "sock_out (opened q w) = sock_out w" "sock_in (opened q w) = sock_in w"
  "node_at (opened q w) q' = node_at w q'" "abs_path (opened q w) p = abs_path w p"
  "new_fd q w = (res_val (next_fd w), opened q w)" "screen (opened q w) = screen w" "cflags (opened q w) = cflags w"
  "umask (opened q w) = umask w"
  by (simp_all add: opened_def new_fd_def node_at_def abs_path_def)

lemma closed_simps [simp]:
  "socks (closed fd w) = socks w" "fs (closed fd w) = fs w" "sock_out (closed fd w) = sock_out w"
  "sock_in (closed fd w) = sock_in w" "node_at (closed fd w) q' = node_at w q'"
  "screen (closed fd w) = screen w" "cflags (closed fd w) = cflags w" "umask (closed fd w) = umask w"
  by (simp_all add: closed_def node_at_def)

lemma wp_unix_lock_file:
  assumes "node_at (world p) (abs_path (world p) path) = Some (File c m)" "0 \<le> next_fd (world p)"
    and "\<And>p'. world p' = opened (abs_path (world p) path) (world p) \<Longrightarrow> Q (next_fd (world p)) p'"
  shows "wp (lock_file unix_kernel path ty) Q p"
  using assms(1,2) unfolding lock_file_def
  by (auto simp: wp_simps open_at_def intro!: assms(3))

lemma wp_unix_unlock_file:
  assumes "map_of (fdt (world p)) fd = Some x" "fd \<notin> set (socks (world p))" "0 \<le> fd"
    and "\<And>p'. world p' = closed fd (world p) \<Longrightarrow> Q () p'"
  shows "wp (unlock_file unix_kernel fd) Q p"
  using assms(1-3) unfolding unlock_file_def
  by (auto simp: wp_simps closed_def intro!: assms(4))

section \<open>Read\<close>

lemma wp_unix_read_out:
  assumes "map_of (fdt (world p)) fd = Some x" "fd \<notin> set (socks (world p))" "0 \<le> fd"
    and "cfd \<in> set (socks (world p))" "res_status res = 0" "length buf < 2 ^ 32"
    and "res_payload_len res = of_nat (length buf)"
    and "\<And>p'. sock_out (world p') cfd = sock_out (world p) cfd @ enc_response res @ buf \<Longrightarrow>
           fs (world p') = fs (world p) \<Longrightarrow> Q (Returned res) p'"
  shows "wp (read_out unix_kernel cfd fd buf res) Q p"
proof -
  note len = unat_of_nat_u32 [OF assms(6)] of_nat_u32_pos [OF assms(6)]
  show ?thesis
  proof (cases "buf = []")
    case True
    then show ?thesis unfolding read_out_def
      apply (simp add: prog_simps assms(3,5,7) cong: step_congs)
      apply (rule wp_unix_unlock_file [OF assms(1-3)])
      apply (simp only: wp_bind, rule wp_unix_regain, simp add: prog_simps cong: step_congs)
      apply (rule wp_unix_writeAll)
       apply (simp add: assms(4))
      apply (simp add: prog_simps)
      apply (rule assms(8); simp)
      done
  next
    case False
    then show ?thesis unfolding read_out_def
      apply (simp add: prog_simps assms(3,5,7) len cong: step_congs)
      apply (rule wp_unix_unlock_file [OF assms(1-3)])
      apply (simp only: wp_bind, rule wp_unix_regain, simp add: prog_simps cong: step_congs)
      apply (rule wp_unix_writeAll)
       apply (simp add: assms(4))
      apply (simp add: prog_simps cong: step_congs)
      apply (rule wp_unix_writeAll)
       apply (simp add: assms(4))
      apply (simp add: prog_simps)
      apply (rule assms(8); simp add: assms(7) len)
      done
  qed
qed

lemma HandleHelperRead_unix:
  assumes "sandboxable (world p) (req_session hdr)" "cfd \<in> set (socks (world p))" "fresh_fd (world p)"
    and "node_at (world p) (abs_path (in_home (world p) (req_session hdr)) path) = Some (File c m)"
    and "plain_mode m" "0 \<le> offset" "offset \<le> int (length c)"
  shows "wp (HandleHelperRead unix_kernel cfd hdr path offset res)
    (\<lambda>r p'. let b = take 4096 (drop (nat offset) c); a = ok_answer ''Success'' (of_nat (length b)) res in
       r = Returned a \<and> sock_out (world p') cfd = sock_out (world p) cfd @ enc_response a @ b \<and>
       fs (world p') = fs (world p)) p"
proof -
  have fd: "0 \<le> next_fd (world p)" "\<not> next_fd (world p) < 0" "next_fd (world p) \<noteq> - 1"
      "next_fd (world p) \<notin> set (socks (world p))"
      "\<not> int (length c) < offset" "\<not> offset < 0" "offset \<noteq> - 1"
    using assms(3,6,7) by (auto simp: fresh_fd_def)
  show ?thesis
    unfolding HandleHelperRead_def wp_bind
    apply (rule wp_unix_sandbox [OF assms(1)])
    apply (simp add: prog_simps cong: step_congs)
    apply (rule wp_unix_lock_file)
      apply (simp add: assms)
     apply (simp add: fd)
    apply (simp add: prog_simps fd cong: step_congs)
    apply (rule wp_unix_sysI, simp add: fd assms prog_simps not_less cong: step_congs)
    apply (rule wp_unix_callI, simp add: fd assms prog_simps not_less cong: step_congs)
    apply (rule wp_unix_sysI, simp add: fd assms prog_simps not_less cong: step_congs)
    apply (rule wp_unix_read_out)
    apply (simp_all add: fd assms)
    done
qed

section \<open>A file under a descriptor\<close>

text \<open>
  \<open>at_file w0 fd q c m pos w\<close>: in \<open>w\<close>, \<open>fd\<close> stands at \<open>pos\<close> in the file \<open>q\<close> of contents
  \<open>c\<close> and mode \<open>m\<close>, and apart from that file the tree and the connections are as in \<open>w0\<close>.
\<close>

definition others_same :: "fs_path \<Rightarrow> unix \<Rightarrow> unix \<Rightarrow> bool" where
  "others_same q w0 w \<longleftrightarrow> (\<forall>q'. q' \<noteq> q \<longrightarrow> node_at w q' = node_at w0 q')"

definition at_file :: "unix \<Rightarrow> int \<Rightarrow> fs_path \<Rightarrow> bytes \<Rightarrow> u32 \<Rightarrow> nat \<Rightarrow> unix \<Rightarrow> bool" where
  "at_file w0 fd q c m pos w \<longleftrightarrow> node_at w q = Some (File c m) \<and> map_of (fdt w) fd = Some (q, pos) \<and>
     fd \<notin> set (socks w) \<and> others_same q w0 w \<and> sock_out w = sock_out w0 \<and> sock_in w = sock_in w0 \<and>
     socks w = socks w0 \<and> screen w = screen w0 \<and> cflags w = cflags w0"

definition writable :: "unix \<Rightarrow> fs_path \<Rightarrow> u32 \<Rightarrow> bytes \<Rightarrow> u32 \<Rightarrow> bool" where
  "writable w q mode c m \<longleftrightarrow> node_at w q = Some (File c m) \<or>
     (node_at w q = None \<and> q \<noteq> [] \<and> is_dir w (butlast q) \<and> c = [] \<and> m = creation_mode w mode)"

lemma wp_at_open:
  assumes "writable (world p) (abs_path (world p) path) mode c m" "fresh_fd (world p)"
    and "O_CREAT \<in> set fl" "O_DIRECTORY \<notin> set fl"
    and "\<And>p'. at_file (world p) (next_fd (world p)) (abs_path (world p) path)
            (if O_TRUNC \<in> set fl then [] else c) m 0 (world p') \<Longrightarrow> Q (next_fd (world p)) p'"
  shows "wp (call unix_kernel (PathC (Open path fl mode))) Q p"
proof (rule wp_unix_callI)
  fix p' :: "unix proc"
  assume w': "world p' = snd (unix_kernel (world p) (PathC (Open path fl mode)))"
  have r: "rv (fst (unix_kernel (world p) (PathC (Open path fl mode)))) = next_fd (world p)"
    using assms(1,3,4) by (auto simp: writable_def open_at_def)
  show "Q (rv (fst (unix_kernel (world p) (PathC (Open path fl mode))))) p'"
    unfolding r
    by (rule assms(5)) (use assms(1-4) w' in \<open>auto simp: writable_def open_at_def at_file_def others_same_def fresh_fd_def\<close>)
qed

lemma wp_at_file:
  assumes "at_file w0 fd q c m pos (world p)"
  shows "(\<And>p'. at_file w0 fd q c m pos (world p') \<Longrightarrow> Q 0 p') \<Longrightarrow> wp (call unix_kernel (FdC (Setlkw fd k))) Q p"
    "(\<And>p'. at_file w0 fd q c m pos (world p') \<Longrightarrow> Q 0 p') \<Longrightarrow> wp (call unix_kernel (FdC (Setlk fd k))) Q p"
    "0 \<le> i \<Longrightarrow> (\<And>p'. at_file w0 fd q c m (nat i) (world p') \<Longrightarrow> Q i p') \<Longrightarrow>
       wp (call unix_kernel (FdC (Lseek fd i SEEK_SET))) Q p"
    "(\<And>p'. at_file w0 fd q c m (length c) (world p') \<Longrightarrow> Q (int (length c)) p') \<Longrightarrow>
       wp (call unix_kernel (FdC (Lseek fd 0 SEEK_END))) Q p"
    "(\<And>p'. at_file w0 fd q (overwrite c pos bs) m (pos + length bs) (world p') \<Longrightarrow> Q (int (length bs)) p') \<Longrightarrow>
       wp (call unix_kernel (FdC (Write fd bs))) Q p"
    "(\<And>p'. others_same q w0 (world p') \<Longrightarrow> node_at (world p') q = Some (File c m) \<Longrightarrow>
         sock_out (world p') = sock_out w0 \<Longrightarrow> socks (world p') = socks w0 \<Longrightarrow> Q 0 p') \<Longrightarrow>
       wp (call unix_kernel (FdC (Close fd))) Q p"
  using assms by (auto intro!: wp_unix_callI simp: at_file_def others_same_def not_less)

lemma wp_at_fstat:
  assumes "at_file w0 fd q c m pos (world p)"
    and "\<And>p'. at_file w0 fd q c m pos (world p') \<Longrightarrow> Q ((res_val 0)\<lparr>stat_out := node_stat (File c m)\<rparr>) p'"
  shows "wp (sys unix_kernel (FdC (Fstat fd))) Q p"
  using assms(1) by (auto intro!: wp_unix_sysI assms(2) simp: at_file_def)

lemma wp_at_lock_fd:
  assumes "at_file w0 fd q c m pos (world p)" "0 \<le> fd"
    and "\<And>p'. at_file w0 fd q c m pos (world p') \<Longrightarrow> Q 0 p'"
  shows "wp (lock_fd unix_kernel fd ty) Q p" "wp (unlock_fd unix_kernel fd) Q p"
  using assms(2,3) unfolding lock_fd_def unlock_fd_def
  by (auto simp: prog_simps intro!: wp_at_file(1,2) [OF assms(1)])

section \<open>Write\<close>

text \<open>What a write at \<open>off\<close> leaves: a gap behind the end is filled with spaces.\<close>

definition written :: "bytes \<Rightarrow> nat \<Rightarrow> bytes \<Rightarrow> bytes" where
  "written c off data =
     (if off \<le> length c then overwrite c off data else c @ replicate (off - length c) SPC @ data)"

lemma overwrite_end [simp]: "overwrite c (length c) bs = c @ bs"
  by (simp add: overwrite_def)

lemma wp_at_pad:
  assumes "at_file w0 fd q c m (length c) (world p)"
    and "\<And>p'. at_file w0 fd q (c @ replicate n SPC) m (length c + n) (world p') \<Longrightarrow> Q True p'"
  shows "wp (pad_spaces unix_kernel fd n) Q p"
  using assms
proof (induction n arbitrary: c p)
  case 0
  then show ?case by (simp add: prog_simps)
next
  case (Suc n)
  show ?case
    apply (simp add: prog_simps cong: step_congs)
    apply (rule wp_at_file(5) [OF Suc.prems(1)])
    apply (simp cong: step_congs)
    apply (rule Suc.IH [where c = "c @ [SPC]"])
     apply simp
    apply (rule Suc.prems(2))
    apply simp
    done
qed

lemma wp_at_write_out:
  assumes "at_file w0 fd q c m pos (world p)" "0 \<le> fd" "cfd \<in> set (socks w0)"
    and "\<And>p'. others_same q w0 (world p') \<Longrightarrow> node_at (world p') q = Some (File c m) \<Longrightarrow>
           sock_out (world p') cfd = sock_out w0 cfd @ enc_response res \<Longrightarrow> Q (Returned res) p'"
  shows "wp (write_out unix_kernel cfd fd res) Q p"
  unfolding write_out_def
  apply (simp add: prog_simps assms(2) cong: step_congs)
  apply (rule wp_at_file(6) [OF assms(1)])
  apply (rule wp_unix_regain_respond)
   apply (simp add: assms(3))
  apply (rule assms(4))
    apply (simp_all add: others_same_def)
  done

lemma wp_at_write_data:
  assumes "at_file w0 fd q c m pos (world p)" "0 \<le> fd" "cfd \<in> set (socks w0)" "length data = unat n"
    and "\<And>p'. others_same q w0 (world p') \<Longrightarrow> node_at (world p') q = Some (File (overwrite c pos data) m) \<Longrightarrow>
           sock_out (world p') cfd = sock_out w0 cfd @ enc_response (ok_answer ''Success'' 0 res) \<Longrightarrow>
           Q (Returned (ok_answer ''Success'' 0 res)) p'"
  shows "wp (write_data unix_kernel cfd fd data n res) Q p"
proof -
  have "(word_of_int (int (length data)) :: u32) = n" by (simp add: assms(4))
  then show ?thesis
    unfolding write_data_def
    apply (simp add: prog_simps assms(4) [symmetric] cong: step_congs)
    apply (rule wp_at_file(5) [OF assms(1)])
    apply (simp add: prog_simps cong: step_congs)
    apply (rule wp_at_write_out [OF _ assms(2,3)])
     apply assumption
    apply (rule assms(5); simp)
    done
qed

lemma HandleHelperWrite_unix:
  assumes "sandboxable (world p) (req_session hdr)" "cfd \<in> set (socks (world p))" "fresh_fd (world p)"
    and "writable (in_home (world p) (req_session hdr)) q 0x1C0 c m" "plain_mode m"
    and "q = abs_path (in_home (world p) (req_session hdr)) path"
    and "0 \<le> offset" "length data = unat n"
  shows "wp (HandleHelperWrite unix_kernel cfd hdr path offset data n res)
    (\<lambda>r p'. r = Returned (ok_answer ''Success'' 0 res) \<and>
       sock_out (world p') cfd = sock_out (world p) cfd @ enc_response (ok_answer ''Success'' 0 res) \<and>
       node_at (world p') q = Some (File (written c (nat offset) data) m) \<and>
       (\<forall>q'. q' \<noteq> q \<longrightarrow> node_at (world p') q' = node_at (world p) q')) p"
proof -
  let ?w = "in_home (world p) (req_session hdr)" and ?fd = "next_fd (world p)"
  have fd: "0 \<le> ?fd" "\<not> ?fd < 0" using assms(3) by (auto simp: fresh_fd_def)
  have neg: "offset \<noteq> - 1" using assms(7) by simp
  show ?thesis
    unfolding HandleHelperWrite_def wp_bind
    apply (rule wp_unix_sandbox [OF assms(1)])
    apply (simp add: prog_simps cong: step_congs)
    apply (rule wp_at_open [where c = c and m = m])
        apply (simp add: assms(4) flip: assms(6))
       apply (use assms(3) in \<open>simp add: fresh_fd_def\<close>)
      apply simp
     apply simp
    apply (simp add: prog_simps fd assms(6) [symmetric] cong: step_congs)
    apply (rule wp_at_lock_fd(1))
      apply assumption
     apply (simp add: fd)
    apply (simp add: prog_simps cong: step_congs)
    apply (rule wp_at_fstat, assumption)
    apply (simp add: prog_simps assms(5) Let_def cong: step_congs)
    apply (intro conjI impI)
     apply (rule wp_at_file(4), assumption)
     apply (simp add: prog_simps cong: step_congs)
     apply (rule wp_at_pad, assumption)
     apply (simp add: prog_simps cong: step_congs)
     apply (rule wp_at_write_data)
         apply assumption
        apply (simp add: fd)
       apply (simp add: assms(2))
      apply (simp add: assms(8))
     apply (auto simp: others_same_def written_def overwrite_def)[1]
    apply (rule wp_at_file(3), assumption)
     apply (simp add: assms(7))
    apply (simp add: prog_simps neg cong: step_congs)
    apply (rule wp_at_write_data)
        apply assumption
       apply (simp add: fd)
      apply (simp add: assms(2))
     apply (simp add: assms(8))
    using assms(7) apply (auto simp: others_same_def written_def)[1]
    done
qed

section \<open>Download and upload\<close>

text \<open>\<open>copy_stream\<close> from a file to a socket; fuel above the number of bytes is enough.\<close>

definition at_source :: "unix \<Rightarrow> int \<Rightarrow> fs_path \<Rightarrow> bytes \<Rightarrow> u32 \<Rightarrow> nat \<Rightarrow> unix \<Rightarrow> bool" where
  "at_source w0 fd q c m pos w \<longleftrightarrow> node_at w q = Some (File c m) \<and> map_of (fdt w) fd = Some (q, pos) \<and>
     fd \<notin> set (socks w) \<and> fs w = fs w0 \<and> socks w = socks w0 \<and> screen w = screen w0 \<and> cflags w = cflags w0"

lemma at_source_simps [simp]:
  "at_source w0 fd q c m pos (w\<lparr>sock_out := so, sched := sc\<rparr>) = at_source w0 fd q c m pos w"
  by (simp add: at_source_def)

lemma wp_at_read_source:
  assumes "at_source w0 fd q c m pos (world p)"
    and "\<And>p' r. at_source w0 fd q c m (pos + length (take n (drop pos c))) (world p') \<Longrightarrow>
           sock_out (world p') = sock_out (world p) \<Longrightarrow>
           rv r = int (length (take n (drop pos c))) \<Longrightarrow> out r = take n (drop pos c) \<Longrightarrow> Q r p'"
  shows "wp (sys unix_kernel (FdC (Read fd n))) Q p"
  apply (rule wp_unix_sysI)
  apply (rule assms(2))
  using assms(1) by (auto simp: at_source_def Let_def)

lemma wp_copy_to_socket:
  assumes "at_source w0 fd q c m pos (world p)" "cfd \<in> set (socks w0)" "0 < len"
    and "length c - pos < fuel"
    and "\<And>p' k. at_source w0 fd q c m k (world p') \<Longrightarrow>
           sock_out (world p') cfd = sock_out (world p) cfd @ drop pos c \<Longrightarrow> Q True p'"
  shows "wp (copy_stream fuel unix_kernel fd cfd len) Q p"
  using assms(1,4,5)
proof (induction fuel arbitrary: p pos)
  case 0
  then show ?case by simp
next
  case (Suc fuel)
  let ?b = "take len (drop pos c)"
  show ?case
    unfolding copy_stream.simps wp_bind
  proof (rule wp_at_read_source [OF Suc.prems(1)])
    fix p1 :: "unix proc" and r
    assume 1: "at_source w0 fd q c m (pos + length ?b) (world p1)"
      "sock_out (world p1) = sock_out (world p)" "rv r = int (length ?b)" "out r = ?b"
    show "wp (if rv r \<le> 0 then State_Monad.return True
        else writeAll unix_kernel cfd (take (nat (rv r)) (out r)) \<bind>
             (\<lambda>w. if w < 0 then State_Monad.return True else copy_stream fuel unix_kernel fd cfd len)) Q p1"
    proof (cases "?b = []")
      case True
      then have "drop pos c = []" using assms(3) by auto
      then show ?thesis using 1 True by (auto simp: prog_simps intro!: Suc.prems(3))
    next
      case False
      have more: "length c - (pos + length ?b) < fuel"
        using Suc.prems(2) False assms(3) by auto
      have split: "?b @ drop (pos + length ?b) c = drop pos c"
        by (metis add.commute append_take_drop_id drop_drop length_take min_def nat_le_linear take_all)
      have "\<not> rv r \<le> 0" using 1(3) False by auto
      moreover have "take (nat (rv r)) (out r) = ?b" by (simp only: 1(3,4) nat_int take_all order_refl)
      moreover have "wp (writeAll unix_kernel cfd ?b)
          (\<lambda>w. wp (if w < 0 then State_Monad.return True else copy_stream fuel unix_kernel fd cfd len) Q) p1"
      proof (rule wp_unix_writeAll)
        show "cfd \<in> set (socks (world p1))" using 1(1) assms(2) by (simp add: at_source_def)
        fix p2 :: "unix proc" and sc
        assume 2: "world p2 = (world p1)\<lparr>sock_out := (sock_out (world p1))(cfd := sock_out (world p1) cfd @ ?b), sched := sc\<rparr>"
        have "wp (copy_stream fuel unix_kernel fd cfd len) Q p2"
        proof (rule Suc.IH [OF _ more])
          show "at_source w0 fd q c m (pos + length ?b) (world p2)" unfolding 2 at_source_simps by (rule 1(1))
          fix p3 :: "unix proc" and k
          assume "at_source w0 fd q c m k (world p3)"
            "sock_out (world p3) cfd = sock_out (world p2) cfd @ drop (pos + length ?b) c"
          then show "Q True p3" using split 1(2) 2 by (intro Suc.prems(3)) auto
        qed
        then show "wp (if int (length ?b) < 0 then State_Monad.return True
            else copy_stream fuel unix_kernel fd cfd len) Q p2" by simp
      qed
      ultimately show ?thesis by (simp only: if_False wp_bind)
    qed
  qed
qed

end
