(* ===== verification/Client_Properties.thy ===== *)
theory Client_Properties
  imports Client Helper_Semantics
begin

text \<open>
  The properties of the client: what the user sees of the server's answers, and when
  \<open>exit\<close> is obeyed.
\<close>

section \<open>Listings\<close>

definition entry_wf :: "FileEntry \<Rightarrow> bool" where
  "entry_wf e \<longleftrightarrow> length (fe_name e) = 56 \<and> length (fe_perms e) = 10 \<and>
     - (2 ^ 63) \<le> fe_size e \<and> fe_size e < 2 ^ 63"

lemma length_le64 [simp]: "length (le64 i) = 8"
  by (simp add: le64_def)

lemma un_le64_le64:
  assumes "- (2 ^ 63) \<le> i" "i < 2 ^ 63"
  shows "un_le64 (le64 i) = i"
proof -
  have lo: "uint (word_of_int i :: u32) = i mod 2 ^ 32"
    by (simp add: uint_word_of_int_eq take_bit_eq_mod)
  have "- (2 ^ 31) \<le> i div 2 ^ 32" "i div 2 ^ 32 < 2 ^ 31" using assms by auto
  then have hi: "sint (word_of_int (i div 2 ^ 32) :: u32) = i div 2 ^ 32"
    by (simp add: signed_of_int signed_take_bit_int_eq_self)
  have d: "drop 4 (le64 i) = le32 (word_of_int (i div 2 ^ 32))" by (simp add: le64_def)
  have "un_le64 (le64 i) = i mod 2 ^ 32 + 2 ^ 32 * (i div 2 ^ 32)"
    unfolding un_le64_def d un_le32_le32(2) hi by (simp add: le64_def lo [simplified])
  then show ?thesis by (simp only: mod_mult_div_eq)
qed

interpretation entry_codec: fixed_codec enc_entry dec_entry entry_wf 80
proof
  fix e :: FileEntry
  assume wf: "entry_wf e"
  then show "length (enc_entry e) = 80"
    by (simp add: entry_wf_def enc_entry_def)
  show "dec_entry (enc_entry e) = e"
    using wf un_le64_le64 [of "fe_size e"] by (simp add: entry_wf_def enc_entry_def dec_entry_def)
qed

lemma dec_entries_concat:
  "\<forall>e\<in>set es. entry_wf e \<Longrightarrow> dec_entries (length es) (concat (map enc_entry es) @ x) = es"
  by (induction es) (simp_all add: entry_codec.enc_width entry_codec.dec_enc)

lemma length_entries: "\<forall>e\<in>set es. entry_wf e \<Longrightarrow> length (concat (map enc_entry es)) = 80 * length es"
  by (induction es) (simp_all add: entry_codec.enc_width)

lemma make_entry_wf:
  "- (2 ^ 63) \<le> st_size st \<Longrightarrow> st_size st < 2 ^ 63 \<Longrightarrow> entry_wf (make_entry n st)"
  by (simp add: entry_wf_def make_entry_def length_strncpy perm_string_def)

lemma strncpy_below:
  "strncpy k n (replicate (Suc k) NUL) = take k n @ replicate (k - length n) NUL @ [NUL]"
  by (simp add: strncpy_def Suc_diff_le del: replicate.simps) simp

lemma make_entry_name:
  assumes "NUL \<notin> set n"
  shows "c_str (fe_name (make_entry n st)) = take 55 n"
proof -
  have "Suc 55 = (56 :: nat)" by simp
  then have s: "strncpy 55 n (replicate 56 NUL) = take 55 n @ replicate (55 - length n) NUL @ [NUL]"
    using strncpy_below [of 55 n] by metis
  have e: "fe_name (make_entry n st) = take 55 n @ replicate (55 - length n) NUL @ [NUL]"
    unfolding make_entry_def FileEntry.select_convs by (rule s)
  have "NUL \<notin> set (take 55 n)" using assms by (meson in_set_takeD)
  then show ?thesis unfolding e by (simp add: c_str_append)
qed

text \<open>The line of a file, as the user is to see it.\<close>

definition file_line :: "string \<times> stat_buf \<Rightarrow> string" where
  "file_line f = pad_right 11 (perm_string (st_mode (snd f))) @ SPC # pad_right 20 (take 55 (fst f)) @ SPC
     # pad_left 10 (show_int (st_size (snd f))) @ '' bytes'' @ [CHR 0x0A]"

text \<open>A listing reaches the user: for at most 1024 files with 64 bit sizes, the client prints for
  the block the helper makes of the files one line each, in order, with the permissions, the first
  55 characters of the name and the size, whatever the names and modes.\<close>

theorem listing_reaches_user:
  assumes "length files \<le> 1024" "block = concat (map (\<lambda>f. enc_entry (make_entry (fst f) (snd f))) files)"
    and "\<forall>f\<in>set files. NUL \<notin> set (fst f) \<and> - (2 ^ 63) \<le> st_size (snd f) \<and> st_size (snd f) < 2 ^ 63"
  shows "shown writing (make_header LSRES 0 (length block) 0) (block @ [NUL]) = concat (map file_line files)"
proof -
  let ?es = "map (\<lambda>f. make_entry (fst f) (snd f)) files"
  have wf: "\<forall>e\<in>set ?es. entry_wf e" using assms(3) by (simp add: make_entry_wf split_beta)
  have b: "block = concat (map enc_entry ?es)" by (simp add: assms(2) comp_def)
  have len: "length block = 80 * length files" using length_entries [OF wf] b by simp
  have "unat (of_nat (80 * length files) :: u32) = 80 * length files"
    by (rule unat_of_nat_u32) (use assms(1) in simp)
  then have n: "unat (of_nat (length block) :: u32) div 80 = length ?es" unfolding len by simp
  have lines: "map entry_line ?es = map file_line files"
    using assms(3) by (auto simp: entry_line_def file_line_def make_entry_name)
      (auto simp: make_entry_def)
  show ?thesis
    using dec_entries_concat [OF wf, of "[NUL]"] unfolding shown_def make_header_simps n b [symmetric] lines [symmetric]
    by simp
qed

theorem listing_reaches_user_witness:
  "shown False (make_header LSRES 0 80 0) (enc_entry (make_entry ''a.txt'' \<lparr>st_mode = 0x81A4, st_size = 5\<rparr>) @ [NUL])
    = file_line (''a.txt'', \<lparr>st_mode = 0x81A4, st_size = 5\<rparr>)"
  using listing_reaches_user [of "[(''a.txt'', \<lparr>st_mode = 0x81A4, st_size = 5\<rparr>)]" _ False, OF _ refl]
    entry_codec.enc_width [OF make_entry_wf, of "\<lparr>st_mode = 0x81A4, st_size = 5\<rparr>" "''a.txt''"]
  by simp

section \<open>Messages\<close>

text \<open>
  A text message is printed after \<open>[Server]>\<close> and lets the next command be typed; one of
  the background kind is printed after \<open>[Background]>\<close> and does not end the wait for an answer.
\<close>

lemma message_shown:
  assumes "NUL \<notin> set msg" "b = 0 \<or> b = 1"
  shows "shown writing (make_header TEXT st (length msg + 1) b) ((msg @ [NUL]) @ [NUL]) =
      (if b = 0 then ''[Server]> '' @ msg @ [CHR 0x0A]
       else ''[Background]> '' @ msg @ CHR 0x0A #
         (if writing then ''[Client]> (Still recording file content... hit Ctrl+D to finish)'' @ [CHR 0x0A]
          else prompt))"
    "waiting_for_response (answer_flags (make_header TEXT st (length msg + 1) b) f) =
      (if b = 0 then False else waiting_for_response f)"
  using assms by (auto simp: shown_def answer_flags_def is_data_type_def)

section \<open>Leaving\<close>

text \<open>
  The threads of a client one after the other: a round of the thread that writes, for the line the
  user types; a round of the thread that reads; a background or foreground transfer up to its end.
\<close>

datatype client_act = Typed string | Ended bool

inductive client_run :: "'w kernel \<Rightarrow> 'w flags \<Rightarrow> int \<Rightarrow> 'w \<Rightarrow> client_act list \<Rightarrow> 'w \<Rightarrow> bool" for K C fd w where
  start: "client_run K C fd w [] w"
| typed: "client_run K C fd w acts (world p) \<Longrightarrow> K (world p) (StdioC (Puts prompt)) = (l0, w0) \<Longrightarrow>
    K w0 (NetC (Fgets_stdin 256)) = (l, w1) \<Longrightarrow> ent_out l = Some line \<Longrightarrow>
    run_state (write_round fuel K C fd) p = (Returned True, p') \<Longrightarrow>
    client_run K C fd w (acts @ [Typed (strip_newline line)]) (world p')"
| heard: "client_run K C fd w acts (world p) \<Longrightarrow> run_state (read_round K C fd) p = (r, p') \<Longrightarrow>
    client_run K C fd w acts (world p')"
| uploaded: "client_run K C fd w acts (world p) \<Longrightarrow>
    run_state (backgroundUploadFunc fuel K C ip port path is_bg) p = (Returned (), p') \<Longrightarrow>
    client_run K C fd w (acts @ [Ended is_bg]) (world p')"
| downloaded: "client_run K C fd w acts (world p) \<Longrightarrow>
    run_state (backgroundDownloadFunc fuel K C ip port path is_bg) p = (Returned (), p') \<Longrightarrow>
    client_run K C fd w (acts @ [Ended is_bg]) (world p')"

text \<open>What the program counts, and the two numbers one would compare.\<close>

definition count_act :: "int \<Rightarrow> client_act \<Rightarrow> int" where
  "count_act n a = (case a of Typed c \<Rightarrow> if background_of c then n + 1 else n
     | Ended _ \<Rightarrow> if 0 < n then n - 1 else n)"

definition pending_ops :: "client_act list \<Rightarrow> int" where
  "pending_ops acts = foldl count_act 0 acts"

definition asked_bg :: "client_act list \<Rightarrow> nat" where
  "asked_bg acts = length (filter (\<lambda>a. case a of Typed c \<Rightarrow> background_of c | Ended _ \<Rightarrow> False) acts)"

definition ended_all :: "client_act list \<Rightarrow> nat" where
  "ended_all acts = length (filter (\<lambda>a. case a of Typed _ \<Rightarrow> False | Ended _ \<Rightarrow> True) acts)"

lemma pending_ops_simps [simp]:
  "pending_ops [] = 0" "pending_ops (acts @ [a]) = count_act (pending_ops acts) a"
  by (simp_all add: pending_ops_def)

lemma pending_ops_nonneg: "0 \<le> pending_ops acts"
  by (induction acts rule: rev_induct) (auto simp: count_act_def split: client_act.split)

lemma pending_ops_balance:
  assumes "\<forall>n. ended_all (take n acts) \<le> asked_bg (take n acts)"
  shows "pending_ops acts = int (asked_bg acts) - int (ended_all acts)"
  using assms
proof (induction acts rule: rev_induct)
  case (snoc a acts)
  have "ended_all (take n acts) \<le> asked_bg (take n acts)" for n
    using snoc.prems [rule_format, of "min n (length acts)"] by (simp add: min_def split: if_splits)
  then have IH: "pending_ops acts = int (asked_bg acts) - int (ended_all acts)" using snoc.IH by blast
  have "ended_all (acts @ [a]) \<le> asked_bg (acts @ [a])"
    using snoc.prems [rule_format, of "Suc (length acts)"] by simp
  then show ?case by (cases a) (auto simp: IH count_act_def asked_bg_def ended_all_def)
qed (simp add: asked_bg_def ended_all_def)

text \<open>
  Flags that the calls of a thread leave alone: what changes them is the program itself.  A program
  keeps them when it has no access to them.
\<close>

definition keeps_flags :: "'w flags \<Rightarrow> ('w, 'a) sysprog \<Rightarrow> bool" where
  "keeps_flags C m \<longleftrightarrow> (\<forall>p. fl_get C (world (snd (run_state m p))) = fl_get C (world p))"

lemma keeps_return: "keeps_flags C (State_Monad.return a)"
  by (simp add: keeps_flags_def)

lemma keeps_errno: "keeps_flags C get_errno"
  by (simp add: keeps_flags_def)

lemma keeps_bind: "keeps_flags C m \<Longrightarrow> (\<And>a. keeps_flags C (f a)) \<Longrightarrow> keeps_flags C (m \<bind> f)"
  by (simp add: keeps_flags_def split_beta)

lemma keeps_if: "(b \<Longrightarrow> keeps_flags C m) \<Longrightarrow> (\<not> b \<Longrightarrow> keeps_flags C n) \<Longrightarrow> keeps_flags C (if b then m else n)"
  by simp

lemma wp_keeps:
  assumes "keeps_flags C m" "\<And>a p'. fl_get C (world p') = fl_get C (world p) \<Longrightarrow> Q a p'"
  shows "wp m Q p"
  using assms unfolding keeps_flags_def wp_run by blast

locale own_flags =
  fixes K :: "'w kernel" and C :: "'w flags"
  assumes get_put: "fl_get C (fl_put C s v) = s"
    and calls_keep: "fl_get C (snd (K v c)) = fl_get C v"
begin

lemma keeps_sys: "keeps_flags C (sys K c)" "keeps_flags C (call K c)"
  by (simp_all add: keeps_flags_def run_sys run_call calls_keep)

lemmas keeps_intros = keeps_return keeps_errno keeps_bind keeps_if keeps_sys

lemma keeps_prints: "keeps_flags C (say K s)" "keeps_flags C (complain K s)" "keeps_flags C (perror K s)"
  unfolding say_def complain_def perror_def by (auto intro!: keeps_intros)

lemma keeps_writeAll: "keeps_flags C (writeAll K d bs)"
proof -
  have "keeps_flags C (writeAll_loop K' d rest n)" if "K' = K" for K' rest n
    using that
  proof (induction K' d rest n rule: writeAll_loop.induct)
    case (1 K' d rest n)
    then show ?case by (subst writeAll_loop.simps) (auto intro!: keeps_intros)
  qed
  then show ?thesis by (simp add: writeAll_def)
qed

lemma keeps_readAll: "keeps_flags C (readAll K d n)"
proof -
  have "keeps_flags C (readAll_loop K' d n k buf)" if "K' = K" for K' k buf
    using that
  proof (induction K' d n k buf rule: readAll_loop.induct)
    case (1 K' d n k buf)
    then show ?case by (subst readAll_loop.simps) (auto intro!: keeps_intros)
  qed
  then show ?thesis by (simp add: readAll_def)
qed

lemma keeps_record: "keeps_flags C (record_content fuel K buf)"
  by (induction fuel arbitrary: buf) (auto intro!: keeps_intros)

lemma keeps_error: "keeps_flags C (transfer_error K bg msg)"
  unfolding transfer_error_def by (rule keeps_prints)

lemma keeps_loops: "keeps_flags C (upload_loop fuel K bg f d)" "keeps_flags C (download_loop fuel K bg path f d)"
  by (induction fuel) (auto intro!: keeps_intros keeps_error keeps_writeAll)

lemma keeps_connect: "keeps_flags C (connectToServer K ip port)"
  unfolding connectToServer_def by (auto intro!: keeps_intros keeps_prints)

lemmas flags_kept = wp_keeps [OF keeps_sys(1)] wp_keeps [OF keeps_sys(2)] wp_keeps [OF keeps_prints(1)]
  wp_keeps [OF keeps_writeAll] wp_keeps [OF keeps_readAll] wp_keeps [OF keeps_record] wp_keeps [OF keeps_error]
  wp_keeps [OF keeps_loops(1)] wp_keeps [OF keeps_loops(2)] wp_keeps [OF keeps_connect]

lemma flags_set:
  "(\<And>p'. fl_get C (world p') = snd (f (fl_get C (world p))) \<Longrightarrow> Q (fst (f (fl_get C (world p)))) p') \<Longrightarrow> wp (on_flags C f) Q p"
  by (cases "f (fl_get C (world p))") (simp add: wp_def on_flags_def get_put)

lemma read_round_counts: "wp (read_round K C fd) (\<lambda>r p'. bg_ops_count (fl_get C (world p')) = bg_ops_count (fl_get C (world p))) p"
  unfolding read_round_def Let_def
  by (auto simp: wp_simps answer_flags_def split: option.split intro!: flags_kept flags_set)

lemma transfer_cleanup_counts:
  assumes "fl_get C (world p) = f"
  shows "wp (transfer_cleanup K C fp d) (\<lambda>r p'. r = Returned () \<and> fl_get C (world p') = bg_done f) p"
  unfolding transfer_cleanup_def
  by (auto simp: wp_simps assms intro!: flags_kept flags_set)

lemma transfer_counts:
  assumes "fl_get C (world p) = f"
  shows "wp (backgroundUploadFunc fuel K C ip port path bg) (\<lambda>r p'. r = Returned () \<longrightarrow> fl_get C (world p') = bg_done f) p"
    "wp (backgroundDownloadFunc fuel K C ip port path bg) (\<lambda>r p'. r = Returned () \<longrightarrow> fl_get C (world p') = bg_done f) p"
  unfolding backgroundUploadFunc_def backgroundDownloadFunc_def
  by (auto simp: wp_simps assms intro!: flags_kept wp_mono [OF transfer_cleanup_counts [where f = f]])

lemma write_round_counts:
  assumes "K (world p) (StdioC (Puts prompt)) = (l0, w0)" "K w0 (NetC (Fgets_stdin 256)) = (l, w1)"
    and "ent_out l = Some line" "n = bg_ops_count (fl_get C (world p))"
  shows "wp (write_round fuel K C fd) (\<lambda>r p'. r = Returned True \<longrightarrow>
     bg_ops_count (fl_get C (world p')) = count_act n (Typed (strip_newline line))) p"
proof -
  have bg: "\<not> background_of []" "\<not> background_of ''exit''" by (simp_all add: background_of_def)
  have w1: "fl_get C w1 = fl_get C (world p)" using calls_keep assms(1,2) by (metis snd_conv)
  show ?thesis
    unfolding write_round_def say_def [of K prompt] Let_def
    by (auto simp: wp_simps wp_def [of "sys K (NetC (Fgets_stdin 256))"] wp_def [of "call K (StdioC (Puts prompt))"] run_sys run_call
        assms count_act_def bg w1 mark_sent_def exit_allowed_def split: option.split prod.split intro!: flags_kept flags_set)
qed

lemma run_counts:
  assumes "client_run K C fd w acts w'" "bg_ops_count (fl_get C w) = 0"
  shows "bg_ops_count (fl_get C w') = pending_ops acts"
  using assms(1)
proof induction
  case start
  then show ?case by (simp add: assms(2))
next
  case (typed acts p l0 w0 l w1 line fuel p')
  show ?case
    using write_round_counts [OF typed.hyps(2-4) refl, of fuel fd] typed.hyps(5) typed.IH by (simp add: wp_run)
next
  case (heard acts p r p')
  show ?case using read_round_counts [of fd p] heard.hyps(2) heard.IH by (simp add: wp_run)
next
  case (uploaded acts p fuel ip port path is_bg p')
  show ?case
    using transfer_counts(1) [OF refl, of fuel ip port path is_bg p] uploaded.hyps(2) uploaded.IH
    by (simp add: wp_run bg_done_def count_act_def)
next
  case (downloaded acts p fuel ip port path is_bg p')
  show ?case
    using transfer_counts(2) [OF refl, of fuel ip port path is_bg p] downloaded.hyps(2) downloaded.IH
    by (simp add: wp_run bg_done_def count_act_def)
qed

end

interpretation terminal: own_flags unix_kernel unix_flags
proof
  fix v :: unix and c :: syscall and s :: client_flags
  show "fl_get unix_flags (fl_put unix_flags s v) = s" by (simp add: unix_flags_def)
  have path: "cflags (snd (unix_path v k)) = cflags v" for k
    by (cases k) (auto simp: open_at_def new_fd_def fs_set_def fs_del_def Let_def split: option.split node.split)
  have fd: "cflags (snd (unix_fd v k)) = cflags v" for k
    by (cases k) (auto simp: set_pos_def fs_set_def Let_def split: option.split node.split seek_whence.split)
  have open1: "cflags (snd (open_at q fl m v)) = cflags v" for q fl m
    by (auto simp: open_at_def new_fd_def fs_set_def split: option.split node.split)
  show "fl_get unix_flags (snd (unix_kernel v c)) = fl_get unix_flags v"
  proof (cases c)
    case (CredC k)
    then show ?thesis by (cases k) (auto simp: unix_flags_def Let_def)
  next
    case (ProcC k)
    then show ?thesis by (cases k) (auto simp: unix_flags_def)
  next
    case (NetC k)
    then show ?thesis by (cases k) (auto simp: unix_flags_def split: list.split)
  next
    case (MemC k)
    then show ?thesis by (cases k) (auto simp: unix_flags_def)
  next
    case (StdioC k)
    then show ?thesis by (cases k) (auto simp: unix_flags_def fd open1 simp del: unix_fd.simps)
  qed (auto simp: unix_flags_def path fd simp del: unix_path.simps unix_fd.simps)
qed

text \<open>C40. When \<open>exit\<close> is obeyed.  The client keeps a count: a command line that contains \<open> -b\<close>
  adds one, whatever the command, and every transfer that ends, in the background or not, takes one
  away unless it is 0.  After any sequence of rounds of the threads, from flags that count nothing,
  \<open>exit\<close> is obeyed exactly when that count is 0: then the exit flag is set, whether or not an answer
  is still missing, and the thread ends.  Otherwise the user is told the count and asked for the next
  command, and the flags stay as they are.  Nothing is sent either way.  As long as no more transfers
  have ended than were counted, the count is the difference of the two, so \<open>exit\<close> waits for the
  transfers of a user who starts them all in the background and puts \<open>-b\<close> on nothing else; a transfer
  in the foreground that ends meanwhile, and any other command with \<open>-b\<close>, make the count wrong.
  The threads take turns round by round: no other thread changes the flags in the middle of a round.\<close>

theorem exit_follows_count:
  assumes "\<And>s v. fl_get C (fl_put C s v) = s" "\<And>v. fl_put C (fl_get C v) v = v"
    and "\<And>v c. fl_get C (snd (K v c)) = fl_get C v"
    and "bg_ops_count (fl_get C w) = 0" "client_run K C fd w acts (world p)"
    and "K (world p) (StdioC (Puts prompt)) = (l0, w0)" "K w0 (NetC (Fgets_stdin 256)) = (l, w1)"
    and "ent_out l = Some line" "strip_newline line = ''exit''"
    and "run_state (write_round fuel K C fd) p = (r, p')"
    and "told = ''[Client]> Cannot exit: '' @ show_int (pending_ops acts) @ '' background operation(s) pending'' @ [CHR 0x0A]"
  shows "(if pending_ops acts = 0
      then r = Returned False \<and> fl_get C (world p') = (fl_get C (world p))\<lparr>should_exit := True\<rparr> \<and>
        events p' = events p @ [(StdioC (Puts prompt), l0), (NetC (Fgets_stdin 256), l)]
      else r = Returned True \<and> fl_get C (world p') = fl_get C (world p) \<and>
        events p' = events p @ [(StdioC (Puts prompt), l0), (NetC (Fgets_stdin 256), l), (StdioC (Puts told), fst (K w1 (StdioC (Puts told))))]) \<and>
    ((\<forall>n. ended_all (take n acts) \<le> asked_bg (take n acts)) \<longrightarrow>
       pending_ops acts = int (asked_bg acts) - int (ended_all acts))"
proof -
  have own: "own_flags K C" by (rule own_flags.intro [OF assms(1,3)])
  have n: "bg_ops_count (fl_get C (world p)) = pending_ops acts" by (rule own_flags.run_counts [OF own assms(5,4)])
  have w1: "fl_get C w1 = fl_get C (world p)" using assms(3) assms(6,7) by (metis snd_conv)
  have told: "exit_refusal (fl_get C (world p)) = told" by (simp add: exit_refusal_def assms(11) n)
  have same: "fl_put C (fl_get C (world p)) w1 = w1" using assms(2) [of w1] by (simp add: w1)
  have "\<not> 0 < pending_ops acts \<longleftrightarrow> pending_ops acts = 0" using pending_ops_nonneg [of acts] by auto
  then show ?thesis
    using assms(10) pending_ops_balance [of acts]
    by (auto simp: write_round_def say_def run_call run_sys on_flags_def exit_allowed_def told same assms(1-3,6-9) w1 n split: if_splits)
qed

text \<open>A terminal at which a download in the background and then \<open>exit\<close> are typed, and a network
  without sockets: a transfer in the foreground fails at once, which makes the count 0 while the
  background download is still on its way.\<close>

definition typing_kernel :: "(client_flags \<times> string list) kernel" where
  "typing_kernel w c = (case c of
       NetC (Fgets_stdin n) \<Rightarrow> ((res_val 0)\<lparr>ent_out := Some (hd (snd w) @ [CHR 0x0A, NUL])\<rparr>, (fst w, tl (snd w)))
     | NetC Socket_inet \<Rightarrow> (res_err 24, w)
     | FdC (Write d bs) \<Rightarrow> (res_val (int (length bs)), w)
     | _ \<Rightarrow> (res_val 0, w))"

definition typing_flags :: "(client_flags \<times> string list) flags" where
  "typing_flags = \<lparr>fl_get = fst, fl_put = (\<lambda>s w. (s, snd w))\<rparr>"

lemma typing_write: "bs \<noteq> [] \<Longrightarrow> run_state (writeAll typing_kernel d bs) p =
    (int (length bs), after_call p (FdC (Write d bs)) (res_val (int (length bs))) (world p))"
  unfolding writeAll_def
  by (subst writeAll_loop.simps, subst writeAll_loop.simps) (simp add: run_call typing_kernel_def)

lemma typed_download:
  fixes p :: "(client_flags \<times> string list) proc"
  assumes "world p = (initial_flags, [''download f g -b'', ''exit''])"
  obtains p1 where "run_state (write_round 9 typing_kernel typing_flags 3) p = (Returned True, p1)"
    "world p1 = (initial_flags\<lparr>bg_ops_count := 1\<rparr>, [''exit''])"
proof -
  have c: "strip_newline (''download f g -b'' @ [CHR 0x0A, NUL]) = ''download f g -b''" "\<not> is_write ''download f g -b''"
      "background_of ''download f g -b''"
    by (simp_all add: strip_newline_def is_write_def has_prefix_def background_of_def)
  obtain hdr payload where b: "build_request ''download f g -b'' [] = (hdr, payload)" "payload \<noteq> []"
    by (simp add: build_request_def c(2) Let_def)
  have h: "enc_msg_header hdr \<noteq> []" using header_codec.enc_width [of hdr] by auto
  show thesis
    by (rule that, simp add: write_round_def say_def run_call run_sys typing_kernel_def [of _ "NetC n" for n]
        typing_kernel_def [of _ "StdioC n" for n] assms c b h typing_write mark_sent_def on_flags_def typing_flags_def
        initial_flags_def Let_def del: append.simps) (simp add: initial_flags_def)
qed

theorem exit_follows_count_witness:
  "\<exists>p p'. client_run typing_kernel typing_flags 3 (initial_flags, [''download f g -b'', ''exit''])
      [Typed ''download f g -b'', Ended False] (world p) \<and>
    run_state (write_round 9 typing_kernel typing_flags 3) p = (Returned False, p')"
proof -
  let ?w = "(initial_flags, [''download f g -b'', ''exit''])"
  let ?p0 = "\<lparr>world = ?w, events = [], errno = 0\<rparr>" and ?run = "client_run typing_kernel typing_flags 3"
  have kf: "fl_get typing_flags (fl_put typing_flags s v) = s" "fl_put typing_flags (fl_get typing_flags v) v = v"
      "fl_get typing_flags (snd (typing_kernel v c)) = fl_get typing_flags v" for s v c
    by (simp_all add: typing_flags_def typing_kernel_def split: syscall.split net_call.split fd_call.split)
  have puts: "typing_kernel v (StdioC (Puts s)) = (res_val 0, v)" for v s by (simp add: typing_kernel_def)
  have gets: "typing_kernel v (NetC (Fgets_stdin 256)) =
      ((res_val 0)\<lparr>ent_out := Some (hd (snd v) @ [CHR 0x0A, NUL])\<rparr>, (fst v, tl (snd v)))" for v
    by (simp add: typing_kernel_def)
  have line: "strip_newline (''download f g -b'' @ [CHR 0x0A, NUL]) = ''download f g -b''"
      "strip_newline (''exit'' @ [CHR 0x0A, NUL]) = ''exit''"
    by (simp_all add: strip_newline_def)
  obtain p1 where p1: "run_state (write_round 9 typing_kernel typing_flags 3) ?p0 = (Returned True, p1)"
      "world p1 = (initial_flags\<lparr>bg_ops_count := 1\<rparr>, [''exit''])"
    by (rule typed_download [of ?p0]) simp
  have "?run ?w ([] @ [Typed (strip_newline (''download f g -b'' @ [CHR 0x0A, NUL]))]) (world p1)"
    by (rule client_run.typed [OF _ puts gets _ p1(1)]) (simp_all add: client_run.start)
  then have run1: "?run ?w [Typed ''download f g -b''] (world p1)" unfolding line append_Nil .
  obtain p2 where p2: "run_state (backgroundDownloadFunc 9 typing_kernel typing_flags ''h'' 1 ''x'' False) p1 = (Returned (), p2)"
      "world p2 = (initial_flags, [''exit''])"
    by (simp add: backgroundDownloadFunc_def connectToServer_def transfer_error_def complain_def perror_def say_def
        transfer_cleanup_def on_flags_def bg_done_def run_call run_sys typing_kernel_def typing_flags_def p1(2) initial_flags_def)
  have run2: "?run ?w [Typed ''download f g -b'', Ended False] (world p2)"
    using client_run.downloaded [OF run1 p2(1)] by simp
  have count: "pending_ops [Typed ''download f g -b'', Ended False] = 0"
    by (simp add: pending_ops_def count_act_def background_of_def)
  obtain r p' where r: "run_state (write_round 9 typing_kernel typing_flags 3) p2 = (r, p')" by fastforce
  have "r = Returned False"
    using exit_follows_count [OF kf _ run2 puts gets _ line(2) r refl] by (simp add: p2(2) count typing_flags_def initial_flags_def)
  then show ?thesis using run2 r by blast
qed

end
