(* ===== verification/Helper_Streams.thy ===== *)
theory Helper_Streams
  imports Helper_Semantics
begin

text \<open>
  Download and upload on the kernel of \<open>Unix_Kernel\<close>: a file arrives on the other side
  of the connection byte for byte, whatever the pieces in which the connection takes
  or gives the bytes.
\<close>

section \<open>Download\<close>

lemma wp_source_stream_out:
  assumes "at_source w0 fd q c m pos (world p)" "0 \<le> fd" "res_status res = 0"
    and "\<And>p'. fs (world p') = fs w0 \<Longrightarrow> sock_out (world p') = sock_out (world p) \<Longrightarrow> Q (Returned res) p'"
  shows "wp (stream_out unix_kernel cfd fd res) Q p"
  unfolding stream_out_def unlock_fd_def
  apply (simp add: prog_simps assms(2,3) not_less cong: step_congs)
  apply (intro conjI impI)
   using assms(2) apply simp
  apply (rule wp_unix_callI)
  apply (simp add: prog_simps assms(2) cong: step_congs)
  apply (rule wp_unix_callI)
  apply (simp add: prog_simps cong: step_congs)
  apply (rule wp_unix_regain)
  apply (simp add: prog_simps)
  apply (rule assms(4))
  using assms(1) apply (auto simp: at_source_def)
  done

lemma wp_unix_open_file:
  assumes "node_at (world p) (abs_path (world p) path) = Some (File c m)" "O_DIRECTORY \<notin> set fl"
    "O_TRUNC \<notin> set fl"
    and "\<And>p'. world p' = opened (abs_path (world p) path) (world p) \<Longrightarrow> Q (next_fd (world p)) p'"
  shows "wp (call unix_kernel (PathC (Open path fl mode))) Q p"
  using assms(1-3) by (auto simp: open_at_def intro!: wp_unix_callI assms(4))

lemma HandleHelperDownload_unix:
  assumes "sandboxable (world p) (req_session hdr)" "cfd \<in> set (socks (world p))" "fresh_fd (world p)"
    and "node_at (world p) (abs_path (in_home (world p) (req_session hdr)) path) = Some (File c m)"
    and "plain_mode m" "length c < fuel"
  shows "wp (HandleHelperDownload fuel unix_kernel cfd hdr path res)
    (\<lambda>r p'. let a = ok_answer ''Success'' (of_nat (length c)) res in r = Returned a \<and>
       sock_out (world p') cfd = sock_out (world p) cfd @ enc_response a @ c \<and>
       fs (world p') = fs (world p)) p"
proof -
  let ?w = "in_home (world p) (req_session hdr)" and ?fd = "next_fd (world p)"
  let ?q = "abs_path ?w path"
  have fd: "0 \<le> ?fd" "\<not> ?fd < 0" "?fd \<notin> set (socks (world p))" using assms(3) by (auto simp: fresh_fd_def)
  have src: "at_source ?w ?fd ?q c m 0 (opened ?q ?w)"
    using assms(4) fd by (simp add: at_source_def)
  show ?thesis
    unfolding HandleHelperDownload_def wp_bind
    apply (rule wp_unix_sandbox [OF assms(1)])
    apply (simp add: prog_simps cong: step_congs)
    apply (rule wp_unix_open_file)
       apply (simp_all add: assms(4) cong: step_congs)
    apply (simp add: prog_simps fd lock_fd_def cong: step_congs)
    apply (rule wp_unix_callI)
    apply (simp add: prog_simps cong: step_congs)
    apply (rule wp_unix_sysI)
    apply (simp add: prog_simps assms(4,5) Let_def cong: step_congs)
    apply (rule wp_unix_writeAll)
     apply (simp add: assms(2))
    apply (simp add: prog_simps cong: step_congs)
    apply (rule wp_copy_to_socket [where ?w0.0 = ?w and q = ?q and c = c and m = m and pos = 0])
        apply (simp add: src)
       apply (simp add: assms(2))
      apply simp
     apply (simp add: assms(6))
    apply (simp add: prog_simps cong: step_congs)
    apply (rule wp_source_stream_out, assumption)
      apply (simp_all add: fd)
    done
qed

section \<open>Upload\<close>

text \<open>Writing to a file goes through in one call.\<close>

lemma wp_at_writeAll:
  assumes "at_file w0 fd q c m pos (world p)"
    and "\<And>p'. at_file w0 fd q (overwrite c pos bs) m (pos + length bs) (world p') \<Longrightarrow> Q (int (length bs)) p'"
  shows "wp (writeAll unix_kernel fd bs) Q p"
proof (cases "bs = []")
  case True
  then show ?thesis using assms
    by (simp add: writeAll_def writeAll_loop.simps prog_simps overwrite_def)
next
  case False
  then show ?thesis
    unfolding writeAll_def
    apply (subst writeAll_loop.simps)
    apply (simp add: prog_simps cong: step_congs)
    apply (rule wp_at_file(5) [OF assms(1)])
    apply (simp add: prog_simps cong: step_congs)
    apply (subst writeAll_loop.simps)
    apply (simp add: prog_simps)
    apply (rule assms(2), assumption)
    done
qed

lemma at_file_rebase:
  "at_file w0 fd q c m pos w \<Longrightarrow> at_file w fd q c m pos w"
  by (auto simp: at_file_def others_same_def)

lemma wp_sock_read:
  assumes "cfd \<in> set (socks (world p))"
    and "\<And>p' r k sc. k \<le> length (sock_in (world p) cfd) \<Longrightarrow> k \<le> n \<Longrightarrow> k = 0 \<longrightarrow> n = 0 \<or> sock_in (world p) cfd = [] \<Longrightarrow>
           rv r = int k \<Longrightarrow> out r = take k (sock_in (world p) cfd) \<Longrightarrow>
           world p' = (world p)\<lparr>sock_in := (sock_in (world p))(cfd := drop k (sock_in (world p) cfd)), sched := sc\<rparr> \<Longrightarrow>
           Q r p'"
  shows "wp (sys unix_kernel (FdC (Read cfd n))) Q p"
proof (rule wp_unix_sysI)
  fix p' :: "unix proc"
  let ?m = "min n (length (sock_in (world p) cfd))"
  assume "world p' = snd (unix_kernel (world p) (FdC (Read cfd n)))"
  then show "Q (fst (unix_kernel (world p) (FdC (Read cfd n)))) p'"
    using assms(1) piece_le [of "world p" ?m] piece_pos [of ?m "world p"]
    by (intro assms(2) [where k = "piece (world p) ?m" and sc = "tl (sched (world p))"])
      (cases "n = 0"; auto simp: Let_def)+
qed

lemma wp_copy_from_socket:
  assumes "at_file w0 fd q c m (length c) (world p)" "cfd \<in> set (socks w0)" "0 < len"
    and "length (sock_in w0 cfd) < fuel"
    and "\<And>p'. at_file (w0\<lparr>sock_in := (sock_in w0)(cfd := [])\<rparr>) fd q (c @ sock_in w0 cfd) m
           (length (c @ sock_in w0 cfd)) (world p') \<Longrightarrow> Q True p'"
  shows "wp (copy_stream fuel unix_kernel cfd fd len) Q p"
  using assms
proof (induction fuel arbitrary: p c w0)
  case 0
  then show ?case by simp
next
  case (Suc fuel)
  let ?in = "sock_in w0 cfd"
  have w: "cfd \<in> set (socks (world p))" "sock_in (world p) = sock_in w0"
    using Suc.prems(1,2) by (auto simp: at_file_def)
  show ?case
    unfolding copy_stream.simps wp_bind
  proof (rule wp_sock_read [OF w(1)], unfold w(2))
    fix p1 :: "unix proc" and r k sc
    assume k: "k \<le> length ?in" "k = 0 \<longrightarrow> len = 0 \<or> ?in = []" and r: "rv r = int k" "out r = take k ?in"
      and 1: "world p1 = (world p)\<lparr>sock_in := (sock_in w0)(cfd := drop k ?in), sched := sc\<rparr>"
    let ?w1 = "w0\<lparr>sock_in := (sock_in w0)(cfd := drop k ?in)\<rparr>"
    have at: "at_file ?w1 fd q c m (length c) (world p1)"
      using Suc.prems(1) by (auto simp: at_file_def others_same_def 1)
    show "wp (if rv r \<le> 0 then State_Monad.return True
        else writeAll unix_kernel fd (take (nat (rv r)) (out r)) \<bind>
             (\<lambda>w. if w < 0 then State_Monad.return True else copy_stream fuel unix_kernel cfd fd len)) Q p1"
    proof (cases "k = 0")
      case True
      then have "?in = []" using Suc.prems(3) k by auto
      with at have "at_file (w0\<lparr>sock_in := (sock_in w0)(cfd := [])\<rparr>) fd q (c @ ?in) m (length (c @ ?in)) (world p1)"
        using True by simp
      then have "Q True p1" by (rule Suc.prems(5))
      then show ?thesis using True r by (simp add: prog_simps)
    next
      case False
      have "\<not> rv r \<le> 0" "take (nat (rv r)) (out r) = take k ?in" using r False by auto
      moreover have "wp (writeAll unix_kernel fd (take k ?in)) (\<lambda>w. wp (if w < 0 then State_Monad.return True
          else copy_stream fuel unix_kernel cfd fd len) Q) p1"
      proof (rule wp_at_writeAll [OF at])
        fix p2 :: "unix proc"
        assume 2: "at_file ?w1 fd q (overwrite c (length c) (take k ?in)) m (length c + length (take k ?in)) (world p2)"
        have "wp (copy_stream fuel unix_kernel cfd fd len) Q p2"
        proof (rule Suc.IH)
          show "at_file ?w1 fd q (c @ take k ?in) m (length (c @ take k ?in)) (world p2)"
            using 2 by simp
          show "cfd \<in> set (socks ?w1)" "0 < len" using Suc.prems by simp_all
          show "length (sock_in ?w1 cfd) < fuel" using Suc.prems(4) False k by simp
          fix p3 :: "unix proc"
          assume "at_file (?w1\<lparr>sock_in := (sock_in ?w1)(cfd := [])\<rparr>) fd q ((c @ take k ?in) @ sock_in ?w1 cfd) m
            (length ((c @ take k ?in) @ sock_in ?w1 cfd)) (world p3)"
          moreover have "(c @ take k ?in) @ sock_in ?w1 cfd = c @ ?in" by simp
          ultimately show "Q True p3" by (intro Suc.prems(5)) (simp add: fun_upd_def cong: if_cong)
        qed
        then show "wp (if int (length (take k ?in)) < 0 then State_Monad.return True
            else copy_stream fuel unix_kernel cfd fd len) Q p2" by simp
      qed
      ultimately show ?thesis by (simp only: if_False wp_bind)
    qed
  qed
qed

lemma wp_at_stream_out:
  assumes "at_file w0 fd q c m pos (world p)" "0 \<le> fd" "res_status res = 0"
    and "\<And>p'. others_same q w0 (world p') \<Longrightarrow> node_at (world p') q = Some (File c m) \<Longrightarrow>
           sock_out (world p') = sock_out w0 \<Longrightarrow> Q (Returned res) p'"
  shows "wp (stream_out unix_kernel cfd fd res) Q p"
proof -
  have fd: "\<not> fd < 0" using assms(2) by simp
  show ?thesis
    unfolding stream_out_def unlock_fd_def
    apply (simp add: prog_simps assms(2,3) fd cong: step_congs)
    apply (rule wp_at_file(2) [OF assms(1)])
    apply (simp add: prog_simps cong: step_congs)
    apply (rule wp_at_file(6), assumption)
    apply (simp add: prog_simps cong: step_congs)
    apply (rule wp_unix_regain)
    apply (simp add: prog_simps)
    apply (rule assms(4); simp)
    done
qed

lemma HandleHelperUpload_unix:
  assumes "sandboxable (world p) (req_session hdr)" "cfd \<in> set (socks (world p))" "fresh_fd (world p)"
    and "writable (in_home (world p) (req_session hdr)) q 0x180 c m"
    and "q = abs_path (in_home (world p) (req_session hdr)) path"
    and "length (sock_in (world p) cfd) < fuel"
  shows "wp (HandleHelperUpload fuel unix_kernel cfd hdr path res)
    (\<lambda>r p'. r = Returned (ok_answer ''Success'' 0 res) \<and>
       sock_out (world p') cfd = sock_out (world p) cfd @ enc_response (ok_answer ''Success'' 0 res) \<and>
       node_at (world p') q = Some (File (sock_in (world p) cfd) m) \<and>
       (\<forall>q'. q' \<noteq> q \<longrightarrow> node_at (world p') q' = node_at (world p) q')) p"
proof -
  let ?w = "in_home (world p) (req_session hdr)" and ?fd = "next_fd (world p)"
  have fd: "0 \<le> ?fd" "\<not> ?fd < 0" using assms(3) by (auto simp: fresh_fd_def)
  let ?a = "ok_answer ''Success'' 0 res"
  let ?w0 = "?w\<lparr>sock_out := (sock_out ?w)(cfd := sock_out ?w cfd @ enc_response ?a)\<rparr>"
  show ?thesis
    unfolding HandleHelperUpload_def wp_bind
    apply (rule wp_unix_sandbox [OF assms(1)])
    apply (simp add: prog_simps cong: step_congs)
    apply (rule wp_at_open [where c = c and m = m])
        apply (simp add: assms(4) flip: assms(5))
       apply (use assms(3) in \<open>simp add: fresh_fd_def\<close>)
      apply simp
     apply simp
    apply (simp add: prog_simps fd assms(5) [symmetric] cong: step_congs)
    apply (rule wp_at_lock_fd(1))
      apply assumption
     apply (simp add: fd)
    apply (simp add: prog_simps Let_def cong: step_congs)
    apply (rule wp_unix_writeAll)
     apply (simp add: at_file_def assms(2))
    apply (simp add: prog_simps cong: step_congs)
    apply (rule wp_copy_from_socket [where ?w0.0 = ?w0 and c = "[]" and q = q and m = m])
        apply (use assms(3) in \<open>auto simp: at_file_def others_same_def fresh_fd_def\<close>)[1]
       apply (simp add: assms(2))
      apply simp
     apply (simp add: assms(6))
    apply (simp add: prog_simps cong: step_congs)
    apply (rule wp_at_stream_out, assumption)
      apply (simp add: fd)
     apply simp
    apply (auto simp: others_same_def)
    done
qed

end
