(* ===== verification/Helper_Tree.thy ===== *)
theory Helper_Tree
  imports Helper_Streams
begin

text \<open>
  The handlers that change the file tree (create, delete, move) and the transfer of a
  file from one user to another, on the kernel of \<open>Unix_Kernel\<close>.
\<close>

section \<open>Answers that close the lock\<close>

lemma wp_unix_unlock_out:
  assumes "cfd \<in> set (socks (world p))"
    and "0 \<le> fd \<Longrightarrow> map_of (fdt (world p)) fd \<noteq> None \<and> fd \<notin> set (socks (world p))"
    and "\<And>p'. (\<forall>q. node_at (world p') q = node_at (world p) q) \<Longrightarrow>
           sock_out (world p') cfd = sock_out (world p) cfd @ enc_response res \<Longrightarrow> Q (Returned res) p'"
  shows "wp (unlock_out unix_kernel cfd fd res) Q p"
proof (cases "0 \<le> fd")
  case True
  then obtain x where "map_of (fdt (world p)) fd = Some x" "fd \<notin> set (socks (world p))" using assms(2) by blast
  then show ?thesis
    unfolding unlock_out_def
    apply (simp add: prog_simps True cong: step_congs)
    apply (rule wp_unix_unlock_file)
       apply (simp_all add: True cong: step_congs)
    apply (rule wp_unix_regain_respond)
     apply (simp add: assms(1))
    apply (rule assms(3); simp)
    done
next
  case False
  then show ?thesis
    unfolding unlock_out_def
    apply (simp add: prog_simps cong: step_congs)
    apply (rule wp_unix_regain_respond)
     apply (simp add: assms(1))
    apply (rule assms(3); simp)
    done
qed

lemma node_at_fs_update [simp]: "node_at (w\<lparr>fs := f\<rparr>) q = map_of f q"
  by (simp add: node_at_def)

section \<open>Delete\<close>

lemma HandleHelperDelete_unix:
  assumes "sandboxable (world p) (req_session hdr)" "cfd \<in> set (socks (world p))" "fresh_fd (world p)"
    and "node_at (world p) q = Some (File c m)" "plain_mode m"
    and "q = abs_path (in_home (world p) (req_session hdr)) path"
  shows "wp (HandleHelperDelete unix_kernel cfd hdr path res)
    (\<lambda>r p'. r = Returned (ok_answer ''Deleted successfully'' (res_payload_len res) res) \<and>
       sock_out (world p') cfd = sock_out (world p) cfd @ enc_response (ok_answer ''Deleted successfully'' (res_payload_len res) res) \<and>
       (\<forall>q'. node_at (world p') q' = (if q' = q then None else node_at (world p) q'))) p"
proof -
  let ?fd = "next_fd (world p)"
  have fd: "0 \<le> ?fd" "\<not> ?fd < 0" "?fd \<notin> set (socks (world p))" using assms(3) by (auto simp: fresh_fd_def)
  show ?thesis
    unfolding HandleHelperDelete_def wp_bind
    apply (rule wp_unix_sandbox [OF assms(1)])
    apply (simp add: prog_simps cong: step_congs)
    apply (rule wp_unix_sysI)
    apply (simp add: prog_simps assms(4,5) assms(6) [symmetric] cong: step_congs)
    apply (rule wp_unix_lock_file)
      apply (simp add: assms(4) flip: assms(6))
     apply (simp add: fd)
    apply (simp add: prog_simps fd cong: step_congs)
    apply (rule wp_unix_callI)
    apply (simp add: prog_simps assms(4) Let_def assms(6) [symmetric] cong: step_congs)
    apply (rule wp_unix_unlock_file)
       apply (simp_all add: fd cong: step_congs)
    apply (rule wp_unix_unlock_out)
      apply (simp_all add: fd assms(2))
    done
qed

section \<open>Move\<close>

lemma map_of_rename:
  assumes "\<And>x. x \<in> set xs \<Longrightarrow> take (length q) (fst x) = q \<Longrightarrow> fst x = q" "\<And>x. x \<in> set xs \<Longrightarrow> fst x \<noteq> q'"
  shows "map_of (map (\<lambda>x. if take (length q) (fst x) = q then (q' @ drop (length q) (fst x), snd x) else x) xs) r
    = (if r = q' then map_of xs q else if r = q then None else map_of xs r)"
  using assms
proof (induction xs)
  case (Cons x xs)
  have "take (length q) (fst x) = q \<longleftrightarrow> fst x = q" using Cons.prems(1) [of x] by auto
  moreover have "fst x \<noteq> q'" using Cons.prems(2) [of x] by simp
  ultimately show ?case using Cons by (cases x) auto
qed auto

text \<open>Nothing lies below a file.\<close>

definition leaf :: "unix \<Rightarrow> fs_path \<Rightarrow> bool" where
  "leaf w q \<longleftrightarrow> (\<forall>x\<in>set (fs w). take (length q) (fst x) = q \<longrightarrow> fst x = q)"

lemma HandleHelperMove_unix:
  assumes "sandboxable (world p) (req_session hdr)" "cfd \<in> set (socks (world p))" "fresh_fd (world p)"
    and "w = in_home (world p) (req_session hdr)"
    and "q = abs_path w path1" "d = abs_path w path2" "t = abs_path w (move_target path1 path2)"
    and "node_at (world p) q = Some (File c m)" "plain_mode m" "leaf (world p) q"
    and "node_at (world p) d = Some (Dir dm)" "plain_mode dm"
    and "node_at (world p) t = None" "t \<noteq> []" "is_dir (world p) (butlast t)"
  shows "wp (HandleHelperMove unix_kernel cfd hdr path1 path2 res)
    (\<lambda>r p'. r = Returned (ok_answer ''Moved successfully'' (res_payload_len res) res) \<and>
       sock_out (world p') cfd = sock_out (world p) cfd @ enc_response (ok_answer ''Moved successfully'' (res_payload_len res) res) \<and>
       (\<forall>q'. node_at (world p') q' =
          (if q' = t then Some (File c m) else if q' = q then None else node_at (world p) q'))) p"
proof -
  let ?fd = "next_fd (world p)"
  have fd: "0 \<le> ?fd" "\<not> ?fd < 0" "?fd \<notin> set (socks (world p))" using assms(3) by (auto simp: fresh_fd_def)
  have tgt: "is_dir (opened q w) (butlast t)" using assms(4,15) by (simp add: is_dir_def)
  have qt: "q \<noteq> t" "t \<noteq> q" using assms(8,13) by auto
  note paths = assms(5-7) [unfolded assms(4), symmetric]
  have ren: "map_of (map (\<lambda>x. if take (length q) (fst x) = q then (t @ drop (length q) (fst x), snd x) else x)
        (filter (\<lambda>x. fst x \<noteq> t) (fs (world p)))) r
      = (if r = t then Some (File c m) else if r = q then None else node_at (world p) r)" for r
  proof -
    have "map_of (fs (world p)) t = None" using assms(13) by (simp add: node_at_def)
    moreover have "q \<noteq> t" using assms(8,13) by auto
    ultimately show ?thesis
      using assms(8,10) map_of_drop [of t "fs (world p)"]
      by (subst map_of_rename) (auto simp: leaf_def node_at_def)
  qed
  show ?thesis
    unfolding HandleHelperMove_def wp_bind
    apply (rule wp_unix_sandbox [OF assms(1)])
    apply (simp add: prog_simps cong: step_congs)
    apply (rule wp_unix_lock_file)
      apply (simp add: assms(8) paths)
     apply (simp add: fd)
    apply (simp add: prog_simps fd paths cong: step_congs)
    apply (rule wp_unix_sysI)
    apply (simp add: prog_simps assms(8) paths cong: step_congs)
    apply (rule wp_unix_sysI)
    apply (simp add: prog_simps assms(11,12) paths Let_def cong: step_congs)
    apply (rule wp_unix_sysI)
    apply (simp add: prog_simps assms(13) paths cong: step_congs)
    apply (rule wp_unix_callI)
    apply (simp add: prog_simps assms(8,14) tgt [unfolded assms(4)] paths Let_def cong: step_congs)
    apply (rule wp_unix_unlock_out)
      apply (simp_all add: fd assms(2))
    apply (simp add: ren qt)
    done
qed

section \<open>Create\<close>

lemma HandlerHelperCreateFile_unix_dir:
  assumes "sandboxable (world p) (req_session hdr)" "cfd \<in> set (socks (world p))"
    and "q = abs_path (in_home (world p) (req_session hdr)) path"
    and "node_at (world p) q = None" "q \<noteq> []" "is_dir (world p) (butlast q)"
  shows "wp (HandlerHelperCreateFile unix_kernel cfd hdr path mode True res)
    (\<lambda>r p'. r = Returned (ok_answer ''Directory created successfully'' (res_payload_len res) res) \<and>
       sock_out (world p') cfd = sock_out (world p) cfd @ enc_response (ok_answer ''Directory created successfully'' (res_payload_len res) res) \<and>
       (\<forall>q'. node_at (world p') q' = (if q' = q then Some (Dir (creation_mode (world p) mode)) else node_at (world p) q'))) p"
proof -
  let ?w = "in_home (world p) (req_session hdr)"
  have d: "is_dir ?w (butlast q)" using assms(6) by (simp add: is_dir_def)
  show ?thesis
    unfolding HandlerHelperCreateFile_def wp_bind
    apply (rule wp_unix_sandbox [OF assms(1)])
    apply (simp add: prog_simps cong: step_congs)
    apply (rule wp_unix_callI)
    apply (simp add: prog_simps wp_get_errno assms(4,5) d assms(3) [symmetric] Let_def cong: step_congs)
    apply (rule wp_unix_writeAll)
     apply (simp add: assms(2))
    apply (simp add: prog_simps cong: step_congs)
    apply (rule wp_unix_regain)
    apply (simp add: prog_simps)
    done
qed

section \<open>Transfer\<close>

text \<open>The state of the copy loop after \<open>pos\<close> bytes.\<close>

definition copying :: "unix \<Rightarrow> int \<Rightarrow> fs_path \<Rightarrow> bytes \<Rightarrow> u32 \<Rightarrow> nat \<Rightarrow> int \<Rightarrow> fs_path \<Rightarrow> u32 \<Rightarrow> unix \<Rightarrow> bool" where
  "copying w0 src_fd src c m pos dest_fd dest dm w \<longleftrightarrow> src \<noteq> dest \<and> src_fd \<noteq> dest_fd \<and> pos \<le> length c \<and>
     node_at w src = Some (File c m) \<and> map_of (fdt w) src_fd = Some (src, pos) \<and> src_fd \<notin> set (socks w) \<and>
     at_file w0 dest_fd dest (take pos c) dm pos w"

lemma map_of_set_pos: "map_of (fdt (set_pos fd q n w)) fd' = (if fd' = fd then Some (q, n) else map_of (fdt w) fd')"
  by (simp add: set_pos_def map_of_drop)

lemma copying_read:
  assumes "copying w0 sf src c m pos df dest dm (world p)"
    and "\<And>p' r. rv r = int (length (take n (drop pos c))) \<Longrightarrow> out r = take n (drop pos c) \<Longrightarrow>
           node_at (world p') src = Some (File c m) \<Longrightarrow>
           map_of (fdt (world p')) sf = Some (src, pos + length (take n (drop pos c))) \<Longrightarrow>
           at_file w0 df dest (take pos c) dm pos (world p') \<Longrightarrow> Q r p'"
  shows "wp (sys unix_kernel (FdC (Read sf n))) Q p"
  apply (rule wp_unix_sysI)
  apply (rule assms(2))
  using assms(1)
  by (auto simp: copying_def at_file_def others_same_def Let_def map_of_set_pos)

lemma copying_write:
  assumes "at_file w0 df dest old dm pos (world p)" "node_at (world p) src = Some (File c m)"
    "map_of (fdt (world p)) sf = Some (src, k)" "sf \<noteq> df" "src \<noteq> dest"
    and "\<And>p'. at_file w0 df dest (overwrite old pos bs) dm (pos + length bs) (world p') \<Longrightarrow>
          node_at (world p') src = Some (File c m) \<Longrightarrow> map_of (fdt (world p')) sf = Some (src, k) \<Longrightarrow>
          Q (int (length bs)) p'"
  shows "wp (call unix_kernel (FdC (Write df bs))) Q p"
proof -
  have r: "rv (fst (unix_kernel (world p) (FdC (Write df bs)))) = int (length bs)"
    using assms(1) by (auto simp: at_file_def)
  show ?thesis
    apply (rule wp_unix_callI)
    unfolding r
    apply (rule assms(6))
    using assms(1-5) by (auto simp: at_file_def others_same_def map_of_set_pos)
qed

lemma transfer_loop_unix:
  assumes "copying w0 sf src c m pos df dest dm (world p)" "length c - pos < fuel"
    and "\<And>p'. copying w0 sf src c m (length c) df dest dm (world p') \<Longrightarrow> Q (Some True) p'"
  shows "wp (transfer_loop fuel unix_kernel sf df) Q p"
  using assms(1,2)
proof (induction fuel arbitrary: p pos)
  case 0
  then show ?case by simp
next
  case (Suc fuel)
  let ?b = "take 8192 (drop pos c)"
  note inv = Suc.prems(1) [unfolded copying_def]
  show ?case
    unfolding transfer_loop.simps wp_bind
  proof (rule copying_read [OF Suc.prems(1)])
    fix p1 :: "unix proc" and r
    assume r: "rv r = int (length ?b)" "out r = ?b"
      and 1: "node_at (world p1) src = Some (File c m)" "map_of (fdt (world p1)) sf = Some (src, pos + length ?b)"
        "at_file w0 df dest (take pos c) dm pos (world p1)"
    have sock: "sf \<notin> set (socks (world p'))" if "at_file w0 df dest x dm y (world p')" for x y and p' :: "unix proc"
      using that inv by (auto simp: at_file_def)
    show "wp (if rv r \<le> 0 then State_Monad.return (Some True)
        else call unix_kernel (FdC (Write df (take (nat (rv r)) (out r)))) \<bind>
             (\<lambda>w. if w \<noteq> rv r then State_Monad.return (Some False) else transfer_loop fuel unix_kernel sf df)) Q p1"
    proof (cases "?b = []")
      case True
      then have "pos = length c" using inv by simp
      then have "Q (Some True) p1" using 1 inv sock [OF 1(3)] by (intro assms(3)) (simp add: copying_def)
      then show ?thesis using r(1) True by (simp add: prog_simps)
    next
      case False
      have "\<not> rv r \<le> 0" using r(1) False by auto
      moreover have "take (nat (rv r)) (out r) = ?b" by (simp only: r nat_int take_all order_refl)
      moreover have "wp (call unix_kernel (FdC (Write df ?b)))
          (\<lambda>w. wp (if w \<noteq> rv r then State_Monad.return (Some False) else transfer_loop fuel unix_kernel sf df) Q) p1"
      proof (rule copying_write [OF 1(3) 1(1,2)])
        show "sf \<noteq> df" "src \<noteq> dest" using inv by auto
        fix p2 :: "unix proc"
        assume 2: "at_file w0 df dest (overwrite (take pos c) pos ?b) dm (pos + length ?b) (world p2)"
          "node_at (world p2) src = Some (File c m)" "map_of (fdt (world p2)) sf = Some (src, pos + length ?b)"
        have app: "overwrite (take pos c) pos ?b = take (pos + length ?b) c"
          using inv by (auto simp: overwrite_def min_def take_add)
        have "wp (transfer_loop fuel unix_kernel sf df) Q p2"
        proof (rule Suc.IH)
          show "copying w0 sf src c m (pos + length ?b) df dest dm (world p2)"
            using 2 inv sock [OF 2(1)] app by (auto simp: copying_def)
          show "length c - (pos + length ?b) < fuel" using Suc.prems(2) False by auto
        qed
        then show "wp (if int (length ?b) \<noteq> rv r then State_Monad.return (Some False)
            else transfer_loop fuel unix_kernel sf df) Q p2" using r(1) by simp
      qed
      ultimately show ?thesis by (simp only: if_False wp_bind)
    qed
  qed
qed

lemma transfer_end:
  assumes "copying w0 sf src c m (length c) df dest dm (world p)" "0 \<le> sf" "0 \<le> df" "cfd \<in> set (socks w0)"
    and "\<And>p'. others_same dest w0 (world p') \<Longrightarrow> node_at (world p') dest = Some (File c dm) \<Longrightarrow>
           sock_out (world p') cfd = sock_out w0 cfd @ enc_response res \<Longrightarrow> Q (Returned res) p'"
  shows "wp (transfer_out unix_kernel cfd sf df res) Q p"
proof -
  have sf: "map_of (fdt (world p)) sf = Some (src, length c)" "sf \<notin> set (socks (world p))" "sf \<noteq> df"
    and df: "at_file w0 df dest c dm (length c) (world p)"
    using assms(1) by (simp_all add: copying_def)
  have df': "at_file w0 df dest c dm (length c) (closed sf (world p))"
    using df sf(3) by (auto simp: at_file_def others_same_def closed_def map_of_drop node_at_def)
  show ?thesis
    unfolding transfer_out_def respond_def
    apply (simp add: prog_simps assms(2,3) cong: step_congs)
    apply (rule wp_unix_callI)
    apply (simp add: sf closed_def [symmetric] prog_simps cong: step_congs)
    apply (rule wp_at_file(6) [where ?w0.0 = w0 and q = dest and c = c and m = dm and pos = "length c"])
     apply (simp add: df')
    apply (simp add: prog_simps cong: step_congs)
    apply (rule wp_unix_writeAll)
     apply (simp add: assms(4))
    apply (simp add: prog_simps)
    apply (rule assms(5); simp add: others_same_def)
    done
qed

lemma opened_fields:
  "next_fd (opened q w) = next_fd w + 1" "users (opened q w) = users w"
  "fdt (opened q w) = (next_fd w, q, 0) # fdt w" "users (fs_set q n w) = users w"
  unfolding opened_def new_fd_def fs_set_def by simp_all

lemma HandleHelperTransfer_unix:
  assumes "cfd \<in> set (socks (world p))" "fresh_fd (world p)" "next_fd (world p) + 1 \<notin> set (socks (world p))"
    and "\<not> strstr dir ''..''" "\<not> strstr file ''..''"
    and "src = abs_path (world p) (transfer_src root sender file)"
    and "dest = abs_path (world p) (transfer_dest root recv dir file)"
    and "node_at (world p) src = Some (File c m)" "src \<noteq> dest"
    and "writable (world p) dest 0x1A4 old dm" "map_of (users (world p)) recv = Some u" "length c < fuel"
  shows "wp (HandleHelperTransfer fuel unix_kernel cfd root sender file recv dir res)
    (\<lambda>r p'. r = Returned (ok_answer ''Transfer successful'' (res_payload_len res) res) \<and>
       sock_out (world p') cfd = sock_out (world p) cfd @ enc_response (ok_answer ''Transfer successful'' (res_payload_len res) res) \<and>
       node_at (world p') dest = Some (File c dm) \<and>
       (\<forall>q'. q' \<noteq> dest \<longrightarrow> node_at (world p') q' = node_at (world p) q')) p"
proof -
  let ?sf = "next_fd (world p)" and ?w1 = "opened src (world p)"
  let ?df = "?sf + 1"
  have fd: "0 \<le> ?sf" "\<not> ?sf < 0" "\<not> ?df < 0" "?sf \<notin> set (socks (world p))" "0 \<le> ?df"
    using assms(2) by (auto simp: fresh_fd_def)
  note nfd = opened_fields(1) [of src "world p"]
  have dirs: "is_dir ?w1 q = is_dir (world p) q" for q by (simp add: is_dir_def)
  define w2 where "w2 = opened dest (fs_set dest (File [] dm) ?w1)"
  have open2: "unix_kernel ?w1 (PathC (Open (transfer_dest root recv dir file) [O_WRONLY, O_CREAT, O_TRUNC] 0x1A4))
      = (res_val ?df, w2)"
    using assms(10) nfd
    by (auto simp: open_at_def w2_def assms(7) [symmetric] writable_def dirs)
  have step2: "wp (call unix_kernel (PathC (Open (transfer_dest root recv dir file) [O_WRONLY, O_CREAT, O_TRUNC] 0x1A4))) Q q"
    if "world q = ?w1" "\<And>q'. world q' = w2 \<Longrightarrow> Q ?df q'" for q :: "unix proc" and Q
    by (rule wp_unix_callI) (simp only: that(1) open2 fst_conv snd_conv res_val_simps that(2))
  have users: "users w2 = users (world p)" by (simp add: w2_def opened_fields)
  have cp: "copying ?w1 ?sf src c m 0 ?df dest dm w2"
    using assms(1,3,8,9) fd by (auto simp: copying_def at_file_def others_same_def w2_def opened_fields)
  show ?thesis
    unfolding HandleHelperTransfer_def
    apply (simp add: assms(4,5) prog_simps cong: step_congs)
    apply (rule wp_unix_open_file)
       apply (simp_all add: assms(8) assms(6) [symmetric] cong: step_congs)
    apply (simp add: prog_simps fd lock_fd_def cong: step_congs)
    apply (rule wp_unix_callI)
    apply (simp add: prog_simps cong: step_congs)
    apply (rule step2, assumption)
    apply (simp add: prog_simps fd cong: step_congs)
    apply (rule wp_unix_sysI)
    apply (simp add: users assms(11) prog_simps cong: step_congs)
    apply (rule wp_unix_callI)
    apply (simp add: lock_fd_def prog_simps fd cong: step_congs)
    apply (rule wp_unix_callI)
    apply (simp add: prog_simps cong: step_congs)
    apply (rule transfer_loop_unix [where ?w0.0 = ?w1 and c = c and m = m and pos = 0 and src = src
          and dest = dest and dm = dm])
      apply (simp add: cp)
     apply (simp add: assms(12))
    apply (simp add: prog_simps cong: step_congs)
    apply (rule transfer_end, assumption)
     apply (simp_all add: fd assms(1) others_same_def)
    done
qed

end
