(* ===== verification/Helper_Properties.thy ===== *)
theory Helper_Properties
  imports Helper_Tree
begin

text \<open>
  The properties of the helper: confinement, descriptors and locks for every
  behaviour of the system; what creating a user, logging in and transferring a file
  do; and the effect of the file commands on the file tree.
\<close>

section \<open>Confinement of the requests\<close>

text \<open>A process that has made no call yet.\<close>

definition fresh_proc :: "'w \<Rightarrow> int \<Rightarrow> 'w proc" where
  "fresh_proc w e = \<lparr>world = w, events = [], errno = e\<rparr>"

lemma fresh_proc_simps [simp]:
  "world (fresh_proc w e) = w" "events (fresh_proc w e) = []" "errno (fresh_proc w e) = e"
  by (simp_all add: fresh_proc_def)

definition home_commands :: "helper_commands list" where
  "home_commands = [CD, CREATE_FILE, CHMOD, DELETE, MOVE, READ, WRITE]"

lemma jailed_undefined: "jail_state (session_home s) s p \<noteq> None \<Longrightarrow> wp (State_Monad.return Undefined) (jailed s) p"
  by (auto simp: wp_simps jailed_def split: option.splits)

lemmas file_handlers_jailed =
  ChangeDirectory_jailed HandlerHelperCreateFile_jailed HandleHelperChmod_jailed
  HandleHelperDelete_jailed HandleHelperMove_jailed HandleHelperRead_jailed HandleHelperWrite_jailed

text \<open>C1. The confinement of a file request, for every behaviour of the system: in serving it the
  helper names a file only while its last successful \<open>chroot\<close> was to the session's home and its
  effective user, effective group and supplementary groups are the session's, and when the handler
  returns the effective ids are root's again.\<close>

theorem file_requests_are_confined:
  assumes "decode_command (req_cmd hdr) = Some cmd" "cmd \<in> set home_commands" "events p = []"
  shows "wp (handle_request fuel K helper fd hdr args data) (jailed (req_session hdr)) p"
proof -
  have p: "jail_state (session_home (req_session hdr)) (req_session hdr) p = Some root_cred"
    using assms(3) by simp
  show ?thesis
    using assms(2) unfolding handle_request_def Let_def assms(1) home_commands_def
    by (auto split: option.split intro!: file_handlers_jailed [OF p] jailed_undefined simp: p)
qed

text \<open>A kernel on which every call succeeds with 0, for the witnesses.\<close>

definition ok_kernel :: "unit kernel" where
  "ok_kernel w c = (res_val 0, w)"

definition request_of :: "helper_commands \<Rightarrow> helper_request_header" where
  "request_of cmd = \<lparr>req_cmd = command_code cmd, req_argc = 1, req_payload_len = 0,
     req_session = zero_session, req_offset = 0, req_data_len = 0\<rparr>"

lemma decode_request_of [simp]: "decode_command (req_cmd (request_of cmd)) = Some cmd"
  by (cases cmd) (simp_all add: request_of_def)

theorem file_requests_are_confined_witness:
  "wp (handle_request 9 ok_kernel \<lparr>socket_fds = 3, rootDir = ''/srv''\<rparr> 4 (request_of DELETE) [''f''] [])
     (jailed (req_session (request_of DELETE))) (fresh_proc () 0)"
  by (rule file_requests_are_confined [of _ DELETE]) (simp_all add: home_commands_def del: decode_command.simps)

text \<open>C26. The streaming requests (download and upload) name files only inside the session's home
  and under its identity, and a handler that answers success has taken root's identity back; the
  error answers of a failed sandbox or a failed open are not covered: there the code does not take
  it back.\<close>

theorem streams_are_confined:
  assumes "decode_command (req_cmd hdr) = Some cmd" "cmd = DOWNLOAD \<or> cmd = UPLOAD" "events p = []"
  shows "wp (handle_request fuel K helper fd hdr args data) (jailed_on_success (req_session hdr)) p"
proof -
  have p: "jail_state (session_home (req_session hdr)) (req_session hdr) p = Some root_cred"
    using assms(3) by simp
  have r: "res_status (initial_response (req_cmd hdr)) \<noteq> 0" by (simp add: initial_response_def)
  show ?thesis
    using assms(2) unfolding handle_request_def Let_def assms(1)
    by (auto split: option.split simp: wp_return jailed_on_success_def p
        intro!: HandleHelperDownload_jailed [OF p r] HandleHelperUpload_jailed [OF p r])
qed

theorem streams_are_confined_witness:
  "wp (handle_request 9 ok_kernel \<lparr>socket_fds = 3, rootDir = ''/srv''\<rparr> 4 (request_of UPLOAD) [''f''] [])
     (jailed_on_success (req_session (request_of UPLOAD))) (fresh_proc () 0)"
  by (rule streams_are_confined [of _ UPLOAD]) (simp_all del: decode_command.simps)

lemma ls_loop_only:
  "only_calls (\<lambda>c. (\<exists>d. c = FdC (Readdir d)) \<or> (\<exists>q. c = PathC (Stat q))) (ls_loop fuel K dir path es)"
proof (induction fuel arbitrary: es)
  case 0
  then show ?case by (simp add: only_calls_return)
next
  case (Suc fuel)
  then show ?case
    by (auto intro!: only_calls_bind only_calls_sys only_calls_return split: option.split)
qed

lemma jail_ls_loop:
  assumes "jail_state root s p = Some c" "confined root s c"
    and "\<And>r p'. jail_state root s p' \<noteq> None \<Longrightarrow> Q r p'"
  shows "wp (ls_loop fuel K dir path es) Q p"
proof (rule wp_only_callsI [OF ls_loop_only], rule assms(3))
  fix p' :: "'a proc" and es
  assume e: "events p' = events p @ es"
    and "\<forall>e\<in>set es. (\<exists>d. fst e = FdC (Readdir d)) \<or> (\<exists>q. fst e = PathC (Stat q))"
  then have "mon_run (jail_step root s) c es = Some c"
    by (intro mon_run_ignored) (auto simp: jail_step_def assms(2))
  then show "jail_state root s p' \<noteq> None" by (simp add: e mon_run_append assms(1))
qed

definition jailed_in :: "string \<Rightarrow> ClientSession \<Rightarrow> 'a outcome \<Rightarrow> 'w proc \<Rightarrow> bool" where
  "jailed_in root s r p \<longleftrightarrow> (case jail_state root s p of None \<Rightarrow> False
     | Some c \<Rightarrow> (case r of Returned _ \<Rightarrow> c_euid c = 0 \<and> c_egid c = 0 | _ \<Rightarrow> True))"

lemma jail_ls_out:
  assumes "jail_state root s p \<noteq> None"
  shows "wp (ls_out K fd dir es res) (jailed_in root s) p"
  using assms unfolding ls_out_def Let_def
  by (auto simp: jailed_in_def wp_simps mon_simps intro!: any_kernel jail_regainRoot [where root = root and s = s]
      jail_loops [where root = root and s = s])

lemma confined_some:
  "jail_state root s p \<noteq> None \<Longrightarrow> confined root s (the (jail_state root s p)) \<Longrightarrow>
   \<exists>c. jail_state root s p = Some c \<and> confined root s c"
  by auto

text \<open>
  The order of the answer: a monitor that keeps the credentials as the jail monitor does and objects
  to a byte written on the client's connection while an effective id is not root's.
\<close>

definition answer_step :: "int \<Rightarrow> cred \<Rightarrow> event \<Rightarrow> cred option" where
  "answer_step fd c e = (case fst e of
       CredC k \<Rightarrow> Some (cred_step c k (snd e))
     | FdC (Write fd' b) \<Rightarrow> if fd' = fd \<and> \<not> (c_euid c = 0 \<and> c_egid c = 0) then None else Some c
     | _ \<Rightarrow> Some c)"

lemma answer_step_simps [mon_simps]:
  "answer_step fd c (PathC k1, r) = Some c" "answer_step fd c (CredC k, r) = Some (cred_step c k r)"
  "answer_step fd c (FdC (Closedir d), r) = Some c" "answer_step fd c (FdC (Readdir d), r) = Some c"
  "answer_step fd c (FdC (Write fd b), r) = (if c_euid c = 0 \<and> c_egid c = 0 then Some c else None)"
  by (simp_all add: answer_step_def)

abbreviation answer_state :: "int \<Rightarrow> 'w proc \<Rightarrow> cred option" where
  "answer_state fd p \<equiv> mon_run (answer_step fd) root_cred (events p)"

definition answered_as_root :: "int \<Rightarrow> 'a outcome \<Rightarrow> 'w proc \<Rightarrow> bool" where
  "answered_as_root fd r p \<longleftrightarrow> (case r of Returned _ \<Rightarrow> answer_state fd p \<noteq> None | _ \<Rightarrow> True)"

lemma answer_sandbox_root:
  assumes "answer_state fd p \<noteq> None" "\<And>n p'. answer_state fd p' \<noteq> None \<Longrightarrow> Q n p'"
  shows "wp (sandboxUserToRoot K s root) Q p"
  using assms(1) unfolding sandboxUserToRoot_def dropPrivilegesTemp_def Let_def
  by (auto simp: wp_simps mon_simps intro!: any_kernel assms(2))

lemma answer_regainRoot:
  assumes "answer_state fd p \<noteq> None"
    and "\<And>n p'. answer_state fd p' \<noteq> None \<Longrightarrow> n = 0 \<or> n = - 1 \<Longrightarrow>
           n = 0 \<longrightarrow> c_euid (the (answer_state fd p')) = 0 \<and> c_egid (the (answer_state fd p')) = 0 \<Longrightarrow> Q n p'"
  shows "wp (regainRoot K) Q p"
  using assms(1) unfolding regainRoot_def
  by (auto simp: wp_simps mon_simps intro!: any_kernel assms(2))

lemma answer_writeAll:
  assumes "answer_state fd p = Some c" "c_euid c = 0" "c_egid c = 0"
    and "\<And>n p'. answer_state fd p' = Some c \<Longrightarrow> Q n p'"
  shows "wp (writeAll K fd bs) Q p"
proof (rule wp_only_callsI [OF writeAll_only], rule assms(4))
  fix p' :: "'a proc" and es
  assume e: "events p' = events p @ es" "\<forall>e\<in>set es. writes_to fd (fst e)"
  then have "mon_run (answer_step fd) c es = Some c"
    by (intro mon_run_ignored) (auto simp: writes_to_iff answer_step_def assms(2,3))
  then show "answer_state fd p' = Some c" by (simp add: e mon_run_append assms(1))
qed

lemma answer_ls_loop:
  assumes "answer_state fd p \<noteq> None" "\<And>r p'. answer_state fd p' \<noteq> None \<Longrightarrow> Q r p'"
  shows "wp (ls_loop fuel K dir path es) Q p"
proof (rule wp_only_callsI [OF ls_loop_only], rule assms(2))
  fix p' :: "'a proc" and es
  assume e: "events p' = events p @ es"
    and "\<forall>e\<in>set es. (\<exists>d. fst e = FdC (Readdir d)) \<or> (\<exists>q. fst e = PathC (Stat q))"
  then have "mon_run (answer_step fd) c es = Some c" for c
    by (intro mon_run_ignored) (auto simp: answer_step_def)
  then show "answer_state fd p' \<noteq> None" using assms(1) by (auto simp: e mon_run_append)
qed

lemma answer_ls_out:
  assumes "answer_state fd p \<noteq> None"
  shows "wp (ls_out K fd dir es res) (answered_as_root fd) p"
  using assms unfolding ls_out_def Let_def
  by (auto simp: answered_as_root_def wp_simps mon_simps intro!: any_kernel answer_regainRoot [where fd = fd]
      answer_writeAll [where fd = fd]) auto

lemma handleHelperLs_answers:
  assumes "answer_state fd p \<noteq> None"
  shows "wp (handleHelperLs fuel K fd hdr path root res) (answered_as_root fd) p"
  unfolding handleHelperLs_def sandbox_failed_def
  by (auto simp: wp_simps mon_simps answered_as_root_def [of _ Exited] answered_as_root_def [of _ Running]
        answered_as_root_def [of _ Undefined] wp_def [of "writeAll K fd x" for x]
      split: outcome.split intro!: any_kernel answer_sandbox_root [OF assms] answer_ls_out
        answer_ls_loop [where fd = fd])

lemma handleHelperLs_jailed:
  fixes p :: "'w proc"
  assumes "events p = []"
  shows "wp (handleHelperLs fuel K fd hdr path root res) (jailed_in root (req_session hdr)) p"
proof -
  let ?s = "req_session hdr"
  have p: "jail_state root ?s p = Some root_cred" using assms by simp
  let ?Q = "jailed_in root ?s"
  show ?thesis
    unfolding handleHelperLs_def wp_bind
  proof (rule jail_sandbox_root [OF p])
    fix n :: int and p1 :: "'w proc"
    assume j: "jail_state root ?s p1 \<noteq> None" and n: "n = 0 \<or> n = - 1"
      and c: "n = 0 \<longrightarrow> confined root ?s (the (jail_state root ?s p1))"
    show "wp (if n = - 1 then sandbox_failed K fd (copy_msg ''Internal server error'' res)
       else do {
         dir \<leftarrow> call K (PathC (Opendir path));
         if dir < 0 then do {
           e \<leftarrow> get_errno;
           ls_out K fd dir [] (set_msg (''ls failed: '' @ strerror e) (res\<lparr>res_status := - 1\<rparr>))
         }
         else do {
           es \<leftarrow> ls_loop fuel K dir path [];
           case es of
             Returned entries \<Rightarrow> ls_out K fd dir entries (copy_msg ''Success'' (res\<lparr>res_status := 0\<rparr>))
           | Exited \<Rightarrow> State_Monad.return Exited
           | Running \<Rightarrow> State_Monad.return Running
           | Undefined \<Rightarrow> State_Monad.return Undefined
         }
       }) ?Q p1"
    proof (cases "n = 0")
      case False
      then show ?thesis using n j unfolding sandbox_failed_def
        by (auto simp: wp_simps jailed_in_def intro!: jail_loops [where root = root and s = ?s])
    next
      case True
      obtain c1 where c1: "jail_state root ?s p1 = Some c1" "confined root ?s c1"
        using confined_some [OF j] c True by blast
      have after: "wp (case es of Returned entries \<Rightarrow> ls_out K fd dir entries (copy_msg ''Success'' (res\<lparr>res_status := 0\<rparr>))
           | Exited \<Rightarrow> State_Monad.return Exited | Running \<Rightarrow> State_Monad.return Running
           | Undefined \<Rightarrow> State_Monad.return Undefined) ?Q p2"
        if "jail_state root ?s p2 \<noteq> None" for es dir p2
        using that by (cases es) (auto simp: wp_return jailed_in_def [of _ _ Exited] jailed_in_def [of _ _ Running] jailed_in_def [of _ _ Undefined] intro!: jail_ls_out)
      show ?thesis using True c1(2)
        by (auto simp: wp_simps mon_simps c1(1) intro!: wp_callI jail_ls_out
          jail_ls_loop [where root = root and s = ?s and c = c1] after)
    qed
  qed
qed

text \<open>C27. Listing a directory looks at files only after the helper has locked itself into the server's
  root under the session's identity.  When the handler returns, it has root's effective ids again, and
  it had them at every byte it has written to the connection; the one answer that is not covered is
  that of a failed sandbox, after which the process ends.\<close>

theorem listing_is_confined:
  assumes "events p = []"
  shows "wp (handleHelperLs fuel K fd hdr path root res)
    (\<lambda>r p'. jailed_in root (req_session hdr) r p' \<and> answered_as_root fd r p') p"
  unfolding wp_conj by (intro conjI handleHelperLs_jailed handleHelperLs_answers) (simp_all add: assms)

theorem listing_is_confined_witness:
  "wp (handleHelperLs 9 ok_kernel 4 (request_of LS) ''.'' ''/srv'' (initial_response 3))
    (\<lambda>r p'. jailed_in ''/srv'' (req_session (request_of LS)) r p' \<and> answered_as_root 4 r p') (fresh_proc () 0)"
  by (rule listing_is_confined) simp

section \<open>Descriptors and locks\<close>

definition locking_commands :: "helper_commands list" where
  "locking_commands = [CD, CHMOD, DELETE, MOVE, READ]"

lemma fds_at_fresh: "events p = [] \<Longrightarrow> fds_at lenient cfd [] [] p"
  by (simp add: fds_at_def)

lemma fds_undefined: "events p = [] \<Longrightarrow> wp (State_Monad.return Undefined) (fds_clean lenient cfd [] []) p"
  by (simp add: wp_return fds_clean_def)

text \<open>C22. For every behaviour of the system: cd, chmod, delete, move and read close every descriptor
  they open exactly once before they return, change the mode of, remove or rename a file only
  while they hold its write lock, and read one only while they hold a lock on it.\<close>

theorem commands_hold_locks:
  assumes "decode_command (req_cmd hdr) = Some cmd" "cmd \<in> set locking_commands" "events p = []"
  shows "wp (handle_request fuel K helper fd hdr args data) (fds_clean False fd [] []) p"
proof -
  note p = fds_at_fresh [OF assms(3)]
  show ?thesis
    using assms(2) unfolding handle_request_def Let_def assms(1) locking_commands_def
    by (auto split: option.split intro!: ChangeDirectory_fds [OF p] HandleHelperChmod_fds [OF p]
        HandleHelperDelete_fds [OF p] HandleHelperMove_fds [OF p] HandleHelperRead_fds [OF p]
        fds_undefined assms(3))
qed

theorem commands_hold_locks_witness:
  "wp (handle_request 9 ok_kernel \<lparr>socket_fds = 3, rootDir = ''/srv''\<rparr> 4 (request_of DELETE) [''f''] [])
     (fds_clean False 4 [] []) (fresh_proc () 0)"
  by (rule commands_hold_locks [of _ DELETE]) (simp_all add: locking_commands_def del: decode_command.simps)

text \<open>
  Whether a file has been locked: the descriptors that are open for \<open>path\<close>, and whether the
  exclusive lock was granted on one of them while it was open.
\<close>

definition lock_step :: "string \<Rightarrow> int list \<times> bool \<Rightarrow> event \<Rightarrow> int list \<times> bool" where
  "lock_step path st e = (case fst e of
       PathC (Open p fl m) \<Rightarrow> (if p = path \<and> 0 \<le> rv (snd e) then rv (snd e) # fst st else removeAll (rv (snd e)) (fst st), snd st)
     | PathC (Openat d p fl m) \<Rightarrow> (removeAll (rv (snd e)) (fst st), snd st)
     | FdC (Close fd) \<Rightarrow> (removeAll fd (fst st), snd st)
     | FdC (Setlkw fd F_WRLCK) \<Rightarrow> (fst st, snd st \<or> fd \<in> set (fst st) \<and> 0 \<le> rv (snd e))
     | _ \<Rightarrow> st)"

definition was_locked :: "string \<Rightarrow> event list \<Rightarrow> bool" where
  "was_locked path es \<longleftrightarrow> snd (foldl (lock_step path) ([], False) es)"

lemma lock_step_keeps: "snd st \<Longrightarrow> snd (lock_step path st e)"
  by (auto simp: lock_step_def split: syscall.split path_call.split fd_call.split lock_kind.split)

lemma was_locked_append: "was_locked path es \<Longrightarrow> was_locked path (es @ es')"
proof (induction es' rule: rev_induct)
  case (snoc e es')
  then show ?case using lock_step_keeps by (simp add: was_locked_def flip: append_assoc)
qed simp

lemma locked_after_calls:
  assumes "was_locked path (events p)" "only_calls C m"
    and "\<And>a p'. was_locked path (events p') \<Longrightarrow> Q a p'"
  shows "wp m Q p"
  by (rule wp_only_callsI [OF assms(2)]) (auto intro!: assms(3) was_locked_append assms(1))

text \<open>Success is answered only when the file has been locked.\<close>

definition locked_success :: "string \<Rightarrow> helper_response outcome \<Rightarrow> 'w proc \<Rightarrow> bool" where
  "locked_success path r p \<longleftrightarrow> (\<forall>a. r = Returned a \<and> res_status a = 0 \<longrightarrow> was_locked path (events p))"

lemma locked_success_simps [simp]:
  "locked_success path Exited p" "locked_success path Running p" "locked_success path Undefined p"
  by (simp_all add: locked_success_def)

lemma regainRoot_only: "only_calls (\<lambda>c. \<exists>k. c = CredC k) (regainRoot K)"
  unfolding regainRoot_def by (auto intro!: only_calls_intros)

lemma success_regain:
  assumes "res_status res = 0 \<Longrightarrow> was_locked path (events p)"
  shows "wp (regain_and_respond K fd res) (locked_success path) p"
proof (cases "res_status res = 0")
  case True
  note p = assms [OF True]
  show ?thesis
    unfolding regain_and_respond_def respond_def wp_bind
    by (rule locked_after_calls [OF p regainRoot_only])
      (auto simp: wp_simps locked_success_def intro!: locked_after_calls [OF _ writeAll_only])
next
  case False
  then have q: "wp (writeAll K fd bs) (\<lambda>_. wp (State_Monad.return (Returned res)) (locked_success path)) p'" for bs p'
    by (simp add: wp_run locked_success_def)
  show ?thesis
    unfolding regain_and_respond_def respond_def regainRoot_def
    by (auto simp: wp_simps q intro!: any_kernel)
qed

lemma success_write_out:
  assumes "res_status res = 0 \<Longrightarrow> was_locked path (events p)"
  shows "wp (write_out K cfd fd res) (locked_success path) p"
  using assms unfolding write_out_def
  by (auto simp: wp_simps intro!: any_kernel success_regain was_locked_append)

lemma success_write_data:
  assumes "was_locked path (events p)"
  shows "wp (write_data K cfd fd data n res) (locked_success path) p"
  using assms unfolding write_data_def Let_def
  by (auto simp: wp_simps intro!: any_kernel success_write_out was_locked_append)

lemma success_create_out:
  assumes "res_status res = 0 \<Longrightarrow> was_locked path (events p)"
  shows "wp (create_out K cfd fd lfd res) (locked_success path) p"
  using assms unfolding create_out_def unlock_file_def
  by (auto simp: wp_simps intro!: any_kernel success_regain was_locked_append)

lemma success_sandbox_failed: "wp (sandbox_failed K fd res) (locked_success path) p"
  unfolding sandbox_failed_def by (simp add: wp_run split_beta)

lemma HandleHelperWrite_success:
  assumes "res_status res \<noteq> 0"
  shows "wp (HandleHelperWrite K cfd hdr path offset data n res) (locked_success path) p"
  unfolding HandleHelperWrite_def Let_def lock_fd_def lock_of_def sandboxUserToHisHome_def dropPrivilegesTemp_def
  by (auto simp: wp_simps assms was_locked_def lock_step_def intro!: any_kernel success_write_out success_sandbox_failed
      locked_after_calls [OF _ pad_spaces_io, where path = path] success_write_data)

lemma HandlerHelperCreateFile_success:
  assumes "res_status res \<noteq> 0"
  shows "wp (HandlerHelperCreateFile K cfd hdr path mode False res) (locked_success path) p"
  unfolding HandlerHelperCreateFile_def Let_def lock_file_def lock_of_def sandboxUserToHisHome_def dropPrivilegesTemp_def
  by (auto simp: wp_simps assms was_locked_def lock_step_def intro!: any_kernel success_create_out success_sandbox_failed)

text \<open>C37. The same for creating and for writing a file, with two differences.  The descriptors are judged
  up to the first lock the system refuses: every descriptor is closed once and data is written to a
  file only under its write lock.  And what is said of a create is about its answer, since a create
  writes no data: for both, success is answered only when the exclusive lock was granted on a
  descriptor that is open for that path (a directory is not locked).  A create empties a file that is
  already there when it opens it, before it asks for the lock: that is not covered, and is a defect.\<close>

theorem writers_hold_locks:
  assumes "decode_command (req_cmd hdr) = Some cmd" "cmd = WRITE \<or> cmd = CREATE_FILE" "events p = []"
    and "cmd = CREATE_FILE \<longrightarrow> \<not> (2 < req_argc hdr \<and> arg args 2 = Some ''-d'')" "arg args 0 = Some path"
  shows "wp (handle_request fuel K helper fd hdr args data)
    (\<lambda>r p'. fds_clean True fd [] [] r p' \<and> locked_success path r p') p"
  unfolding wp_conj
proof
  note p = fds_at_fresh [OF assms(3)]
  show "wp (handle_request fuel K helper fd hdr args data) (fds_clean True fd [] []) p"
    using assms(2) unfolding handle_request_def Let_def assms(1)
    by (auto split: option.split intro!: HandleHelperWrite_fds [OF p] HandlerHelperCreateFile_fds [OF p]
        fds_undefined assms(3))
  have r: "res_status (initial_response (req_cmd hdr)) \<noteq> 0" by (simp add: initial_response_def)
  have dir: "cmd = CREATE_FILE \<Longrightarrow> (2 < req_argc hdr \<and> arg args 2 = Some ''-d'') = False" using assms(4) by simp
  show "wp (handle_request fuel K helper fd hdr args data) (locked_success path) p"
    using assms(2) unfolding handle_request_def Let_def assms(1,5)
    by (auto split: option.split simp: wp_return dir
        intro!: HandleHelperWrite_success [OF r] HandlerHelperCreateFile_success [OF r])
qed

theorem writers_hold_locks_witness:
  "wp (handle_request 9 ok_kernel \<lparr>socket_fds = 3, rootDir = ''/srv''\<rparr> 4 (request_of CREATE_FILE) [''f'', ''600''] [])
     (\<lambda>r p'. fds_clean True 4 [] [] r p' \<and> locked_success ''f'' r p') (fresh_proc () 0)"
  by (rule writers_hold_locks [of _ CREATE_FILE]) (simp_all add: arg_def del: decode_command.simps)

text \<open>A kernel that opens files as descriptor 7 and refuses every lock.\<close>

definition refusing_kernel :: "unit kernel" where
  "refusing_kernel w c = (case c of
       PathC (Open _ _ _) \<Rightarrow> (res_val 7, w)
     | FdC (Setlkw _ _) \<Rightarrow> (res_err EACCES, w)
     | FdC (Write _ bs) \<Rightarrow> (res_val (int (length bs)), w)
     | _ \<Rightarrow> (res_val 0, w))"

lemma refusing_write: "run_state (writeAll refusing_kernel fd bs) p =
    (int (length bs), if bs = [] then p else after_call p (FdC (Write fd bs)) (res_val (int (length bs))) (world p))"
  unfolding writeAll_def
  by (subst writeAll_loop.simps, subst writeAll_loop.simps) (simp add: run_call refusing_kernel_def)

text \<open>What happens when the lock is refused: the write handler closes the descriptor of the file
  and then, at its label \<open>out\<close>, closes it a second time.\<close>

lemma refused_write_closes_twice:
  "fd_state False 4 [] (snd (run_state (HandleHelperWrite refusing_kernel 4 hdr path offset data n res)
     (fresh_proc () 0))) = None"
  by (simp add: HandleHelperWrite_def sandboxUserToHisHome_def dropPrivilegesTemp_def lock_fd_def
      write_out_def regain_and_respond_def respond_def regainRoot_def run_call run_sys refusing_write
      refusing_kernel_def mon_simps)

end
