(* ===== verification/Helper_Directory.thy ===== *)
theory Helper_Directory
  imports Helper_Tree
begin

text \<open>
  The rest of the handlers on the kernel of \<open>Unix_Kernel\<close>: creating a file, changing a
  mode, changing the directory, and listing one.
\<close>

text \<open>One call with a known answer.\<close>

lemma wp_unix_step:
  assumes "unix_kernel (world p) c = (r, w)" "\<And>p'. world p' = w \<Longrightarrow> Q (rv r) p'"
  shows "wp (call unix_kernel c) Q p"
  by (rule wp_unix_callI) (simp add: assms)

section \<open>Create a file\<close>

lemma openat_dot:
  assumes "map_of (fdt w) d = Some (uroot w @ ucwd w, k)"
  shows "unix_path w (Openat d p fl m) = open_at (abs_path w p) fl m w"
  using assms by (simp add: abs_path_def)

lemma abs_path_dot: "abs_path w ''.'' = uroot w @ ucwd w"
  by (simp add: abs_path_def has_prefix_def)

lemma opened_dirs: "uroot (opened q w) = uroot w" "ucwd (opened q w) = ucwd w"
  unfolding opened_def new_fd_def by simp_all

lemma wp_unix_create_out:
  assumes "cfd \<in> set (socks (world p))" "0 \<le> fd" "0 \<le> lfd" "fd \<noteq> lfd"
    and "map_of (fdt (world p)) fd \<noteq> None" "map_of (fdt (world p)) lfd \<noteq> None"
    and "fd \<notin> set (socks (world p))" "lfd \<notin> set (socks (world p))"
    and "\<And>p'. (\<forall>q. node_at (world p') q = node_at (world p) q) \<Longrightarrow>
           sock_out (world p') cfd = sock_out (world p) cfd @ enc_response res \<Longrightarrow> Q (Returned res) p'"
  shows "wp (create_out unix_kernel cfd fd lfd res) Q p"
proof -
  obtain x where x: "map_of (fdt (closed fd (world p))) lfd = Some x"
    using assms(4,6) by (auto simp: closed_def map_of_drop)
  show ?thesis
    unfolding create_out_def
    apply (simp add: prog_simps assms(2,3) cong: step_congs)
    apply (rule wp_unix_callI)
    apply (simp add: assms(5,7) closed_def [symmetric] cong: step_congs)
    apply (simp only: wp_bind)
    apply (rule wp_unix_unlock_file)
       apply (simp_all add: x assms(3,8))
    apply (rule wp_unix_regain_respond)
     apply (simp add: assms(1))
    apply (rule assms(9); simp)
    done
qed

text \<open>The calls that make a file: the directory, the file, and the directory closed.\<close>

lemma unix_create_calls:
  assumes "n = next_fd w" "0 \<le> n" "\<forall>s\<in>set (socks w). s < n"
    and "q = abs_path w path" "is_dir w (abs_path w ''.'')" "writable w q mode c m"
  obtains w1 w2 w3 where "unix_kernel w (PathC (Open ''.'' [O_RDONLY, O_DIRECTORY] 0)) = (res_val n, w1)"
    "unix_kernel w1 (PathC (Openat n path [O_CREAT, O_WRONLY, O_TRUNC, O_NOFOLLOW] mode)) = (res_val (n + 1), w2)"
    "unix_kernel w2 (FdC (Close n)) = (res_val 0, w3)"
    "next_fd w3 = n + 2" "map_of (fdt w3) (n + 1) = Some (q, 0)" "socks w3 = socks w" "abs_path w3 path = q"
    "sock_out w3 = sock_out w" "\<And>x. node_at w3 x = (if x = q then Some (File [] m) else node_at w x)"
proof -
  define w1 where "w1 = opened (uroot w @ ucwd w) w"
  define w2 where "w2 = opened q (fs_set q (File [] m) w1)"
  define w3 where "w3 = closed n w2"
  have f1: "next_fd w1 = n + 1" "fdt w1 = (n, uroot w @ ucwd w, 0) # fdt w" "socks w1 = socks w"
      "uroot w1 = uroot w" "ucwd w1 = ucwd w" "abs_path w1 path = q" "sock_out w1 = sock_out w" "umask w1 = umask w" "node_at w1 x = node_at w x" for x
    by (simp_all add: w1_def opened_fields opened_dirs assms(1,4))
  have f2: "next_fd w2 = n + 2" "fdt w2 = (n + 1, q, 0) # fdt w1" "socks w2 = socks w" "abs_path w2 path = q"
      "sock_out w2 = sock_out w" "node_at w2 x = (if x = q then Some (File [] m) else node_at w x)" for x
    using f1 by (simp_all add: w2_def opened_fields)
  have o1: "unix_kernel w (PathC (Open ''.'' [O_RDONLY, O_DIRECTORY] 0)) = (res_val n, w1)"
    using assms(1,5) by (auto simp: w1_def open_at_def abs_path_dot is_dir_def split: option.splits node.splits)
  have "map_of (fdt w1) n = Some (uroot w1 @ ucwd w1, 0)" by (simp add: f1)
  then have "unix_kernel w1 (PathC (Openat n path [O_CREAT, O_WRONLY, O_TRUNC, O_NOFOLLOW] mode))
      = open_at q [O_CREAT, O_WRONLY, O_TRUNC, O_NOFOLLOW] mode w1"
    using openat_dot f1(6) by (simp del: unix_path.simps)
  also have "\<dots> = (res_val (n + 1), w2)"
    using assms(6) by (auto simp: open_at_def f1(1,8,9) w2_def writable_def is_dir_def)
  finally have o2: "unix_kernel w1 (PathC (Openat n path [O_CREAT, O_WRONLY, O_TRUNC, O_NOFOLLOW] mode)) = (res_val (n + 1), w2)" .
  have "n \<notin> set (socks w)" using assms(3) by force
  then have c3: "unix_kernel w2 (FdC (Close n)) = (res_val 0, w3)" by (simp add: f2 f1 w3_def closed_def)
  show thesis by (rule that [OF o1 o2 c3]) (simp_all add: w3_def closed_def f2)
qed

lemma HandlerHelperCreateFile_unix_file:
  assumes "sandboxable (world p) (req_session hdr)" "cfd \<in> set (socks (world p))"
    and "0 \<le> next_fd (world p)" "\<forall>s\<in>set (socks (world p)). s < next_fd (world p)"
    and "q = abs_path (in_home (world p) (req_session hdr)) path"
    and "is_dir (world p) (abs_path (in_home (world p) (req_session hdr)) ''.'')"
    and "writable (world p) q mode c m"
  shows "wp (HandlerHelperCreateFile unix_kernel cfd hdr path mode False res)
    (\<lambda>r p'. \<exists>a. r = Returned a \<and> a = copy_msg ''File created succesfully'' (res\<lparr>res_status := 0\<rparr>) \<and>
       sock_out (world p') cfd = sock_out (world p) cfd @ enc_response a \<and>
       (\<forall>q'. node_at (world p') q' = (if q' = q then Some (File [] m) else node_at (world p) q'))) p"
proof -
  let ?w = "in_home (world p) (req_session hdr)" and ?n = "next_fd (world p)"
  have w: "?n = next_fd ?w" "\<forall>s\<in>set (socks ?w). s < ?n" "is_dir ?w (abs_path ?w ''.'')" "writable ?w q mode c m"
    using assms(4,6,7) by (simp_all add: writable_def is_dir_def)
  have fd: "\<not> ?n < 0" "0 \<le> ?n" "\<not> ?n + 1 < 0" "0 \<le> ?n + 1" "0 \<le> ?n + 2" "\<not> ?n + 2 < 0"
      "?n \<notin> set (socks (world p))" "?n + 1 \<notin> set (socks (world p))" "?n + 2 \<notin> set (socks (world p))"
    using assms(3,4) by force+
  obtain w1 w2 w3 where o: "unix_kernel ?w (PathC (Open ''.'' [O_RDONLY, O_DIRECTORY] 0)) = (res_val ?n, w1)"
      "unix_kernel w1 (PathC (Openat ?n path [O_CREAT, O_WRONLY, O_TRUNC, O_NOFOLLOW] mode)) = (res_val (?n + 1), w2)"
      "unix_kernel w2 (FdC (Close ?n)) = (res_val 0, w3)"
    and f3: "next_fd w3 = ?n + 2" "map_of (fdt w3) (?n + 1) = Some (q, 0)" "socks w3 = socks (world p)" "abs_path w3 path = q"
      "sock_out w3 = sock_out (world p)" "\<And>x. node_at w3 x = (if x = q then Some (File [] m) else node_at (world p) x)"
    by (rule unix_create_calls [OF w(1) assms(3) w(2) assms(5) w(3,4)]) simp
  have f4: "map_of (fdt (opened q w3)) (?n + 1) = Some (q, 0)" "map_of (fdt (opened q w3)) (?n + 2) = Some (q, 0)"
    using f3 by (simp_all add: opened_fields)
  show ?thesis
    unfolding HandlerHelperCreateFile_def wp_bind
    apply (rule wp_unix_sandbox [OF assms(1)])
    apply (simp add: prog_simps cong: step_congs)
    apply (rule wp_unix_step, simp only: o(1))
    apply (simp add: fd prog_simps cong: step_congs)
    apply (rule wp_unix_step, simp only: o(2))
    apply (simp add: fd prog_simps cong: step_congs)
    apply (rule wp_unix_step, simp only: o(3))
    apply (simp add: prog_simps cong: step_congs)
    apply (rule wp_unix_lock_file [where c = "[]" and m = m])
      apply (simp add: f3)
     apply (simp add: f3 fd)
    apply (simp add: prog_simps f3 fd cong: step_congs)
    apply (rule wp_unix_create_out)
            apply (simp_all add: f4 fd assms(2) f3(3,5,6))
    done
qed

section \<open>Change a mode\<close>

lemma HandleHelperChmod_unix:
  assumes "sandboxable (world p) (req_session hdr)" "cfd \<in> set (socks (world p))" "fresh_fd (world p)"
    and "node_at (world p) q = Some (File c m)" "q = abs_path (in_home (world p) (req_session hdr)) path"
  shows "wp (HandleHelperChmod unix_kernel cfd hdr path mode res)
    (\<lambda>r p'. r = Returned (ok_answer ''Permissions updated successfully'' (res_payload_len res) res) \<and>
       sock_out (world p') cfd = sock_out (world p) cfd @
         enc_response (ok_answer ''Permissions updated successfully'' (res_payload_len res) res) \<and>
       (\<forall>q'. node_at (world p') q' = (if q' = q then Some (File c mode) else node_at (world p) q'))) p"
proof -
  let ?fd = "next_fd (world p)"
  have fd: "0 \<le> ?fd" "\<not> ?fd < 0" "?fd \<notin> set (socks (world p))" using assms(3) by (auto simp: fresh_fd_def)
  show ?thesis
    unfolding HandleHelperChmod_def wp_bind
    apply (rule wp_unix_sandbox [OF assms(1)])
    apply (simp add: prog_simps cong: step_congs)
    apply (rule wp_unix_lock_file)
      apply (simp add: assms(4) flip: assms(5))
     apply (simp add: fd)
    apply (simp add: prog_simps fd cong: step_congs)
    apply (rule wp_unix_callI)
    apply (simp add: prog_simps assms(4) Let_def assms(5) [symmetric] cong: step_congs)
    apply (rule wp_unix_unlock_out)
      apply (simp_all add: fd assms(2))
    done
qed

section \<open>Change the directory\<close>

text \<open>The path of a directory of the home as \<open>getcwd\<close> prints it inside the home.\<close>

definition cwd_string :: "unix \<Rightarrow> fs_path \<Rightarrow> string" where
  "cwd_string w d = join_slash (drop (length (uroot w)) d)"

lemma set_cwd_simps [simp]:
  "res_status (set_cwd c res) = res_status res" "res_msg (set_cwd c res) = res_msg res"
  "response_wf res \<Longrightarrow> response_wf (set_cwd c res)"
  by (auto simp: set_cwd_def response_wf_def length_snprintf)

lemma takeWhile_of_take: "takeWhile P (take n xs) = take n (takeWhile P xs)"
  by (induction xs arbitrary: n) (auto simp: take_Cons split: nat.split)

lemma cd_cwd_set_cwd:
  assumes "NUL \<notin> set s" "length s < ABS_PATH"
  shows "cd_cwd (set_cwd s res) = s"
  using assms c_str_snprintf0 [of s ABS_PATH "res_data res"]
  by (simp add: cd_cwd_def set_cwd_def c_str_def takeWhile_of_take)

lemma ChangeDirectory_unix:
  assumes "sandboxable (world p) (req_session hdr)" "cfd \<in> set (socks (world p))"
    and "d = abs_path (in_home (world p) (req_session hdr)) path" "is_dir (world p) d"
    and "s = cwd_string (in_home (world p) (req_session hdr)) d"
  shows "wp (ChangeDirectory unix_kernel cfd hdr path res)
    (\<lambda>r p'. let b = set_cwd s (set_msg ''Directory changed'' (res\<lparr>res_status := 0\<rparr>));
               a = b\<lparr>res_payload_len := of_nat (length (cd_cwd b) + 1)\<rparr> in
       r = Returned a \<and> sock_out (world p') cfd = sock_out (world p) cfd @ enc_response a \<and>
       fs (world p') = fs (world p)) p"
proof -
  have d: "is_dir (in_home (world p) (req_session hdr)) d" using assms(4) by (simp add: is_dir_def)
  show ?thesis
    unfolding ChangeDirectory_def wp_bind Let_def
    apply (rule wp_unix_sandbox [OF assms(1)])
    apply (simp add: prog_simps cong: step_congs)
    apply (rule wp_unix_callI)
    apply (simp add: prog_simps assms(3) [symmetric] Let_def d cong: step_congs)
    apply (rule wp_unix_sysI)
    apply (simp add: prog_simps cong: step_congs)
    apply (simp add: cd_out_def cong: step_congs)
    apply (rule wp_unix_regain_respond)
     apply (simp add: assms(2))
    apply (simp add: assms(5) cwd_string_def)
    done
qed

section \<open>Names and paths\<close>

text \<open>A name a directory entry can have, apart from the two dot entries.\<close>

definition plain_name :: "string \<Rightarrow> bool" where
  "plain_name c \<longleftrightarrow> c \<noteq> [] \<and> c \<noteq> ''.'' \<and> c \<noteq> ''..'' \<and> CHR ''/'' \<notin> set c"

lemma split_slash_ne [simp]: "split_slash s \<noteq> []"
  by (induction s) (auto split: list.split)

lemma split_slash_plain: "CHR ''/'' \<notin> set c \<Longrightarrow> split_slash c = [c]"
  by (induction c) auto

lemma split_slash_join: "split_slash (s @ CHR ''/'' # t) = split_slash s @ split_slash t"
proof (induction s)
  case (Cons c s)
  then show ?case by (cases "split_slash s") auto
qed simp

lemma walk_append: "walk acc (cs @ ds) = walk (rev (walk acc cs)) ds"
  by (induction cs arbitrary: acc) auto

lemma walk_plain: "\<forall>c\<in>set cs. plain_name c \<Longrightarrow> walk acc cs = rev acc @ cs"
  by (induction cs arbitrary: acc) (auto simp: plain_name_def)

lemma abs_path_child:
  assumes "plain_name d" "p \<noteq> []"
  shows "abs_path w (p @ CHR ''/'' # d) = abs_path w p @ [d]"
proof -
  have "has_prefix ''/'' (p @ CHR ''/'' # d) = has_prefix ''/'' p"
    using assms(2) by (cases p) (auto simp: has_prefix_def)
  moreover have "split_slash d = [d]" using assms(1) by (intro split_slash_plain) (simp add: plain_name_def)
  ultimately show ?thesis
    using assms(1) by (simp add: abs_path_def split_slash_join walk_append plain_name_def)
qed

lemma split_join_slash: "cs \<noteq> [] \<Longrightarrow> \<forall>c\<in>set cs. plain_name c \<Longrightarrow> split_slash (join_slash cs) = [] # cs"
proof (induction cs rule: join_slash.induct)
  case (3 c c' cs)
  then show ?case
    using split_slash_join [of c "join_slash (c' # cs)"] split_slash_plain [of c]
    by (cases cs) (auto simp: plain_name_def split_slash_join split_slash_plain)
qed (auto simp: plain_name_def split_slash_plain)

lemma abs_path_join_slash:
  assumes "\<forall>c\<in>set cs. plain_name c"
  shows "abs_path w (join_slash cs) = uroot w @ cs"
proof (cases cs)
  case Nil
  then show ?thesis by (simp add: abs_path_def has_prefix_def)
next
  case (Cons c cs')
  then have "has_prefix ''/'' (join_slash cs)" by (cases cs') (simp_all add: has_prefix_def)
  moreover have "split_slash (join_slash cs) = [] # cs" using Cons assms by (intro split_join_slash) auto
  ultimately show ?thesis using assms walk_plain [of cs "[]"] by (simp add: abs_path_def)
qed

section \<open>Listings\<close>

definition root_of :: "unix \<Rightarrow> string \<Rightarrow> unix" where
  "root_of w rootd = w\<lparr>uroot := abs_path w rootd\<rparr>"

definition list_dir :: "unix \<Rightarrow> string \<Rightarrow> ClientSession \<Rightarrow> fs_path" where
  "list_dir w rootd s =
     abs_path (root_of w rootd) (take 2055 (''/'' @ session_user s @ session_workdir s))"

text \<open>Where a listing looks: inside the server's root, in the user's working directory.\<close>

definition in_root :: "unix \<Rightarrow> string \<Rightarrow> ClientSession \<Rightarrow> unix" where
  "in_root w rootd s =
     (root_of w rootd)\<lparr>ucwd := drop (length (uroot (root_of w rootd))) (list_dir w rootd s)\<rparr>"

lemma in_root_simps [simp]:
  "fs (in_root w d s) = fs w" "fdt (in_root w d s) = fdt w" "next_fd (in_root w d s) = next_fd w"
  "socks (in_root w d s) = socks w" "sock_out (in_root w d s) = sock_out w" "sock_in (in_root w d s) = sock_in w"
  "node_at (in_root w d s) q = node_at w q" "is_dir (in_root w d s) q = is_dir w q"
  by (simp_all add: in_root_def root_of_def node_at_def is_dir_def)

lemma wp_unix_sandbox_root:
  assumes "is_dir (world p) (abs_path (world p) rootd)" "is_dir (world p) (list_dir (world p) rootd s)"
    and "\<And>p'. world p' = in_root (world p) rootd s \<Longrightarrow> Q 0 p'"
  shows "wp (sandboxUserToRoot unix_kernel s rootd) Q p"
  using assms(1,2) unfolding sandboxUserToRoot_def dropPrivilegesTemp_def list_dir_def
  by (auto simp: wp_simps Let_def in_root_def root_of_def list_dir_def is_dir_def node_at_def intro!: assms(3))

lemma wp_unix_send_if:
  assumes "fd \<in> set (socks (world p))" "b \<longleftrightarrow> bs \<noteq> []"
    and "\<And>p' n sc. 0 \<le> n \<Longrightarrow>
           world p' = (world p)\<lparr>sock_out := (sock_out (world p))(fd := sock_out (world p) fd @ bs), sched := sc\<rparr> \<Longrightarrow> Q n p'"
  shows "wp (if b then writeAll unix_kernel fd bs else State_Monad.return 0) Q p"
proof (cases b)
  case True
  then show ?thesis using assms(1,3) by (auto intro: wp_unix_writeAll)
next
  case False
  then show ?thesis using assms(2) assms(3) [of 0 p "sched (world p)"] by (simp add: prog_simps)
qed

text \<open>The state of the loop over the entries of \<open>q\<close> behind the first \<open>pos\<close>.\<close>

definition at_dir :: "unix \<Rightarrow> int \<Rightarrow> fs_path \<Rightarrow> nat \<Rightarrow> unix \<Rightarrow> bool" where
  "at_dir w0 fd q pos w \<longleftrightarrow> map_of (fdt w) fd = Some (q, pos) \<and> fs w = fs w0 \<and> uroot w = uroot w0 \<and>
     ucwd w = ucwd w0 \<and> socks w = socks w0 \<and> sock_out w = sock_out w0"

lemma at_dir_same:
  assumes "at_dir w0 fd q pos w"
  shows "children w q = children w0 q" "node_at w x = node_at w0 x" "abs_path w s = abs_path w0 s"
  using assms by (simp_all add: at_dir_def children_def node_at_def abs_path_def)

definition listed :: "unix \<Rightarrow> fs_path \<Rightarrow> string \<Rightarrow> FileEntry" where
  "listed w q d = make_entry d (node_stat (the (node_at w (q @ [d]))))"

text \<open>A directory whose entries can be listed under the path it was asked for.\<close>

definition nameable :: "unix \<Rightarrow> string \<Rightarrow> bool" where
  "nameable w path \<longleftrightarrow> path \<noteq> [] \<and> (\<forall>d\<in>set (children w (abs_path w path)). plain_name d \<and> length path + length d < 4095 \<and>
        node_at w (abs_path w path @ [d]) \<noteq> None)"

definition listable :: "unix \<Rightarrow> string \<Rightarrow> bool" where
  "listable w path \<longleftrightarrow> nameable w path \<and> length (children w (abs_path w path)) \<le> 1024"

text \<open>One entry is read, and one file looked at.\<close>

lemma unix_readdir:
  assumes "at_dir w0 fd q pos w" "drop pos (''.'' # ''..'' # children w0 q) = d # ds"
  shows "unix_kernel w (FdC (Readdir fd)) = ((res_val 0)\<lparr>ent_out := Some d\<rparr>, set_pos fd q (Suc pos) w)"
    "at_dir w0 fd q (Suc pos) (set_pos fd q (Suc pos) w)" "drop (Suc pos) (''.'' # ''..'' # children w0 q) = ds"
proof -
  let ?names = "''.'' # ''..'' # children w0 q"
  have pos: "pos < length ?names" using assms(2) by (metis drop_eq_Nil linorder_not_le list.distinct(1))
  then have "?names ! pos = d" using assms(2) by (metis hd_drop_conv_nth list.sel(1))
  then show "unix_kernel w (FdC (Readdir fd)) = ((res_val 0)\<lparr>ent_out := Some d\<rparr>, set_pos fd q (Suc pos) w)"
    using assms(1) pos at_dir_same(1) [OF assms(1)] by (simp add: at_dir_def Let_def)
  show "at_dir w0 fd q (Suc pos) (set_pos fd q (Suc pos) w)" using assms(1) by (simp add: at_dir_def)
  show "drop (Suc pos) ?names = ds" using assms(2) by (metis drop_Suc list.sel(3) tl_drop)
qed

lemma unix_stat_entry:
  assumes "at_dir w0 fd q pos w" "q = abs_path w0 path" "path \<noteq> []"
    and "plain_name d" "length path + length d < 4095" "node_at w0 (q @ [d]) \<noteq> None"
  shows "unix_kernel w (PathC (Stat (take 4095 (path @ ''/'' @ d)))) =
    ((res_val 0)\<lparr>stat_out := node_stat (the (node_at w0 (q @ [d])))\<rparr>, w)"
  using assms(6) abs_path_child [OF assms(4,3), of w0] assms(5) at_dir_same(2,3) [OF assms(1)] by (auto simp: assms(2))

lemma ls_loop_unix:
  assumes "at_dir w0 fd q pos (world p)" "q = abs_path w0 path" "path \<noteq> []"
    and "drop pos (''.'' # ''..'' # children w0 q) = ds" "length ds < fuel"
    and "\<forall>d\<in>set ds. d = ''.'' \<or> d = ''..'' \<or>
          plain_name d \<and> length path + length d < 4095 \<and> node_at w0 (q @ [d]) \<noteq> None"
    and "length es \<le> 1024"
    and "\<And>p' k. length es + length (filter plain_name ds) \<le> 1024 \<Longrightarrow> at_dir w0 fd q k (world p') \<Longrightarrow>
          Q (Returned (es @ map (listed w0 q) (filter plain_name ds))) p'"
    and "\<And>p'. 1024 < length es + length (filter plain_name ds) \<Longrightarrow> Q Undefined p'"
  shows "wp (ls_loop fuel unix_kernel fd path es) Q p"
  using assms(1,4-)
proof (induction ds arbitrary: p pos fuel es)
  case Nil
  then obtain f where f: "fuel = Suc f" by (cases fuel) auto
  have "length (''.'' # ''..'' # children (world p) q) \<le> pos"
    using Nil.prems(1,2) at_dir_same(1) [OF Nil.prems(1)] by simp
  moreover have "Q (Returned es) p'" if "world p' = world p" for p'
    using Nil.prems(6) [of pos p'] Nil.prems(1,5) that by simp
  ultimately show ?case
    using Nil.prems(1) unfolding f ls_loop.simps wp_bind
    by (intro wp_unix_sysI) (auto simp: at_dir_def Let_def prog_simps)
next
  case (Cons d ds)
  then obtain f where f: "fuel = Suc f" by (cases fuel) auto
  note read = unix_readdir [OF Cons.prems(1,2)]
  have next_one: "wp (ls_loop f unix_kernel fd path es') Q p'"
    if "at_dir w0 fd q (Suc pos) (world p')" "length es' \<le> 1024" "filter plain_name (d # ds) = x @ filter plain_name ds"
      "es' = es @ map (listed w0 q) x" for es' p' x
    by (rule Cons.IH [OF that(1) read(3)]) (use Cons.prems that f in \<open>auto split: if_splits\<close>)
  show ?case
    unfolding f ls_loop.simps wp_bind
  proof (rule wp_unix_sysI, unfold read(1) fst_conv snd_conv, goal_cases)
    case (1 p1)
    then have a1: "at_dir w0 fd q (Suc pos) (world p1)" using read(2) by simp
    show ?case
    proof (cases "d = ''.'' \<or> d = ''..''")
      case True
      then show ?thesis using next_one [OF a1 Cons.prems(5), of "[]"] by (auto simp: plain_name_def)
    next
      case False
      then have d: "plain_name d" "length path + length d < 4095" "node_at w0 (q @ [d]) \<noteq> None" using Cons.prems(4) by auto
      note st = unix_stat_entry [OF a1 assms(2,3) d]
      have "wp (sys unix_kernel (PathC (Stat (take 4095 (path @ ''/'' @ d))))) (\<lambda>st. wp
          (if rv st \<noteq> 0 then ls_loop f unix_kernel fd path es
           else if 1024 \<le> length es then State_Monad.return Undefined
           else ls_loop f unix_kernel fd path (es @ [make_entry d (stat_out st)])) Q) p1"
      proof (rule wp_unix_sysI, unfold st fst_conv snd_conv, goal_cases)
        case (1 p2)
        then have "at_dir w0 fd q (Suc pos) (world p2)" using a1 by simp
        then show ?case
          using next_one [of p2 "es @ [listed w0 q d]" "[d]"] Cons.prems(7) d(1) by (auto simp: wp_return listed_def)
      qed
      then show ?thesis using False by (simp add: wp_bind del: unix_kernel.simps)
    qed
  qed
qed

text \<open>The way of a listing up to its answer.\<close>

lemma wp_unix_ls:
  assumes "is_dir (world p) (abs_path (world p) rootd)" "is_dir (world p) (list_dir (world p) rootd (req_session hdr))"
    and "fresh_fd (world p)" "w0 = in_root (world p) rootd (req_session hdr)" "q = abs_path w0 path"
    and "is_dir (world p) q" "nameable w0 path" "length (children w0 q) + 2 < fuel"
    and "\<And>p1. length (children w0 q) \<le> 1024 \<Longrightarrow> socks (world p1) = socks (world p) \<Longrightarrow> fs (world p1) = fs (world p) \<Longrightarrow>
      sock_out (world p1) = sock_out (world p) \<Longrightarrow>
      wp (ls_out unix_kernel cfd (next_fd (world p)) (map (listed w0 q) (children w0 q)) (copy_msg ''Success'' (res\<lparr>res_status := 0\<rparr>))) Q p1"
    and "\<And>p1. 1024 < length (children w0 q) \<Longrightarrow> Q Undefined p1"
  shows "wp (handleHelperLs fuel unix_kernel cfd hdr path rootd res) Q p"
proof -
  let ?fd = "next_fd (world p)" and ?cs = "children w0 q"
  have fd: "0 \<le> ?fd" "\<not> ?fd < 0" using assms(3) by (auto simp: fresh_fd_def)
  have cs: "\<forall>d\<in>set ?cs. plain_name d \<and> length path + length d < 4095 \<and> node_at w0 (q @ [d]) \<noteq> None" "path \<noteq> []"
    using assms(5,7) by (auto simp: nameable_def)
  have fl: "filter plain_name (''.'' # ''..'' # ?cs) = ?cs"
    using cs(1) by (simp add: plain_name_def filter_id_conv)
  have at0: "at_dir (opened q w0) ?fd q 0 (opened q w0)"
    using assms(4) by (simp add: at_dir_def opened_fields)
  have same: "children (opened q w0) q = ?cs" "abs_path (opened q w0) path = q"
      "listed (opened q w0) q = listed w0 q" "node_at (opened q w0) x = node_at w0 x" for x
    by (simp_all add: children_def assms(5) listed_def fun_eq_iff)
  have dq: "is_dir w0 q" using assms(4,6) by simp
  have o1: "unix_kernel w0 (PathC (Opendir path)) = (res_val ?fd, opened q w0)"
    using dq by (simp add: assms(5) [symmetric] Let_def) (simp add: assms(4))
  show ?thesis
    unfolding handleHelperLs_def wp_bind Let_def
    apply (rule wp_unix_sandbox_root [OF assms(1,2)])
    apply (simp add: prog_simps assms(4) [symmetric] cong: step_congs)
    apply (rule wp_unix_step, simp only: o1)
    apply (simp add: fd prog_simps cong: step_congs)
    apply (rule ls_loop_unix [where ?w0.0 = "opened q w0" and q = q and pos = 0 and ds = "''.'' # ''..'' # ?cs"])
           apply (simp add: at0)
          apply (simp only: same)
         apply (simp add: cs)
        apply (simp only: same drop_0)
       apply (use assms(8) in simp)
      apply (use cs in \<open>simp add: same\<close>)
     apply simp
     apply (simp only: fl same append_Nil outcome.case res_val_simps)
     apply (rule assms(9))
        apply (simp_all add: at_dir_def assms(4))[4]
    apply (simp only: fl same outcome.case list.size add_0 wp_return)
    apply (rule assms(10), assumption)
    done
qed

lemma handleHelperLs_unix:
  assumes "is_dir (world p) (abs_path (world p) rootd)" "is_dir (world p) (list_dir (world p) rootd (req_session hdr))"
    and "cfd \<in> set (socks (world p))" "fresh_fd (world p)"
    and "w0 = in_root (world p) rootd (req_session hdr)" "q = abs_path w0 path" "is_dir (world p) q" "listable w0 path"
    and "length (children w0 q) + 2 < fuel"
  shows "wp (handleHelperLs fuel unix_kernel cfd hdr path rootd res)
    (\<lambda>r p'. let es = map (listed w0 q) (children w0 q);
               a = set_count (length es) (copy_msg ''Success'' (res\<lparr>res_status := 0\<rparr>)) in
       r = Returned a \<and>
       sock_out (world p') cfd = sock_out (world p) cfd @ enc_response a @ concat (map enc_entry es) \<and>
       fs (world p') = fs (world p)) p"
proof -
  let ?es = "map (listed w0 q) (children w0 q)"
  define a where "a = set_count (length ?es) (copy_msg ''Success'' (res\<lparr>res_status := 0\<rparr>))"
  have ok: "nameable w0 path" "length ?es \<le> 1024" using assms(6,8) by (simp_all add: listable_def)
  have fd: "0 \<le> next_fd (world p)" using assms(4) by (simp add: fresh_fd_def)
  have st: "res_status a = 0" "res_payload_len a = of_nat (length ?es * 80)"
    by (simp_all add: a_def set_count_def)
  have pos: "0 < res_payload_len a \<longleftrightarrow> ?es \<noteq> []"
    unfolding st(2) using of_nat_u32_pos [of "length ?es * 80"] ok(2) by simp
  have ne: "concat (map enc_entry ?es) \<noteq> [] \<longleftrightarrow> ?es \<noteq> []"
    by (cases ?es) (simp_all add: enc_entry_def)
  show ?thesis
    unfolding Let_def a_def [symmetric]
    apply (rule wp_unix_ls [OF assms(1,2,4-7) ok(1) assms(9)])
     apply (unfold ls_out_def Let_def a_def [symmetric] wp_bind)
     apply (simp only: fd if_True, rule wp_unix_callI, rule wp_unix_regain, simp split del: if_split cong: step_congs)
     apply (simp only: wp_bind, rule wp_unix_writeAll)
      apply (simp add: assms(3) closed_def [symmetric])
     apply (simp only: wp_bind, rule wp_unix_send_if)
       apply (simp add: assms(3) closed_def [symmetric])
      apply (simp only: st(1) pos ne, simp)
     apply (simp add: prog_simps closed_def [symmetric])
    apply (use ok(2) in simp)
    done
qed

text \<open>The array \<open>entries[1024]\<close> is filled without a look at its bound.\<close>

lemma handleHelperLs_overflow:
  assumes "is_dir (world p) (abs_path (world p) rootd)" "is_dir (world p) (list_dir (world p) rootd (req_session hdr))"
    and "fresh_fd (world p)" "w0 = in_root (world p) rootd (req_session hdr)" "q = abs_path w0 path"
    and "is_dir (world p) q" "nameable w0 path" "1024 < length (children w0 q)" "length (children w0 q) + 2 < fuel"
  shows "wp (handleHelperLs fuel unix_kernel cfd hdr path rootd res) (\<lambda>r p'. r = Undefined) p"
  by (rule wp_unix_ls [OF assms(1-7,9)]) (use assms(8) in auto)

end
