(* ===== verification/Helper_Effects.thy ===== *)
theory Helper_Effects
  imports Helper_Properties Helper_Streams Helper_Directory
begin

text \<open>
  The properties of the file commands as functions of the file tree: what a request
  does to the tree and what it sends, on the kernel of \<open>Unix_Kernel\<close>, for every
  fragmentation of the connection.  Each goes through the dispatch on the command.
\<close>

section \<open>A concrete world for the witnesses\<close>

definition demo_session :: ClientSession where
  "demo_session = zero_session\<lparr>sess_home := strncpy ABS_PATH ''/srv/bob'' (replicate ABS_PATH NUL),
     sess_workdir := strncpy ABS_PATH ''/'' (replicate ABS_PATH NUL)\<rparr>"

definition demo_world :: unix where
  "demo_world = \<lparr>fs = [([], Dir 0x1ED), ([''srv''], Dir 0x1ED), ([''srv'', ''bob''], Dir 0x1C0),
       ([''srv'', ''bob'', ''d''], Dir 0x1C0), ([''srv'', ''bob'', ''f''], File ''hello'' 0x180)],
     fdt = [], next_fd = 5, uroot = [], ucwd = [], umask = 0x12,
     users = [(''ann'', \<lparr>pw_name = ''ann'', pw_uid = 7, pw_gid = 8, pw_dir = ''/srv/ann''\<rparr>)],
     socks = [4], sock_in = (\<lambda>_. ''new text''), sock_out = (\<lambda>_. []), sched = [2, 0, 7],
     shared = init_registry 0, sigflag = False, my_pid = 100, tty = [], screen = [],
     cflags = initial_flags, fork_ret = - 1, data_port = 0, started = []\<rparr>"

definition demo_header :: "helper_commands \<Rightarrow> u32 \<Rightarrow> u32 \<Rightarrow> u32 \<Rightarrow> helper_request_header" where
  "demo_header cmd argc offset n = \<lparr>req_cmd = command_code cmd, req_argc = argc, req_payload_len = 2,
     req_session = demo_session, req_offset = offset, req_data_len = n\<rparr>"

abbreviation demo_proc :: "unix proc" where
  "demo_proc \<equiv> fresh_proc demo_world 0"

abbreviation demo_helper :: Helper where
  "demo_helper \<equiv> \<lparr>socket_fds = 3, rootDir = ''/srv''\<rparr>"

lemma demo_strings [simp]:
  "session_home demo_session = ''/srv/bob''" "session_workdir demo_session = ''/''"
  by (simp_all add: session_home_def session_workdir_def demo_session_def c_str_strncpy
      c_str_strncpy [where m = "[]", simplified])

lemma demo_header_simps [simp]:
  "decode_command (req_cmd (demo_header cmd argc offset n)) = Some cmd"
  "req_session (demo_header cmd argc offset n) = demo_session"
  "req_argc (demo_header cmd argc offset n) = argc"
  "req_offset (demo_header cmd argc offset n) = offset"
  "req_data_len (demo_header cmd argc offset n) = n"
  by (cases cmd) (simp_all add: demo_header_def)

lemma demo_world_simps [simp]:
  "socks demo_world = [4]" "next_fd demo_world = 5" "fdt demo_world = []" "uroot demo_world = []" "umask demo_world = 0x12"
  "fs demo_world = [([], Dir 0x1ED), ([''srv''], Dir 0x1ED), ([''srv'', ''bob''], Dir 0x1C0),
       ([''srv'', ''bob'', ''d''], Dir 0x1C0), ([''srv'', ''bob'', ''f''], File ''hello'' 0x180)]"
  "sock_in demo_world fd = ''new text''" "sock_out demo_world fd = []"
  "map_of (users demo_world) ''ann'' = Some \<lparr>pw_name = ''ann'', pw_uid = 7, pw_gid = 8, pw_dir = ''/srv/ann''\<rparr>"
  by (simp_all add: demo_world_def)

lemma demo_paths [simp]:
  "abs_path (in_home demo_world demo_session) ''f'' = [''srv'', ''bob'', ''f'']"
  "abs_path (in_home demo_world demo_session) ''g'' = [''srv'', ''bob'', ''g'']"
  "abs_path (in_home demo_world demo_session) ''d'' = [''srv'', ''bob'', ''d'']"
  "abs_path (in_home demo_world demo_session) ''d/f'' = [''srv'', ''bob'', ''d'', ''f'']"
  by (simp_all add: in_home_def home_root_def abs_path_def has_prefix_def demo_world_def)

lemma demo_sandboxable [simp]: "sandboxable demo_world demo_session"
  by (simp add: sandboxable_def is_dir_def node_at_def abs_path_def home_root_def has_prefix_def)

lemma demo_fresh [simp]: "fresh_fd demo_world" "plain_mode 0x180" "plain_mode 0x1C0"
  by (simp_all add: fresh_fd_def plain_mode_def)

lemma replicate2: "replicate 2 x = [x, x]"
  by (simp add: numeral_2_eq_2)

section \<open>Reading and writing\<close>

text \<open>The dispatch on the command, for the requests the handler processes send.\<close>

lemma dispatch:
  "decode_command (req_cmd hdr) = Some READ \<Longrightarrow> handle_request fuel K helper cfd hdr [p] data =
     HandleHelperRead K cfd hdr p (sint (req_offset hdr)) (initial_response (req_cmd hdr))"
  "decode_command (req_cmd hdr) = Some WRITE \<Longrightarrow> handle_request fuel K helper cfd hdr [p] data =
     HandleHelperWrite K cfd hdr p (sint (req_offset hdr)) data (req_data_len hdr) (initial_response (req_cmd hdr))"
  "decode_command (req_cmd hdr) = Some DOWNLOAD \<Longrightarrow> handle_request fuel K helper cfd hdr [p] data =
     HandleHelperDownload fuel K cfd hdr p (initial_response (req_cmd hdr))"
  "decode_command (req_cmd hdr) = Some UPLOAD \<Longrightarrow> handle_request fuel K helper cfd hdr [p] data =
     HandleHelperUpload fuel K cfd hdr p (initial_response (req_cmd hdr))"
  "decode_command (req_cmd hdr) = Some DELETE \<Longrightarrow> handle_request fuel K helper cfd hdr [p] data =
     HandleHelperDelete K cfd hdr p (initial_response (req_cmd hdr))"
  "decode_command (req_cmd hdr) = Some MOVE \<Longrightarrow> handle_request fuel K helper cfd hdr [p, q] data =
     HandleHelperMove K cfd hdr p q (initial_response (req_cmd hdr))"
  "decode_command (req_cmd hdr) = Some CHMOD \<Longrightarrow> handle_request fuel K helper cfd hdr [p, m] data =
     HandleHelperChmod K cfd hdr p (octal_mode m) (initial_response (req_cmd hdr))"
  "decode_command (req_cmd hdr) = Some CD \<Longrightarrow> handle_request fuel K helper cfd hdr [p] data =
     ChangeDirectory K cfd hdr p (initial_response (req_cmd hdr))"
  "decode_command (req_cmd hdr) = Some LS \<Longrightarrow> handle_request fuel K helper cfd hdr [p] data =
     handleHelperLs fuel K cfd hdr p (rootDir helper) (initial_response (req_cmd hdr))"
  "decode_command (req_cmd hdr) = Some CREATE_FILE \<Longrightarrow> 2 < req_argc hdr \<Longrightarrow>
     handle_request fuel K helper cfd hdr [p, m, d] data =
     HandlerHelperCreateFile K cfd hdr p (octal_mode m) (d = ''-d'') (initial_response (req_cmd hdr))"
  "decode_command (req_cmd hdr) = Some CREATE_FILE \<Longrightarrow> \<not> 2 < req_argc hdr \<Longrightarrow>
     handle_request fuel K helper cfd hdr [p, m] data =
     HandlerHelperCreateFile K cfd hdr p (octal_mode m) False (initial_response (req_cmd hdr))"
  "decode_command (req_cmd hdr) = Some TRANSFER \<Longrightarrow> handle_request fuel K helper cfd hdr [s, f, r, t] data =
     HandleHelperTransfer fuel K cfd (rootDir helper) s f r t (initial_response (req_cmd hdr))"
  by (simp_all only: handle_request_def Let_def option.case helper_commands.case prod.case) (simp_all add: arg_def)

text \<open>A read request for a file of the home answers success and then the at most 4096 bytes of
  the file from the offset on, says how many they are, and leaves the tree as it was.\<close>

theorem read_returns_window:
  assumes "decode_command (req_cmd hdr) = Some READ" "offset = sint (req_offset hdr)"
    and "sandboxable (world p) (req_session hdr)" "cfd \<in> set (socks (world p))" "fresh_fd (world p)"
    and "node_at (world p) (abs_path (in_home (world p) (req_session hdr)) path) = Some (File c m)"
    and "plain_mode m" "0 \<le> offset" "offset \<le> int (length c)"
  shows "wp (handle_request fuel unix_kernel helper cfd hdr [path] data)
    (\<lambda>r p'. \<exists>a. r = Returned a \<and> res_status a = 0 \<and>
       res_payload_len a = of_nat (length (take 4096 (drop (nat offset) c))) \<and>
       sock_out (world p') cfd = sock_out (world p) cfd @ enc_response a @ take 4096 (drop (nat offset) c) \<and>
       fs (world p') = fs (world p)) p"
  unfolding dispatch(1) [OF assms(1)] assms(2) [symmetric]
    by (rule wp_mono [OF HandleHelperRead_unix [OF assms(3-9)]]) (auto simp: Let_def)

theorem read_returns_window_witness:
  "wp (handle_request 9 unix_kernel demo_helper 4 (demo_header READ 1 2 0) [''f''] [])
    (\<lambda>r p'. \<exists>a. r = Returned a \<and> res_status a = 0 \<and> res_payload_len a = 3 \<and>
       sock_out (world p') 4 = enc_response a @ ''llo'' \<and> fs (world p') = fs demo_world) demo_proc"
  by (rule wp_mono, rule read_returns_window [of _ 2 _ _ _ "''hello''" "0x180"])
    (simp_all add: node_at_def del: decode_command.simps)

text \<open>A write request answers success and puts the bytes at the offset of the file, keeping what
  was before and behind them; an offset behind the end is reached by padding with spaces, a
  missing file is created with mode 0700, and no other file changes.\<close>

theorem write_updates_file:
  assumes "decode_command (req_cmd hdr) = Some WRITE" "offset = sint (req_offset hdr)"
    and "sandboxable (world p) (req_session hdr)" "cfd \<in> set (socks (world p))" "fresh_fd (world p)"
    and "writable (in_home (world p) (req_session hdr)) q 0x1C0 c m" "plain_mode m"
    and "q = abs_path (in_home (world p) (req_session hdr)) path"
    and "0 \<le> offset" "length data = unat (req_data_len hdr)"
  shows "wp (handle_request fuel unix_kernel helper cfd hdr [path] data)
    (\<lambda>r p'. \<exists>a. r = Returned a \<and> res_status a = 0 \<and>
       sock_out (world p') cfd = sock_out (world p) cfd @ enc_response a \<and>
       node_at (world p') q = Some (File (written c (nat offset) data) m) \<and>
       (\<forall>q'. q' \<noteq> q \<longrightarrow> node_at (world p') q' = node_at (world p) q')) p"
  unfolding dispatch(2) [OF assms(1)] assms(2) [symmetric]
    by (rule wp_mono [OF HandleHelperWrite_unix [OF assms(3-10)]]) (auto simp: Let_def)

theorem write_updates_file_witness:
  "wp (handle_request 9 unix_kernel demo_helper 4 (demo_header WRITE 1 7 2) [''f''] ''XY'')
    (\<lambda>r p'. node_at (world p') [''srv'', ''bob'', ''f''] = Some (File ''hello  XY'' 0x180)) demo_proc"
  by (rule wp_mono, rule write_updates_file [of _ 7 _ _ "[''srv'', ''bob'', ''f'']" "''hello''" "0x180"])
    (auto simp: node_at_def writable_def written_def replicate2 simp del: decode_command.simps)

section \<open>Streams\<close>

text \<open>C38. A download request for a file of the home sends success with its size and then exactly the
  bytes of the file, whatever pieces the connection takes them in; more rounds than bytes are
  enough.\<close>

theorem download_streams_file:
  assumes "decode_command (req_cmd hdr) = Some DOWNLOAD"
    and "sandboxable (world p) (req_session hdr)" "cfd \<in> set (socks (world p))" "fresh_fd (world p)"
    and "node_at (world p) (abs_path (in_home (world p) (req_session hdr)) path) = Some (File c m)"
    and "plain_mode m" "length c < fuel"
  shows "wp (handle_request fuel unix_kernel helper cfd hdr [path] data)
    (\<lambda>r p'. \<exists>a. r = Returned a \<and> res_status a = 0 \<and> res_payload_len a = of_nat (length c) \<and>
       sock_out (world p') cfd = sock_out (world p) cfd @ enc_response a @ c \<and>
       fs (world p') = fs (world p)) p"
  unfolding dispatch(3) [OF assms(1)]
    by (rule wp_mono [OF HandleHelperDownload_unix [OF assms(2-7)]]) (auto simp: Let_def)

theorem download_streams_file_witness:
  "wp (handle_request 9 unix_kernel demo_helper 4 (demo_header DOWNLOAD 1 0 0) [''f''] [])
    (\<lambda>r p'. \<exists>a. r = Returned a \<and> sock_out (world p') 4 = enc_response a @ ''hello'') demo_proc"
  by (rule wp_mono, rule download_streams_file [of _ _ _ _ "''hello''" "0x180"])
    (auto simp: node_at_def simp del: decode_command.simps)

text \<open>An upload request answers success, takes everything the connection still holds, and leaves
  the file with exactly those bytes: what the file held is gone, a missing file is created with
  mode 0600, and no other file changes.\<close>

theorem upload_stores_stream:
  assumes "decode_command (req_cmd hdr) = Some UPLOAD"
    and "sandboxable (world p) (req_session hdr)" "cfd \<in> set (socks (world p))" "fresh_fd (world p)"
    and "writable (in_home (world p) (req_session hdr)) q 0x180 c m"
    and "q = abs_path (in_home (world p) (req_session hdr)) path"
    and "length (sock_in (world p) cfd) < fuel"
  shows "wp (handle_request fuel unix_kernel helper cfd hdr [path] data)
    (\<lambda>r p'. \<exists>a. r = Returned a \<and> res_status a = 0 \<and> res_payload_len a = 0 \<and>
       sock_out (world p') cfd = sock_out (world p) cfd @ enc_response a \<and>
       node_at (world p') q = Some (File (sock_in (world p) cfd) m) \<and>
       (\<forall>q'. q' \<noteq> q \<longrightarrow> node_at (world p') q' = node_at (world p) q')) p"
  unfolding dispatch(4) [OF assms(1)]
    by (rule wp_mono [OF HandleHelperUpload_unix [OF assms(2-7)]]) (auto simp: Let_def)

theorem upload_stores_stream_witness:
  "wp (handle_request 9 unix_kernel demo_helper 4 (demo_header UPLOAD 1 0 0) [''g''] [])
    (\<lambda>r p'. node_at (world p') [''srv'', ''bob'', ''g''] = Some (File ''new text'' 0x180)) demo_proc"
  by (rule wp_mono, rule upload_stores_stream [of _ _ _ "[''srv'', ''bob'', ''g'']" "[]" "0x180"])
    (auto simp: node_at_def writable_def is_dir_def simp del: decode_command.simps)

section \<open>The tree\<close>

text \<open>A delete request for a file of the home answers success and takes exactly that file out of
  the tree.\<close>

theorem delete_removes_file:
  assumes "decode_command (req_cmd hdr) = Some DELETE"
    and "sandboxable (world p) (req_session hdr)" "cfd \<in> set (socks (world p))" "fresh_fd (world p)"
    and "node_at (world p) q = Some (File c m)" "plain_mode m"
    and "q = abs_path (in_home (world p) (req_session hdr)) path"
  shows "wp (handle_request fuel unix_kernel helper cfd hdr [path] data)
    (\<lambda>r p'. \<exists>a. r = Returned a \<and> res_status a = 0 \<and>
       sock_out (world p') cfd = sock_out (world p) cfd @ enc_response a \<and>
       (\<forall>q'. node_at (world p') q' = (if q' = q then None else node_at (world p) q'))) p"
  unfolding dispatch(5) [OF assms(1)]
    by (rule wp_mono [OF HandleHelperDelete_unix [OF assms(2-7)]]) (auto simp: Let_def)

theorem delete_removes_file_witness:
  "wp (handle_request 9 unix_kernel demo_helper 4 (demo_header DELETE 1 0 0) [''f''] [])
    (\<lambda>r p'. node_at (world p') [''srv'', ''bob'', ''f''] = None \<and>
       node_at (world p') [''srv'', ''bob'', ''d''] = Some (Dir 0x1C0)) demo_proc"
  by (rule wp_mono, rule delete_removes_file [of _ _ _ "[''srv'', ''bob'', ''f'']" "''hello''" "0x180"])
    (auto simp: node_at_def simp del: decode_command.simps)

text \<open>A move request for a file and an existing directory, where the directory has no entry of
  that name yet, answers success; the file is then found in the directory under its old name with
  its contents and mode, no longer at its old place, and nothing else has changed.\<close>

theorem move_renames_file:
  assumes "decode_command (req_cmd hdr) = Some MOVE"
    and "sandboxable (world p) (req_session hdr)" "cfd \<in> set (socks (world p))" "fresh_fd (world p)"
    and "w = in_home (world p) (req_session hdr)"
    and "q = abs_path w path1" "d = abs_path w path2" "t = abs_path w (move_target path1 path2)"
    and "node_at (world p) q = Some (File c m)" "plain_mode m" "leaf (world p) q"
    and "node_at (world p) d = Some (Dir dm)" "plain_mode dm"
    and "node_at (world p) t = None" "t \<noteq> []" "is_dir (world p) (butlast t)"
  shows "wp (handle_request fuel unix_kernel helper cfd hdr [path1, path2] data)
    (\<lambda>r p'. \<exists>a. r = Returned a \<and> res_status a = 0 \<and>
       sock_out (world p') cfd = sock_out (world p) cfd @ enc_response a \<and>
       (\<forall>q'. node_at (world p') q' =
          (if q' = t then Some (File c m) else if q' = q then None else node_at (world p) q'))) p"
  unfolding dispatch(6) [OF assms(1)]
    by (rule wp_mono [OF HandleHelperMove_unix [OF assms(2-16)]]) (auto simp: Let_def)

lemma demo_target: "move_target ''f'' ''d'' = ''d/f''"
  by (simp add: move_target_def after_last_slash_def)

theorem move_renames_file_witness:
  "wp (handle_request 9 unix_kernel demo_helper 4 (demo_header MOVE 2 0 0) [''f'', ''d''] [])
    (\<lambda>r p'. node_at (world p') [''srv'', ''bob'', ''d'', ''f''] = Some (File ''hello'' 0x180) \<and>
       node_at (world p') [''srv'', ''bob'', ''f''] = None) demo_proc"
  by (rule wp_mono, rule move_renames_file [of _ _ _ _ "[''srv'', ''bob'', ''f'']" _ "[''srv'', ''bob'', ''d'']" _
        "[''srv'', ''bob'', ''d'', ''f'']" "''hello''" "0x180" "0x1C0"])
    (auto simp: node_at_def demo_target leaf_def is_dir_def simp del: decode_command.simps)

text \<open>A create request with \<open>-d\<close> for a free name below an existing directory answers success and
  adds an empty directory of the mode asked for, read as an octal number and without the bits of the
  mask, and nothing else.\<close>

theorem mkdir_adds_directory:
  assumes "decode_command (req_cmd hdr) = Some CREATE_FILE" "2 < req_argc hdr"
    and "sandboxable (world p) (req_session hdr)" "cfd \<in> set (socks (world p))"
    and "q = abs_path (in_home (world p) (req_session hdr)) path"
    and "node_at (world p) q = None" "q \<noteq> []" "is_dir (world p) (butlast q)"
  shows "wp (handle_request fuel unix_kernel helper cfd hdr [path, mode, ''-d''] data)
    (\<lambda>r p'. \<exists>a. r = Returned a \<and> res_status a = 0 \<and>
       sock_out (world p') cfd = sock_out (world p) cfd @ enc_response a \<and>
       (\<forall>q'. node_at (world p') q' = (if q' = q then Some (Dir (creation_mode (world p) (octal_mode mode))) else node_at (world p) q'))) p"
  unfolding dispatch(10) [OF assms(1,2)] simp_thms
    by (rule wp_mono [OF HandlerHelperCreateFile_unix_dir [OF assms(3-8)]]) (auto simp: Let_def)

lemma mode_750: "octal_mode ''750'' = 0x1E8"
  by code_simp

theorem mkdir_adds_directory_witness:
  "wp (handle_request 9 unix_kernel demo_helper 4 (demo_header CREATE_FILE 3 0 0) [''g'', ''750'', ''-d''] [])
    (\<lambda>r p'. node_at (world p') [''srv'', ''bob'', ''g''] = Some (Dir 0x1E8)) demo_proc"
  by (rule wp_mono, rule mkdir_adds_directory [where q = "[''srv'', ''bob'', ''g'']"])
    (auto simp: node_at_def is_dir_def mode_750 simp del: decode_command.simps)

section \<open>Transfers between users\<close>

text \<open>A transfer request copies the sender's file, byte for byte, to the given directory of the
  receiver under the same name: what was there is replaced, a missing file is created with mode
  0644 less the mask, the sender keeps the file, and no other file changes.  More rounds than bytes are enough.\<close>

theorem transfer_copies_file:
  assumes "decode_command (req_cmd hdr) = Some TRANSFER"
    and "cfd \<in> set (socks (world p))" "fresh_fd (world p)" "next_fd (world p) + 1 \<notin> set (socks (world p))"
    and "\<not> strstr dir ''..''" "\<not> strstr file ''..''"
    and "src = abs_path (world p) (transfer_src (rootDir helper) sender file)"
    and "dest = abs_path (world p) (transfer_dest (rootDir helper) recv dir file)"
    and "node_at (world p) src = Some (File c m)" "src \<noteq> dest"
    and "writable (world p) dest 0x1A4 old dm" "map_of (users (world p)) recv = Some u" "length c < fuel"
  shows "wp (handle_request fuel unix_kernel helper cfd hdr [sender, file, recv, dir] data)
    (\<lambda>r p'. \<exists>a. r = Returned a \<and> res_status a = 0 \<and>
       sock_out (world p') cfd = sock_out (world p) cfd @ enc_response a \<and>
       node_at (world p') dest = Some (File c dm) \<and>
       (\<forall>q'. q' \<noteq> dest \<longrightarrow> node_at (world p') q' = node_at (world p) q')) p"
  unfolding dispatch(12) [OF assms(1)]
    by (rule wp_mono [OF HandleHelperTransfer_unix [OF assms(2-13)]]) (auto simp: Let_def)

lemma demo_transfer_paths [simp]:
  "abs_path demo_world (transfer_src ''/srv'' ''bob'' ''f'') = [''srv'', ''bob'', ''f'']"
  "abs_path demo_world (transfer_dest ''/srv'' ''ann'' ''.'' ''f'') = [''srv'', ''ann'', ''f'']"
  by (simp_all add: transfer_src_def transfer_dest_def abs_path_def has_prefix_def)

definition shared_world :: unix where
  "shared_world = fs_set [''srv'', ''ann''] (Dir 0x1C0) demo_world"

lemma shared_world_paths:
  "abs_path shared_world (transfer_src ''/srv'' ''bob'' ''f'') = [''srv'', ''bob'', ''f'']"
  "abs_path shared_world (transfer_dest ''/srv'' ''ann'' ''.'' ''f'') = [''srv'', ''ann'', ''f'']"
  by (simp_all add: shared_world_def)

theorem transfer_copies_file_witness:
  "wp (handle_request 9 unix_kernel demo_helper 4 (demo_header TRANSFER 4 0 0) [''bob'', ''f'', ''ann'', ''.''] [])
    (\<lambda>r p'. node_at (world p') [''srv'', ''ann'', ''f''] = Some (File ''hello'' 0x1A4)) (fresh_proc shared_world 0)"
  by (rule wp_mono, rule transfer_copies_file [where src = "[''srv'', ''bob'', ''f'']" and
        dest = "[''srv'', ''ann'', ''f'']" and c = "''hello''" and m = "0x180" and old = "[]" and dm = "0x1A4"])
    (auto simp: shared_world_paths simp del: decode_command.simps, auto simp: shared_world_def fresh_fd_def
      writable_def is_dir_def node_at_def fs_set_def demo_world_def)

end
