(* ===== verification/Helper_Limits.thy ===== *)
theory Helper_Limits
  imports Client_Properties Helper_Effects
begin

text \<open>
  How much a listing may hold.  The helper collects the entries of a directory in an array
  of 1024 on its stack and never looks at its bound.
\<close>

text \<open>C34. A listing of a directory is answered with success and exactly 80 bytes for every entry, as the
  answer says, as long as the directory has at most 1024 entries; with one entry more the helper writes
  behind the end of the array \<open>entries\<close>, and what happens then C does not define.\<close>

theorem listing_is_bounded:
  assumes "decode_command (req_cmd hdr) = Some LS" "cfd \<in> set (socks (world p))" "fresh_fd (world p)"
    and "is_dir (world p) (abs_path (world p) (rootDir helper))"
    and "is_dir (world p) (list_dir (world p) (rootDir helper) (req_session hdr))"
    and "w0 = in_root (world p) (rootDir helper) (req_session hdr)" "q = abs_path w0 path" "is_dir (world p) q"
    and "nameable w0 path" "names = children w0 q" "length names + 2 < fuel"
    and "\<forall>n\<in>set names. st_size (node_stat (the (node_at w0 (q @ [n])))) < 2 ^ 63"
  shows "wp (handle_request fuel unix_kernel helper cfd hdr [path] data) (\<lambda>r p'.
    if length names \<le> 1024 then \<exists>a es. r = Returned a \<and> res_status a = 0 \<and>
       res_payload_len a = of_nat (80 * length names) \<and> length es = 80 * length names \<and>
       sock_out (world p') cfd = sock_out (world p) cfd @ enc_response a @ es \<and> fs (world p') = fs (world p)
    else r = Undefined) p"
proof (cases "length names \<le> 1024")
  case True
  let ?es = "map (listed w0 q) names"
  have wf: "\<forall>e\<in>set ?es. entry_wf e"
    using assms(12) by (auto simp: listed_def node_stat_def intro!: make_entry_wf split: node.splits)
  have ls: "listable w0 path" using True assms(7,9,10) by (simp add: listable_def)
  show ?thesis
    unfolding dispatch(9) [OF assms(1)]
    by (rule wp_mono [OF handleHelperLs_unix [OF assms(4,5,2,3,6-8) ls]])
      (use True assms(10,11) length_entries [OF wf] in \<open>auto simp: Let_def set_count_def mult.commute\<close>)
next
  case False
  show ?thesis
    unfolding dispatch(9) [OF assms(1)]
    by (rule wp_mono [OF handleHelperLs_overflow [OF assms(4,5,3,6-9)]]) (use False assms(10,11) in auto)
qed

text \<open>The home with \<open>n\<close> files in its directory \<open>d\<close>.\<close>

definition crowded :: "nat \<Rightarrow> unix" where
  "crowded n = demo_world\<lparr>fs := fs demo_world @
     map (\<lambda>i. ([''srv'', ''bob'', ''d'', replicate (Suc i) CHR ''x''], File [] 0x180)) [0..<n]\<rparr>"

lemma crowded_simps [simp]:
  "socks (crowded n) = [4]" "next_fd (crowded n) = 5" "fdt (crowded n) = []" "uroot (crowded n) = []" "ucwd (crowded n) = []"
  "sock_out (crowded n) = (\<lambda>_. [])"
  by (simp_all add: crowded_def demo_world_def)

lemma crowded_dirs:
  "node_at (crowded n) [''srv''] = Some (Dir 0x1ED)" "node_at (crowded n) [''srv'', ''bob''] = Some (Dir 0x1C0)"
  "node_at (crowded n) [''srv'', ''bob'', ''d''] = Some (Dir 0x1C0)"
  by (simp_all add: crowded_def node_at_def)

lemma crowded_file:
  "node_at (crowded n) [''srv'', ''bob'', ''d'', replicate (Suc i) CHR ''x''] = (if i < n then Some (File [] 0x180) else None)"
proof -
  have "map_of (map (\<lambda>i. ([''srv'', ''bob'', ''d'', replicate (Suc i) CHR ''x''], File [] 0x180)) js)
      [''srv'', ''bob'', ''d'', replicate (Suc i) CHR ''x''] = (if i \<in> set js then Some (File [] 0x180) else None)" for js
    by (induction js) (auto dest: arg_cong [of _ _ length])
  then show ?thesis by (simp add: crowded_def node_at_def del: replicate.simps)
qed

lemma crowded_listing:
  "list_dir (crowded n) ''/srv'' demo_session = [''srv'']" "abs_path (crowded n) ''/srv'' = [''srv'']"
  "abs_path (in_root (crowded n) ''/srv'' demo_session) ''bob/d'' = [''srv'', ''bob'', ''d'']"
  "children (in_root (crowded n) ''/srv'' demo_session) [''srv'', ''bob'', ''d''] = map (\<lambda>i. replicate (Suc i) CHR ''x'') [0..<n]"
proof -
  have u: "session_user demo_session = []"
    by (simp add: session_user_def demo_session_def zero_session_def c_str_def)
  show "list_dir (crowded n) ''/srv'' demo_session = [''srv'']" "abs_path (crowded n) ''/srv'' = [''srv'']"
      "abs_path (in_root (crowded n) ''/srv'' demo_session) ''bob/d'' = [''srv'', ''bob'', ''d'']"
    by (simp_all add: list_dir_def in_root_def root_of_def abs_path_def has_prefix_def u)
  have "map (\<lambda>x. last (fst x)) (filter (\<lambda>x. fst x \<noteq> [] \<and> butlast (fst x) = [''srv'', ''bob'', ''d''])
      (map (\<lambda>i. ([''srv'', ''bob'', ''d'', replicate (Suc i) CHR ''x''], File [] 0x180)) js))
      = map (\<lambda>i. replicate (Suc i) CHR ''x'') js" for js
    by (induction js) simp_all
  then show "children (in_root (crowded n) ''/srv'' demo_session) [''srv'', ''bob'', ''d''] = map (\<lambda>i. replicate (Suc i) CHR ''x'') [0..<n]"
    by (simp add: children_def crowded_def del: replicate.simps)
qed

lemma crowded_nameable: "n \<le> 4000 \<Longrightarrow> nameable (in_root (crowded n) ''/srv'' demo_session) ''bob/d''"
  by (auto simp: nameable_def crowded_listing crowded_file plain_name_def simp del: replicate.simps)
    (auto simp: append_eq_Cons_conv replicate_eq_replicate)

theorem listing_is_bounded_witness:
  "wp (handle_request 2000 unix_kernel demo_helper 4 (demo_header LS 1 0 0) [''bob/d''] []) (\<lambda>r p'. \<exists>a es. r = Returned a \<and>
     res_status a = 0 \<and> res_payload_len a = 160 \<and> length es = 160 \<and> sock_out (world p') 4 = enc_response a @ es)
     (fresh_proc (crowded 2) 0) \<and>
   wp (handle_request 2000 unix_kernel demo_helper 4 (demo_header LS 1 0 0) [''bob/d''] []) (\<lambda>r p'. r = Undefined)
     (fresh_proc (crowded 1025) 0)"
proof -
  have "wp (handle_request 2000 unix_kernel demo_helper 4 (demo_header LS 1 0 0) [''bob/d''] []) (\<lambda>r p'.
      if n \<le> 1024 then \<exists>a es. r = Returned a \<and> res_status a = 0 \<and> res_payload_len a = of_nat (80 * n) \<and> length es = 80 * n \<and>
        sock_out (world p') 4 = enc_response a @ es
      else r = Undefined) (fresh_proc (crowded n) 0)" if "n \<le> 1900" for n
    by (rule wp_mono, rule listing_is_bounded [where ?w0.0 = "in_root (crowded n) ''/srv'' demo_session" and q = "[''srv'', ''bob'', ''d'']"
          and names = "map (\<lambda>i. replicate (Suc i) CHR ''x'') [0..<n]"])
      (use that in \<open>auto simp: crowded_listing crowded_dirs crowded_file crowded_nameable is_dir_def fresh_fd_def node_stat_def
         simp del: replicate.simps decode_command.simps\<close>)
  from this [of 2] this [of 1025] show ?thesis by simp
qed

end
