(* ===== verification/Helper_Protocols.thy ===== *)
theory Helper_Protocols
  imports Helper_Effects
begin

text \<open>
  The properties of the helper as a partner in protocols: the lock around the
  creation of users, the paths a transfer opens, and the framing of requests and
  responses between a handler process and the helper.
\<close>

section \<open>Creating users\<close>

text \<open>Where a process stands with the lock file: not open, open, or locked.\<close>

datatype lock_phase = Unlocked | Opened int | Held int

text \<open>
  The monitor of the creation: processes are started and directories made or given
  away only under the lock, and the lock is taken and released in order.
\<close>

definition creation_step :: "string \<Rightarrow> lock_phase \<Rightarrow> event \<Rightarrow> lock_phase option" where
  "creation_step path ph e = (case fst e of
       PathC (Open q fl m) \<Rightarrow>
         (if q = path \<and> ph = Unlocked then Some (if 0 \<le> rv (snd e) then Opened (rv (snd e)) else Unlocked)
          else None)
     | FdC (Setlkw fd F_WRLCK) \<Rightarrow>
         (if ph = Opened fd then Some (if 0 \<le> rv (snd e) then Held fd else ph) else None)
     | FdC (Setlk fd F_UNLCK) \<Rightarrow> if ph = Held fd then Some (Opened fd) else None
     | FdC (Close fd) \<Rightarrow> if ph = Opened fd then Some Unlocked else None
     | PathC _ \<Rightarrow> (case ph of Held _ \<Rightarrow> Some ph | _ \<Rightarrow> None)
     | ProcC _ \<Rightarrow> (case ph of Held _ \<Rightarrow> Some ph | _ \<Rightarrow> None)
     | _ \<Rightarrow> None)"

abbreviation creation_state :: "string \<Rightarrow> 'w proc \<Rightarrow> lock_phase option" where
  "creation_state path p \<equiv> mon_run (creation_step path) Unlocked (events p)"

text \<open>C23. Creating a user, for every behaviour of the system: the user database is asked, \<open>adduser\<close> or
  \<open>deluser\<close> started and the home directory made and given away only while the process holds the
  write lock on the lock file, and every way of returning has released the lock and closed the
  file, once.\<close>

theorem create_user_holds_lock:
  assumes "events p = []"
  shows "wp (CreateSystemUser K path rootd username mode) (\<lambda>r p'.
    \<exists>ph. creation_state path p' = Some ph \<and> (\<forall>a. r = Returned a \<longrightarrow> ph = Unlocked)) p"
  using assms
  unfolding CreateSystemUser_def Let_def acquireUserCreationLock_def release_and_fail_def delete_and_fail_def
    delete_user_def releaseUserCreationLock_def
  by (auto simp: wp_simps mon_simps creation_step_def split: option.split intro!: any_kernel)

theorem create_user_holds_lock_witness:
  "wp (CreateSystemUser ok_kernel ''/srv/.lock'' ''/srv'' ''ann'' 0x1C0) (\<lambda>r p'.
    \<exists>ph. creation_state ''/srv/.lock'' p' = Some ph \<and> (\<forall>a. r = Returned a \<longrightarrow> ph = Unlocked)) (fresh_proc () 0)"
  by (rule create_user_holds_lock) simp

text \<open>C36. A creation that reports success has found the name free, seen \<open>adduser\<close> exit with 0, found
  the new user in the user database, made the home directory \<open>root/name\<close> with the mode asked for,
  and given it to the new user's ids, each call having succeeded.\<close>

theorem create_user_success_means_done:
  assumes "events p = []"
  shows "wp (CreateSystemUser K path rootd username mode) (\<lambda>r p'. \<forall>msg. r = Returned (0, msg) \<longrightarrow>
    (\<exists>free done pw home m c. home = take 1023 (rootd @ ''/'' @ username) \<and>
       (ProcC (Getpwnam username), free) \<in> set (events p') \<and> pw_out free = None \<and>
       (\<exists>pid. (ProcC (Waitpid pid), done) \<in> set (events p')) \<and>
       WIFEXITED (wait_out done) \<and> WEXITSTATUS (wait_out done) = 0 \<and>
       (\<exists>known. (ProcC (Getpwnam username), known) \<in> set (events p') \<and> pw_out known = Some pw) \<and>
       (PathC (Mkdir home mode), m) \<in> set (events p') \<and> rv m = 0 \<and>
       (PathC (Chown home (pw_uid pw) (pw_gid pw)), c) \<in> set (events p') \<and> rv c = 0)) p"
  unfolding CreateSystemUser_def Let_def acquireUserCreationLock_def release_and_fail_def delete_and_fail_def
    delete_user_def releaseUserCreationLock_def
  by (auto simp: wp_simps assms split: option.split intro!: any_kernel) (rule exI, rule conjI, rule disjI1, rule refl, blast)

text \<open>A kernel on which the user is unknown until \<open>adduser\<close> has been waited for.\<close>

definition adduser_kernel :: "bool kernel" where
  "adduser_kernel w c = (case c of
       ProcC (Getpwnam u) \<Rightarrow>
         ((res_val 0)\<lparr>pw_out := if w then Some \<lparr>pw_name = u, pw_uid = 7, pw_gid = 8, pw_dir = ''/srv/'' @ u\<rparr> else None\<rparr>, w)
     | ProcC Fork \<Rightarrow> (res_val 99, w)
     | ProcC (Waitpid pid) \<Rightarrow> (res_val pid, True)
     | _ \<Rightarrow> (res_val 0, w))"

lemma adduser_run:
  "fst (run_state (CreateSystemUser adduser_kernel ''/srv/.lock'' ''/srv'' ''ann'' 0x1C0) (fresh_proc False 0))
    = Returned (0, ''User created succesfully'')"
  by (simp add: CreateSystemUser_def Let_def acquireUserCreationLock_def releaseUserCreationLock_def
      adduser_kernel_def run_call run_sys WIFEXITED_def WEXITSTATUS_def res_val_def)

theorem create_user_success_means_done_witness:
  "\<exists>m. (PathC (Mkdir ''/srv/ann'' 0x1C0), m) \<in> set (events (snd (run_state
     (CreateSystemUser adduser_kernel ''/srv/.lock'' ''/srv'' ''ann'' 0x1C0) (fresh_proc False 0)))) \<and> rv m = 0"
  using create_user_success_means_done [of "fresh_proc False 0" adduser_kernel "''/srv/.lock''" "''/srv''" "''ann''" "0x1C0"]
    adduser_run by (fastforce simp: wp_run)

section \<open>The paths of a transfer\<close>

lemma strstr_tl: "\<not> strstr (c # s) n \<Longrightarrow> \<not> strstr s n"
  by simp

lemma no_dots_join:
  "\<not> strstr x ''..'' \<Longrightarrow> \<not> strstr y ''..'' \<Longrightarrow> \<not> strstr (x @ CHR ''/'' # y) ''..''"
proof (induction x)
  case (Cons c x)
  then show ?case by (cases x) auto
qed simp

lemma no_dots_take: "\<not> strstr s ''..'' \<Longrightarrow> \<not> strstr (take k s) ''..''"
  unfolding strstr_iff by (metis append.assoc append_take_drop_id)

lemma split_slash_part: "w \<in> set (split_slash s) \<Longrightarrow> \<exists>a b. s = a @ w @ b"
proof (induction s arbitrary: w)
  case (Cons c s)
  obtain v vs where v: "split_slash s = v # vs"
    using split_slash_ne by (metis list.exhaust)
  have hd: "\<exists>b. s = v @ b"
    using v
  proof (induction s arbitrary: v vs)
    case (Cons c s)
    then show ?case by (auto split: if_splits list.splits)
  qed simp
  show ?case
  proof (cases "w = c # v \<and> c \<noteq> CHR ''/''")
    case True
    then show ?thesis using hd by (metis append_Cons append_Nil)
  next
    case False
    then have "w = [] \<or> w \<in> set (split_slash s)"
      using Cons.prems v by (auto split: if_splits)
    then show ?thesis using Cons.IH by (metis append.assoc append_Cons append_Nil)
  qed
qed simp

lemma no_dots_component: "\<not> strstr s ''..'' \<Longrightarrow> ''..'' \<notin> set (split_slash s)"
  using split_slash_part strstr_iff by metis

text \<open>A call names no path, or opens one below the root without a component \<open>..\<close>.\<close>

definition opens_below :: "string \<Rightarrow> syscall \<Rightarrow> bool" where
  "opens_below root c \<longleftrightarrow> (case c of
       PathC (Open q fl m) \<Rightarrow> (\<exists>rest. q = root @ CHR ''/'' # rest \<and> ''..'' \<notin> set (split_slash rest))
     | PathC _ \<Rightarrow> False
     | CredC _ \<Rightarrow> False
     | _ \<Rightarrow> True)"

lemma opens_below_simps [simp]:
  "opens_below root (FdC c)" "opens_below root (ProcC d)"
  by (simp_all add: opens_below_def)

lemma opens_belowI:
  assumes "length root < 511" "\<not> strstr rest ''..''" "q = take 511 (root @ CHR ''/'' # rest)"
  shows "opens_below root (PathC (Open q fl m))"
proof -
  have "q = root @ CHR ''/'' # take (510 - length root) rest"
    using assms(1,3) take_Suc_Cons [of "510 - length root" "CHR ''/''" rest] by (simp add: Suc_diff_le [symmetric])
  then show ?thesis
    using no_dots_component [OF no_dots_take [OF assms(2)]] by (auto simp: opens_below_def)
qed

lemma transfer_loop_only: "only_calls (opens_below root) (transfer_loop fuel K sf df)"
  by (induction fuel) (auto intro!: only_calls_intros)

lemma writeAll_below: "only_calls (opens_below root) (writeAll K fd bs)"
  by (rule only_calls_mono [OF writeAll_only]) (auto simp: writes_to_iff)

lemma transfer_out_only: "only_calls (opens_below root) (transfer_out K cfd a b res)"
  unfolding transfer_out_def respond_def
  by (auto intro!: only_calls_intros writeAll_below)

text \<open>C5. A transfer opens no file outside the server's root, for every behaviour of the system: with
  user names free of two dots in a row, every path it opens is the root, a slash and a path
  without a component \<open>..\<close>, whatever file name and directory the clients gave; and when one of
  these two contains two dots, nothing is opened at all.  The root has less than 511 characters, so
  that it is not cut where the paths are formatted.\<close>

theorem transfer_stays_below_root:
  assumes "length root < 511" "\<not> strstr sender ''..''" "\<not> strstr recv ''..''"
  shows "only_calls (opens_below root) (HandleHelperTransfer fuel K cfd root sender filename recv dir res) \<and>
    (strstr dir ''..'' \<or> strstr filename ''..'' \<longrightarrow>
       only_calls (\<lambda>c. \<forall>k. c \<noteq> PathC k) (HandleHelperTransfer fuel K cfd root sender filename recv dir res))"
proof (cases "strstr dir ''..'' \<or> strstr filename ''..''")
  case True
  have "only_calls (\<lambda>c. \<forall>k. c \<noteq> PathC k) (writeAll K cfd bs)" for bs
    by (rule only_calls_mono [OF writeAll_only]) (auto simp: writes_to_iff)
  then show ?thesis using True unfolding HandleHelperTransfer_def
    by (auto intro!: transfer_out_only) (auto simp: transfer_out_def respond_def intro!: only_calls_intros)
next
  case False
  have s: "opens_below root (PathC (Open (transfer_src root sender filename) fl m))" for fl m
    using False assms
    by (intro opens_belowI [of _ "sender @ CHR ''/'' # filename"] no_dots_join) (auto simp: transfer_src_def)
  have d: "opens_below root (PathC (Open (transfer_dest root recv dir filename) fl m))" for fl m
    using False assms
    by (intro opens_belowI [of _ "recv @ CHR ''/'' # dir @ CHR ''/'' # filename"] no_dots_join)
      (auto simp: transfer_dest_def)
  show ?thesis using False unfolding HandleHelperTransfer_def lock_fd_def
    by (auto intro!: only_calls_intros transfer_out_only transfer_loop_only s d split: option.split bool.split)
qed

theorem transfer_stays_below_root_witness:
  "only_calls (\<lambda>c. \<forall>k. c \<noteq> PathC k)
     (HandleHelperTransfer 9 ok_kernel 4 ''/srv'' ''bob'' ''f'' ''ann'' ''../../etc'' (initial_response 12))"
  using transfer_stays_below_root [of "''/srv''" "''bob''" "''ann''" 9 ok_kernel 4 "''f''" "''../../etc''"
      "initial_response 12"] by simp

section \<open>Requests and responses on the wire\<close>

definition request_header :: "helper_commands \<Rightarrow> string list \<Rightarrow> ClientSession \<Rightarrow> int \<Rightarrow> u32 \<Rightarrow> helper_request_header" where
  "request_header cmd argv session offset n = \<lparr>req_cmd = command_code cmd, req_argc = of_nat (length argv),
     req_payload_len = packed_len argv, req_session = session, req_offset = word_of_int offset, req_data_len = n\<rparr>"

definition wire_request :: "helper_commands \<Rightarrow> string list \<Rightarrow> ClientSession \<Rightarrow> int \<Rightarrow> bytes \<Rightarrow> bytes" where
  "wire_request cmd argv session offset data =
     enc_request_header (request_header cmd argv session offset (of_nat (length data))) @ pack_args argv @ data"

text \<open>What may travel: arguments without NULs that fit the 32 bit lengths, at most \<open>MAXARGS\<close>.\<close>

definition sendable :: "string list \<Rightarrow> ClientSession \<Rightarrow> bytes \<Rightarrow> bool" where
  "sendable argv session data \<longleftrightarrow> (\<forall>a\<in>set argv. NUL \<notin> set a) \<and> length argv \<le> MAXARGS \<and>
     length (pack_args argv) < 2 ^ 32 \<and> length data < 2 ^ 32 \<and> session_wf session"

lemma request_header_simps [simp]:
  "decode_command (req_cmd (request_header cmd argv session offset n)) = Some cmd"
  "req_argc (request_header cmd argv session offset n) = of_nat (length argv)"
  "req_payload_len (request_header cmd argv session offset n) = packed_len argv"
  "req_session (request_header cmd argv session offset n) = session"
  "req_data_len (request_header cmd argv session offset n) = n"
  by (cases cmd) (simp_all add: request_header_def)

lemma read_block_unix:
  assumes "cfd \<in> set (socks (world p))" "sock_in (world p) cfd = bs @ rest" "length bs < 2 ^ 32"
  obtains p' where "run_state (read_block unix_kernel cfd (of_nat (length bs))) p = (Some bs, p')"
    "sock_in (world p') cfd = rest" "but_in cfd (world p') = but_in cfd (world p)" "cfd \<in> set (socks (world p'))"
proof (cases "bs = []")
  case True
  then show thesis using that [of p] assms by (simp add: read_block_def)
next
  case False
  have n: "unat (of_nat (length bs) :: u32) = length bs" by (rule unat_of_nat_u32 [OF assms(3)])
  obtain p' where "run_state (readAll unix_kernel cfd (length bs)) p = ((int (length bs), bs), p')"
      "sock_in (world p') cfd = rest" "but_in cfd (world p') = but_in cfd (world p)" "cfd \<in> set (socks (world p'))"
    using usrc.readAll_enough [of cfd p "length bs"] assms by auto
  moreover have "(of_nat (length bs) :: u32) \<noteq> 0" using n False by (metis length_0_conv unat_0)
  ultimately show thesis using that [of p'] False n by (simp add: read_block_def)
qed

lemma args_of_packed:
  assumes "\<forall>a\<in>set argv. NUL \<notin> set a" "length argv \<le> MAXARGS"
  shows "args_of_payload (of_nat (length argv)) (pack_args argv) = Some argv"
proof (cases argv)
  case Nil
  then show ?thesis by (simp add: args_of_payload_def)
next
  case (Cons a as)
  have "unat (of_nat (length argv) :: u32) = length argv"
    by (rule unat_of_nat_u32) (use assms(2) in simp)
  then show ?thesis
    using assms unpack_pack [OF assms(1), of "[]"] Cons by (simp add: args_of_payload_def min_absorb1)
qed

lemma take_drop_append: "take (length a) (a @ b) = a" "drop (length a) (a @ b) = b"
  by simp_all

text \<open>The helper takes in exactly the request a handler process put on the wire: from a connection
  that holds a request and whatever comes after it, in pieces of any sizes, one round of the loop
  reads the request and nothing more, and carries out the command with the arguments, the session,
  the offset and the data the sender gave.\<close>

theorem helper_receives_request:
  assumes "cfd \<in> set (socks (world p))" "sendable argv session data"
    and "sock_in (world p) cfd = wire_request cmd argv session offset data @ rest"
  shows "\<exists>p1. sock_in (world p1) cfd = rest \<and> but_in cfd (world p1) = but_in cfd (world p) \<and>
    run_state (command_round fuel unix_kernel helper cfd) p =
    run_state (handle_request fuel unix_kernel helper cfd
        (request_header cmd argv session offset (of_nat (length data))) argv data \<bind>
      (\<lambda>r. State_Monad.return (case r of Returned _ \<Rightarrow> Returned True | Exited \<Rightarrow> Exited
                               | Running \<Rightarrow> Running | Undefined \<Rightarrow> Undefined))) p1"
proof -
  let ?h = "request_header cmd argv session offset (of_nat (length data))"
  let ?e = "enc_request_header ?h"
  have wf: "session_wf (req_session ?h)" using assms(2) by (simp add: sendable_def)
  have l: "length ?e = 2100" and d: "dec_request_header ?e = ?h"
    using request_codec.enc_width [OF wf] request_codec.dec_enc [OF wf] by auto
  have sin: "sock_in (world p) cfd = ?e @ (pack_args argv @ data @ rest)"
    using assms(3) by (simp add: wire_request_def)
  obtain p1 where 1: "run_state (readAll unix_kernel cfd 2100) p = ((2100, ?e), p1)"
      "sock_in (world p1) cfd = pack_args argv @ data @ rest" "but_in cfd (world p1) = but_in cfd (world p)"
      "cfd \<in> set (socks (world p1))"
    using usrc.readAll_enough [of cfd p 2100] assms(1) l sin take_drop_append [of ?e "pack_args argv @ data @ rest"]
    by auto
  obtain p2 where 2: "run_state (read_block unix_kernel cfd (packed_len argv)) p1 = (Some (pack_args argv), p2)"
      "sock_in (world p2) cfd = data @ rest" "but_in cfd (world p2) = but_in cfd (world p1)"
      "cfd \<in> set (socks (world p2))"
    using read_block_unix [OF 1(4,2)] assms(2) by (auto simp: sendable_def packed_len)
  obtain p3 where 3: "run_state (read_block unix_kernel cfd (of_nat (length data))) p2 = (Some data, p3)"
      "sock_in (world p3) cfd = rest" "but_in cfd (world p3) = but_in cfd (world p2)"
    using read_block_unix [OF 2(4,2)] assms(2) by (auto simp: sendable_def)
  have a: "args_of_payload (of_nat (length argv)) (pack_args argv) = Some argv"
    using args_of_packed assms(2) by (simp add: sendable_def)
  show ?thesis
    by (rule exI [of _ p3]) (simp add: command_round_def Let_def 1 2 3 d a)
qed

lemma demo_sendable: "sendable [''f''] demo_session ''XY''"
  by (simp add: sendable_def session_wf_def demo_session_def zero_session_def length_strncpy)

definition request_world :: unix where
  "request_world = demo_world\<lparr>sock_in := (\<lambda>_. wire_request WRITE [''f''] demo_session 7 ''XY'')\<rparr>"

theorem helper_receives_request_witness:
  "\<exists>p1. sock_in (world p1) 4 = [] \<and> but_in 4 (world p1) = but_in 4 request_world \<and>
    run_state (command_round 9 unix_kernel demo_helper 4) (fresh_proc request_world 0) =
    run_state (handle_request 9 unix_kernel demo_helper 4 (request_header WRITE [''f''] demo_session 7 2) [''f''] ''XY'' \<bind>
      (\<lambda>r. State_Monad.return (case r of Returned _ \<Rightarrow> Returned True | Exited \<Rightarrow> Exited
                               | Running \<Rightarrow> Running | Undefined \<Rightarrow> Undefined))) p1"
  using helper_receives_request [of 4 "fresh_proc request_world 0" "[''f'']" demo_session "''XY''" WRITE 7 "[]"] demo_sendable
  by (simp add: request_world_def)

lemma send_args_unix:
  assumes "hfd \<in> set (socks (world p))"
  shows "\<exists>p'. run_state (send_args unix_kernel hfd argv) p = (0, p') \<and>
     sock_out (world p') hfd = sock_out (world p) hfd @ pack_args argv \<and>
     but_out hfd (world p') = but_out hfd (world p) \<and> hfd \<in> set (socks (world p'))"
  using assms
proof (induction argv arbitrary: p)
  case (Cons a as)
  obtain p1 where 1: "run_state (writeAll unix_kernel hfd (a @ [NUL])) p = (int (length (a @ [NUL])), p1)"
      "sock_out (world p1) hfd = sock_out (world p) hfd @ a @ [NUL]" "but_out hfd (world p1) = but_out hfd (world p)"
      "hfd \<in> set (socks (world p1))"
    by (rule usnk.writeAll_sink [OF Cons.prems])
  show ?case using Cons.IH [OF 1(4)] 1 by fastforce
qed simp

lemma but_in_out: "but_in fd w' = but_in fd w \<Longrightarrow> sock_out w' = sock_out w"
  by (drule arg_cong [where f = sock_out]) (simp add: but_in_def)

lemma but_out_in: "but_out fd w' = but_out fd w \<Longrightarrow> sock_in w' = sock_in w"
  by (drule arg_cong [where f = sock_in]) (simp add: but_out_def)

lemma dec_response_append:
  assumes "response_wf r"
  shows "dec_response (enc_response r @ x) = r"
proof -
  have "sint (word_of_int (res_status r) :: u32) = res_status r"
    using assms by (simp add: response_wf_def signed_of_int signed_take_bit_int_eq_self)
  then show ?thesis using assms by (simp add: enc_response_def dec_response_def response_wf_def)
qed

text \<open>The other direction: a handler process that sends a request puts exactly the request's bytes
  on the wire, then takes exactly one response off it, returns the status in it and holds the
  response in the caller's structure, whatever the pieces.\<close>

theorem handler_gets_answer:
  assumes "hfd \<in> set (socks (world p))" "sock_in (world p) hfd = enc_response r @ rest" "response_wf r"
    and "length data < 2 ^ 32" "length junk = 5372"
  shows "\<exists>p'. run_state (sendHelperRequestRW unix_kernel hfd cmd argv offset (Some session) (Some data)
        (of_nat (length data)) junk) p = ((res_status r, enc_response r), p') \<and>
    sock_out (world p') hfd = sock_out (world p) hfd @ wire_request cmd argv session offset data \<and>
    sock_in (world p') hfd = rest"
proof -
  let ?e = "enc_request_header (request_header cmd argv session offset (of_nat (length data)))"
  note l = response_codec.enc_width [OF assms(3)]
  obtain p1 where 1: "run_state (writeAll unix_kernel hfd ?e) p = (int (length ?e), p1)"
      "sock_out (world p1) hfd = sock_out (world p) hfd @ ?e" "but_out hfd (world p1) = but_out hfd (world p)"
      "hfd \<in> set (socks (world p1))"
    by (rule usnk.writeAll_sink [OF assms(1)])
  obtain p2 where 2: "run_state (send_args unix_kernel hfd argv) p1 = (0, p2)"
      "sock_out (world p2) hfd = sock_out (world p1) hfd @ pack_args argv"
      "but_out hfd (world p2) = but_out hfd (world p1)" "hfd \<in> set (socks (world p2))"
    using send_args_unix [OF 1(4)] by blast
  obtain p3 where 3: "run_state (writeAll unix_kernel hfd data) p2 = (int (length data), p3)"
      "sock_out (world p3) hfd = sock_out (world p2) hfd @ data" "but_out hfd (world p3) = but_out hfd (world p2)"
      "hfd \<in> set (socks (world p3))"
    by (rule usnk.writeAll_sink [OF 2(4)])
  define q where "q = (if data = [] then p2 else p3)"
  have q: "sock_out (world q) hfd = sock_out (world p2) hfd @ data" "but_out hfd (world q) = but_out hfd (world p2)"
      "hfd \<in> set (socks (world q))"
    using 2 3 by (auto simp: q_def)
  have sin: "sock_in (world q) hfd = enc_response r @ rest"
    using q(2) 2(3) 1(3) assms(2) but_out_in by metis
  obtain p4 where 4: "run_state (readAll unix_kernel hfd 5372) q = ((5372, enc_response r), p4)"
      "sock_in (world p4) hfd = rest" "but_in hfd (world p4) = but_in hfd (world q)"
    using usrc.readAll_enough [of hfd q 5372] q(3) sin l take_drop_append [of "enc_response r" rest] by auto
  have out: "sock_out (world p4) = sock_out (world q)"
    using 4(3) by (metis but_in_out)
  have pos: "(0 :: u32) < of_nat (length data) \<longleftrightarrow> data \<noteq> []"
    using of_nat_u32_pos [OF assms(4)] by simp
  have "run_state (sendHelperRequestRW unix_kernel hfd cmd argv offset (Some session) (Some data)
        (of_nat (length data)) junk) p = ((res_status r, enc_response r), p4)"
    using 1(1) 2(1) 3(1) 4(1) l assms(5) dec_response_append [OF assms(3), of "[]"]
    by (cases "data = []") (simp_all add: sendHelperRequestRW_def Let_def request_header_def q_def pos)
  then show ?thesis using 1 2 4 q out by (intro exI [of _ p4]) (simp add: wire_request_def)
qed

definition answer_world :: unix where
  "answer_world = demo_world\<lparr>sock_in := (\<lambda>_. enc_response (initial_response 9))\<rparr>"

theorem handler_gets_answer_witness:
  "fst (run_state (sendHelperRequestRW unix_kernel 4 WRITE [''f''] 7 (Some demo_session) (Some ''XY'') 2
      (replicate 5372 NUL)) (fresh_proc answer_world 0)) = (- 1, enc_response (initial_response 9))"
  using handler_gets_answer [of 4 "fresh_proc answer_world 0" "initial_response 9" "[]" "''XY''"
      "replicate 5372 NUL" WRITE "[''f'']" 7 demo_session]
  by (auto simp: answer_world_def initial_response_def response_wf_def)

end
