(* ===== verification/Server_Properties.thy ===== *)
theory Server_Properties
  imports Helper_Protocols Client
begin

text \<open>
  The properties of the handler processes of the server: what of a client's request
  reaches the commands, who may do what, what a login leaves in the session, and how
  the handlers of two clients meet in the registry.
\<close>

section \<open>Where the tokens lie\<close>

lemma tokenize_loop_layout:
  assumes "NUL \<notin> set s" "s \<noteq> []" "last s \<noteq> SPC" "length (words_of s) \<le> n"
  shows "\<exists>ts buf'. tokenize_loop n (pre @ s @ NUL # t) (length pre) = (ts, buf') \<and> ts \<noteq> [] \<and>
     last ts + length (c_str (drop (last ts) buf')) = length pre + length s \<and>
     drop (length pre + length s + 1) buf' = t \<and> length buf' = length pre + length s + Suc (length t) \<and>
     take (length pre) buf' = pre \<and> (hd s \<noteq> SPC \<longrightarrow> hd ts = length pre)"
  using assms
proof (induction n arbitrary: pre s)
  case 0
  show ?case
  proof (cases rule: next_word [of s])
    case (none k)
    then show ?thesis using 0 by (cases k) (auto simp: replicate_append_same [symmetric] simp del: replicate.simps)
  next
    case (last k w)
    then show ?thesis using 0 by (simp add: words_of_word)
  next
    case (more k w r)
    then show ?thesis using 0 by (simp add: words_of_word)
  qed
next
  case (Suc n)
  show ?case
  proof (cases rule: next_word [of s])
    case (none k)
    then have "last s = SPC" using Suc.prems(2) by (cases k) auto
    then show ?thesis using Suc.prems(3) by simp
  next
    case (last k w)
    then have "\<forall>c\<in>set w. c \<noteq> SPC \<and> c \<noteq> NUL" using Suc.prems by auto
    then have tok: "strtok (pre @ s @ NUL # t) (length pre) =
        Some (length pre + k, pre @ s @ NUL # t, length pre + length s)"
      using last strtok_word [of w NUL pre k t] by (simp add: add.assoc)
    have "strtok (pre @ s @ NUL # t) (length pre + length s) = None"
      using strtok_none [of "pre @ s" 0 t] by simp
    then have rest: "tokenize_loop n (pre @ s @ NUL # t) (length pre + length s) = ([], pre @ s @ NUL # t)"
      by (cases n) simp_all
    have res: "tokenize_loop (Suc n) (pre @ s @ NUL # t) (length pre) = ([length pre + k], pre @ s @ NUL # t)"
      by (simp add: tok rest)
    have "hd s \<noteq> SPC \<Longrightarrow> k = 0" using last by (cases k) auto
    then show ?thesis unfolding res using last Suc.prems by (auto simp: c_str_append)
  next
    case (more k w r)
    define pre' where "pre' = pre @ replicate k SPC @ w @ [NUL]"
    have "\<forall>c\<in>set w. c \<noteq> SPC \<and> c \<noteq> NUL" using Suc.prems more by auto
    then have tok: "strtok (pre @ s @ NUL # t) (length pre) =
        Some (length pre + k, pre' @ r @ NUL # t, length pre')"
      using more strtok_word [of w SPC pre k "r @ NUL # t"] by (simp add: pre'_def add.assoc)
    have r: "NUL \<notin> set r" "r \<noteq> []" "last r \<noteq> SPC" "length (words_of r) \<le> n"
      using Suc.prems more by (auto simp: words_of_word split: if_splits)
    have k: "hd s \<noteq> SPC \<Longrightarrow> k = 0" using more by (cases k) auto
    have len: "length pre' + length r = length pre + length s" using more by (simp add: pre'_def)
    obtain ts buf' where IH: "tokenize_loop n (pre' @ r @ NUL # t) (length pre') = (ts, buf')" "ts \<noteq> []"
        "last ts + length (c_str (drop (last ts) buf')) = length pre' + length r"
        "drop (length pre' + length r + 1) buf' = t" "length buf' = length pre' + length r + Suc (length t)"
        "take (length pre') buf' = pre'"
      using Suc.IH [OF r, of pre'] by blast
    obtain z where "buf' = pre' @ z" using IH(6) by (metis append_take_drop_id)
    then have "take (length pre) buf' = pre" by (simp add: pre'_def)
    moreover have "tokenize_loop (Suc n) (pre @ s @ NUL # t) (length pre) = ((length pre + k) # ts, buf')"
      by (simp add: tok IH(1))
    ultimately show ?thesis using IH k unfolding len by simp
  qed
qed

section \<open>From the client's line to the command\<close>

text \<open>A command line as a user types it: no NUL, a word at either end, and not too many words.\<close>

definition plain_line :: "string \<Rightarrow> bool" where
  "plain_line s \<longleftrightarrow> NUL \<notin> set s \<and> s \<noteq> [] \<and> hd s \<noteq> SPC \<and> last s \<noteq> SPC \<and> length (words_of s) \<le> MAXARGS"

lemma plain_tokens:
  assumes "plain_line s"
  shows "fst (tokenizeCommand (s @ NUL # t)) \<noteq> []" "hd (fst (tokenizeCommand (s @ NUL # t))) = 0"
    "cmd_end (tokenizeCommand (s @ NUL # t)) = length s + 1"
    "drop (length s + 1) (snd (tokenizeCommand (s @ NUL # t))) = t"
    "length (snd (tokenizeCommand (s @ NUL # t))) = length s + 1 + length t"
    "argv_strings (tokenizeCommand (s @ NUL # t)) = words_of s"
proof -
  have s: "NUL \<notin> set s" "s \<noteq> []" "last s \<noteq> SPC" "length (words_of s) \<le> MAXARGS" "hd s \<noteq> SPC"
    using assms by (auto simp: plain_line_def)
  obtain ts b where tb: "tokenizeCommand (s @ NUL # t) = (ts, b)" "ts \<noteq> []"
      "last ts + length (c_str (drop (last ts) b)) = length s" "drop (length s + 1) b = t"
      "length b = length s + Suc (length t)" "hd ts = 0"
    using tokenize_loop_layout [OF s(1-4), of "[]" t] s(5) unfolding tokenizeCommand_def
    by (metis append_Nil length_0_conv list.size(3) add_0)
  show "fst (tokenizeCommand (s @ NUL # t)) \<noteq> []" "hd (fst (tokenizeCommand (s @ NUL # t))) = 0"
    "cmd_end (tokenizeCommand (s @ NUL # t)) = length s + 1"
    "drop (length s + 1) (snd (tokenizeCommand (s @ NUL # t))) = t"
    "length (snd (tokenizeCommand (s @ NUL # t))) = length s + 1 + length t"
    unfolding cmd_end_def Let_def tb(1) fst_conv snd_conv tb(3) by (simp_all add: tb(2,5,6) tb(4) [simplified])
  show "argv_strings (tokenizeCommand (s @ NUL # t)) = words_of s"
    using tokenizeCommand_words [OF s(1), of t] s(4) by simp
qed

text \<open>The data of a write survives the way from the client to the helper: for a command line with a
  word at either end, the server cuts the words of the line out of the client's request and finds
  behind them exactly the recorded bytes, whatever they are.\<close>

theorem write_data_roundtrip:
  assumes "plain_line s" "is_write s" "build_request s data = (hdr, payload)" "length s + 1 + length data < 2 ^ 32"
  shows "argv_strings (tokenizeCommand (payload @ [NUL])) = words_of s \<and>
    write_file_data (payloadLength hdr) (tokenizeCommand (payload @ [NUL])) = Some data \<and>
    write_data_len (payloadLength hdr) (tokenizeCommand (payload @ [NUL])) = of_nat (length data)"
proof -
  have b: "payload = s @ NUL # data" "payloadLength hdr = of_nat (length s + 1 + length data)"
    using assms(2,3) by (auto simp: build_request_def)
  note t = plain_tokens [OF assms(1), of "data @ [NUL]"]
  have l: "write_data_len (payloadLength hdr) (tokenizeCommand (s @ NUL # data @ [NUL])) = of_nat (length data)"
    unfolding write_data_len_def t(2,3) b(2) by simp
  have "unat (of_nat (length data) :: u32) = length data"
    by (rule unat_of_nat_u32) (use assms(4) in simp)
  then have "write_file_data (payloadLength hdr) (tokenizeCommand (s @ NUL # data @ [NUL])) = Some data"
    unfolding write_file_data_def l t(3-5) Let_def by simp
  then show ?thesis using t(6) l b(1) by simp
qed

theorem write_data_roundtrip_witness:
  "write_file_data (payloadLength (fst (build_request ''write -offset=2 f'' ''a b'')))
     (tokenizeCommand (snd (build_request ''write -offset=2 f'' ''a b'') @ [NUL])) = Some ''a b''"
  using write_data_roundtrip [of "''write -offset=2 f''" "''a b''" "fst (build_request ''write -offset=2 f'' ''a b'')"
      "snd (build_request ''write -offset=2 f'' ''a b'')"]
  by (simp add: plain_line_def is_write_def has_prefix_def words_of_def)

text \<open>A request survives the way from the client to the command: from a connection that holds the
  bytes the client sends for a line, in pieces of any sizes, one round of the session reads exactly
  these and runs the command with the words of the line as its arguments, at most \<open>MAXARGS\<close> of them,
  for the session as it is.\<close>

theorem server_receives_command:
  assumes "cfd \<in> set (socks (world p))" "\<not> sigflag (world p)" "NUL \<notin> set line" "words_of line \<noteq> []"
    and "build_request line data = (hdr, payload)" "length payload < 2 ^ 32 - 1"
    and "sock_in (world p) cfd = enc_msg_header hdr @ payload @ rest"
    and "tb = tokenizeCommand (payload @ [NUL])"
  shows "argv_strings tb = take MAXARGS (words_of line) \<and> (\<exists>p1. sock_in (world p1) cfd = rest \<and>
    run_state (client_round fuel unix_kernel M junk cfd session) p =
    run_state (run_command fuel unix_kernel M junk cfd tb (payloadLength hdr) session \<bind>
      (\<lambda>r. State_Monad.return (case r of Returned s \<Rightarrow> Returned (Continue s) | Exited \<Rightarrow> Exited
                               | Running \<Rightarrow> Running | Undefined \<Rightarrow> Undefined))) p1)"
proof -
  obtain t where t: "payload = line @ NUL # t"
    using assms(5) by (auto simp: build_request_def Let_def split: if_splits)
  have len: "payloadLength hdr = of_nat (length payload)"
    using assms(5) by (auto simp: build_request_def Let_def)
  have n: "unat (of_nat (length payload) :: u32) = length payload"
    by (rule unat_of_nat_u32) (use assms(6) in simp)
  have ne: "(of_nat (length payload) :: u32) \<noteq> 0" using n t by (metis append_is_Nil_conv length_0_conv list.simps(3) unat_0)
  have ne1: "(of_nat (length payload) :: u32) + 1 \<noteq> 0"
  proof
    assume "(of_nat (length payload) :: u32) + 1 = 0"
    then have "(of_nat (Suc (length payload)) :: u32) = 0" by (simp add: add.commute)
    moreover have "unat (of_nat (Suc (length payload)) :: u32) = Suc (length payload)"
      by (rule unat_of_nat_u32) (use assms(6) in simp)
    ultimately show False by simp
  qed
  let ?p0 = "after_call p (MemC FlagRead) (res_val 0) (world p)"
  have 0: "run_state (call unix_kernel (MemC FlagRead)) p = (0, ?p0)"
    using assms(2) by (simp add: run_call)
  let ?e = "enc_msg_header hdr"
  have w: "length ?e = 16" "dec_msg_header ?e = hdr"
    using header_codec.enc_width [of hdr] header_codec.dec_enc [of hdr] by auto
  obtain p1 where 1: "run_state (readAll unix_kernel cfd 16) ?p0 = ((16, ?e), p1)"
      "sock_in (world p1) cfd = payload @ rest" "cfd \<in> set (socks (world p1))"
    using usrc.readAll_enough [of cfd ?p0 16] assms(1,7) w take_drop_append [of ?e "payload @ rest"] by auto
  obtain p2 where 2: "run_state (readAll unix_kernel cfd (length payload)) p1 = ((int (length payload), payload), p2)"
      "sock_in (world p2) cfd = rest"
    using usrc.readAll_enough [of cfd p1 "length payload"] 1 by auto
  have words: "argv_strings tb = take MAXARGS (words_of line)"
    using tokenizeCommand_words [OF assms(3), of "t @ [NUL]"] t assms(8) by simp
  then have "fst tb \<noteq> []" using assms(4) by (auto simp: argv_strings_def take_eq_Nil)
  moreover have "0 < length payload" using t by simp
  ultimately show ?thesis
    using words 2(2) by (intro conjI exI [of _ p2])
      (simp_all add: client_round_def 0 1(1) 2(1) w(2) len n ne ne1 dispatchCommands_def Let_def assms(8))
qed

definition cd_line :: "msg_header \<times> bytes" where
  "cd_line = build_request ''cd  d'' []"

lemma cd_line: "payloadLength (fst cd_line) = 6" "length (snd cd_line) = 6" "words_of ''cd  d'' = [''cd'', ''d'']"
  "sigflag demo_world = False"
  by (simp_all add: cd_line_def build_request_def is_write_def has_prefix_def Let_def words_of_def demo_world_def)

definition client_world :: unix where
  "client_world = demo_world\<lparr>sock_in := (\<lambda>_. enc_msg_header (fst cd_line) @ snd cd_line)\<rparr>"

theorem server_receives_command_witness:
  "\<exists>p1. sock_in (world p1) 4 = [] \<and>
    run_state (client_round 9 unix_kernel unix_shm [] 4 demo_session) (fresh_proc client_world 0) =
    run_state (run_command 9 unix_kernel unix_shm [] 4 (tokenizeCommand (snd cd_line @ [NUL])) 6 demo_session \<bind>
      (\<lambda>r. State_Monad.return (case r of Returned s \<Rightarrow> Returned (Continue s) | Exited \<Rightarrow> Exited
                               | Running \<Rightarrow> Running | Undefined \<Rightarrow> Undefined))) p1"
proof -
  have b: "build_request ''cd  d'' [] = (fst cd_line, snd cd_line)" by (simp add: cd_line_def)
  have w: "4 \<in> set (socks (world (fresh_proc client_world 0)))" "\<not> sigflag (world (fresh_proc client_world 0))"
    "sock_in (world (fresh_proc client_world 0)) 4 = enc_msg_header (fst cd_line) @ snd cd_line @ []"
    by (simp_all add: client_world_def cd_line(4))
  show ?thesis
    using server_receives_command [OF w(1,2) _ _ b _ w(3) refl, of 9 unix_shm "[]" demo_session]
    unfolding cd_line(1,2) by (simp add: cd_line(3))
qed

section \<open>Who may do what\<close>

text \<open>The calls on the client's connection alone.\<close>

definition talks_to :: "int \<Rightarrow> syscall \<Rightarrow> bool" where
  "talks_to fd c \<longleftrightarrow> (case c of FdC (Write fd' b) \<Rightarrow> fd' = fd | FdC (Setlkw fd' k) \<Rightarrow> fd' = fd
     | FdC (Setlk fd' k) \<Rightarrow> fd' = fd | _ \<Rightarrow> False)"

lemma talks_to_simps [simp]:
  "talks_to fd (FdC (Write fd b))" "talks_to fd (FdC (Setlkw fd k))" "talks_to fd (FdC (Setlk fd k))"
  by (simp_all add: talks_to_def)

lemma writes_talk: "writes_to fd c \<Longrightarrow> talks_to fd c"
  by (auto simp: writes_to_iff)

text \<open>A command that answers and leaves the session alone.\<close>

definition only_answers :: "int \<Rightarrow> ClientSession \<Rightarrow> 'w client_command \<Rightarrow> bool" where
  "only_answers cfd s m \<longleftrightarrow> only_calls (talks_to cfd) m \<and> (\<forall>p. fst (run_state m p) = Returned s)"

lemma only_answers_reply: "only_answers cfd s (reply K cfd st msg s)"
proof -
  have "fst (run_state (reply K cfd st msg s) p) = Returned s" for p
    by (simp add: reply_def split: prod.split)
  then show ?thesis unfolding only_answers_def reply_def
    by (auto intro!: only_calls_intros only_calls_mono [OF sendProtocolMsg_only writes_talk])
qed

lemma only_answers_send_locked: "only_answers cfd s (send_locked K cfd st msg b s)"
proof -
  have "fst (run_state (send_locked K cfd st msg b s) p) = Returned s" for p
    by (simp add: send_locked_def split: prod.split)
  then show ?thesis
    unfolding only_answers_def send_locked_def sendProtocolMsgLocked_def acquire_socket_lock_def release_socket_lock_def
    by (auto intro!: only_calls_intros only_calls_mono [OF sendProtocolMsgBg_only writes_talk])
qed

text \<open>The answer to a line that needs a login, and to one that is no command: which message, with which
  status, sent under the lock of the connection or not.  It knows nothing of the registry.\<close>

definition refusal :: "'w kernel \<Rightarrow> int \<Rightarrow> string list \<Rightarrow> ClientSession \<Rightarrow> 'w client_command" where
  "refusal K cfd argv s =
     (let name = hd argv; is_bg = (if is_background_command argv then 1 else 0)
      in if name = ''download'' \<and> 4 \<le> length argv \<and> last argv \<noteq> ''-b'' then
           send_locked K cfd (- 1) ''Usage: download <server_path> <client_path> [-b]'' is_bg s
         else if name \<in> {''download'', ''upload''} then send_locked K cfd (- 1) ''Log in first'' is_bg s
         else if name \<in> {''transfer_request'', ''accept'', ''reject''} then reply K cfd (- 1) ''Login required'' s
         else if name \<in> {''create'', ''chmod'', ''delete'', ''move'', ''read''} then reply K cfd 0 ''Log in first'' s
         else if name \<in> {''ls'', ''cd'', ''write''} then reply K cfd (- 1) ''Log in first'' s
         else reply K cfd (- 1) ''Command not found'' s)"

lemma only_answers_refusal: "only_answers cfd s (refusal K cfd argv s)"
  by (simp add: refusal_def Let_def only_answers_reply only_answers_send_locked)

text \<open>C3. Before login a client can create users and log in and nothing else: on every other line, known
  command or not, the handler does exactly what \<open>refusal\<close> does, whatever the registry, the fuel and
  the memory it is given: it sends the one message that belongs to the first word (for download and
  upload under the lock of the connection, and nothing when the lock is refused), and that program has
  no access to the shared memory at all.  Every call is on the client's own connection, so no
  helper is contacted and no process, socket or file is touched, and the session stays as it is, for
  every behaviour of the system.\<close>

theorem commands_need_login:
  assumes "sess_state session \<noteq> STATE_LOGGED_IN"
    and "hd (argv_strings tb) \<notin> {''create_user'', ''login''}"
  shows "run_command fuel K M junk cfd tb len session = refusal K cfd (argv_strings tb) session \<and>
    only_answers cfd session (run_command fuel K M junk cfd tb len session)"
proof -
  have "run_command fuel K M junk cfd tb len session = refusal K cfd (argv_strings tb) session"
    using assms unfolding run_command_cases refusal_def Let_def
    by (simp add: handleLs_def handleCd_def handleCreateFile_def handleChmod_def handleDelete_def handleMove_def
        handleRead_def handleWrite_def handleDownload_def handleUpload_def handleTransferRequest_def
        handleAcceptTransfer_def handleRejectTransfer_def Let_def)
  then show ?thesis by (simp add: only_answers_refusal)
qed

theorem commands_need_login_witness:
  "run_command 9 ok_kernel \<lparr>shm_get = (\<lambda>_. init_registry 0), shm_put = (\<lambda>_ w. w)\<rparr> [] 4
     (tokenizeCommand (''delete f'' @ [NUL])) 8 zero_session = reply ok_kernel 4 0 ''Log in first'' zero_session"
proof -
  have w: "argv_strings (tokenizeCommand (''delete f'' @ [NUL])) = [''delete'', ''f'']"
    using tokenizeCommand_words [of "''delete f''" "[]"] by (simp add: words_of_def)
  show ?thesis
    by (subst commands_need_login [THEN conjunct1])
      (simp_all only: w, simp_all add: zero_session_def refusal_def)
qed

section \<open>What a login leaves in the session\<close>

lemma login_response_fields:
  assumes "response_wf r" "NUL \<notin> set (pw_dir pw)" "length (pw_dir pw) < 4096"
  defines "b \<equiv> enc_response (set_login pw (r\<lparr>res_status := 0\<rparr>))"
  shows "un_le32 (drop 1268 b) = pw_uid pw" "un_le32 (drop 1272 b) = pw_gid pw" "c_str (drop 1276 b) = pw_dir pw"
proof -
  have b: "b = (le32 0 @ le32 (res_payload_len r) @ res_msg r @ le32 (res_cmd r)) @ le32 (pw_uid pw) @ le32 (pw_gid pw)
      @ strncpy 4096 (pw_dir pw) (drop 8 (res_data r))"
    by (simp add: b_def enc_response_def set_login_def)
  have l: "length (le32 0 @ le32 (res_payload_len r) @ res_msg r @ le32 (res_cmd r)) = 1268"
    using assms(1) by (simp add: response_wf_def)
  have d: "drop (1268 + k) b = drop k (le32 (pw_uid pw) @ le32 (pw_gid pw)
      @ strncpy 4096 (pw_dir pw) (drop 8 (res_data r)))" for k
    unfolding b drop_append l using l by simp
  show "un_le32 (drop 1268 b) = pw_uid pw" "un_le32 (drop 1272 b) = pw_gid pw" "c_str (drop 1276 b) = pw_dir pw"
    using d [of 0] d [of 4] d [of 8] assms(2,3) c_str_strncpy [of "pw_dir pw" 4096 _ "[]"] by simp_all
qed

text \<open>A login carries the user's entry of the user database into the session: from the response
  that the helper's login handler sends, the handler process takes exactly the ids and the home
  directory of the entry, the working directory becomes \<open>/\<close>, and the session reads back the user
  name, unless the name has the full twenty characters, which leaves it unterminated: then the
  session's name runs on into the home directory.\<close>

theorem login_fills_session:
  assumes "response_wf r" "session_wf s" "isUsernameValid u"
    and "NUL \<notin> set (pw_dir pw)" "length (pw_dir pw) < ABS_PATH"
    and "s' = logged_in u (enc_response (set_login pw (r\<lparr>res_status := 0\<rparr>))) s"
  shows "sess_state s' = STATE_LOGGED_IN \<and> sess_uid s' = pw_uid pw \<and> sess_gid s' = pw_gid pw \<and>
    session_home s' = pw_dir pw \<and> session_workdir s' = ''/'' \<and> session_wf s' \<and>
    session_user s' = (if length u < MAX_USERNAME_LEN then u else u @ pw_dir pw)"
proof -
  have dir: "length (pw_dir pw) < 4096" using assms(5) by simp
  note f = login_response_fields [OF assms(1,4) dir]
  have u: "NUL \<notin> set u" "length u \<le> MAX_USERNAME_LEN"
    using valid_user_no_nul [OF assms(3)] assms(3) by (auto simp: isUsernameValid_iff)
  have home: "c_str (strncpy ABS_PATH (pw_dir pw) x @ m) = pw_dir pw" for x m
    by (rule c_str_strncpy [OF assms(4,5)])
  have fields: "sess_state s' = STATE_LOGGED_IN" "sess_uid s' = pw_uid pw" "sess_gid s' = pw_gid pw"
      "sess_username s' = strncpy MAX_USERNAME_LEN u (sess_username s)"
      "sess_home s' = strncpy ABS_PATH (pw_dir pw) (sess_home s)"
      "sess_workdir s' = CHR ''/'' # NUL # drop 2 (sess_workdir s)"
    by (simp_all add: assms(6) logged_in_def f)
  have "session_user s' = (if length u < MAX_USERNAME_LEN then u else u @ pw_dir pw)"
  proof (cases "length u < MAX_USERNAME_LEN")
    case True
    then show ?thesis by (simp only: session_user_def fields c_str_strncpy [OF u(1) True] if_True)
  next
    case False
    then have "length u = MAX_USERNAME_LEN" "length (sess_username s) = MAX_USERNAME_LEN"
      using u(2) assms(2) by (auto simp: session_wf_def)
    then show ?thesis using False
      by (simp only: session_user_def fields c_str_strncpy_full [OF u(1)] home if_False)
  qed
  moreover have "session_wf s'"
    using assms(2) by (simp add: session_wf_def fields length_strncpy)
  ultimately show ?thesis by (simp add: fields session_home_def session_workdir_def home)
qed

theorem login_fills_session_witness:
  "session_user (logged_in ''ann'' (enc_response (set_login \<lparr>pw_name = ''ann'', pw_uid = 7, pw_gid = 8,
     pw_dir = ''/srv/ann''\<rparr> (initial_response 1\<lparr>res_status := 0\<rparr>))) zero_session) = ''ann''"
  using login_fills_session [OF _ _ _ _ _ refl, of "initial_response 1" zero_session "''ann''"
      "\<lparr>pw_name = ''ann'', pw_uid = 7, pw_gid = 8, pw_dir = ''/srv/ann''\<rparr>"]
  by (simp add: initial_response_def response_wf_def session_wf_def zero_session_def isUsernameValid_iff isalpha_def)

section \<open>The port of a data connection\<close>

lemma no_space_digits: "\<forall>c\<in>set (show_nat n). \<not> isspace c"
  using show_nat_digits by blast

lemma scan_show_nat:
  assumes "n < 2 ^ 31"
  shows "scan_int (SPC # show_nat n @ SPC # r) = Some (int n, SPC # r)"
proof -
  note d = show_nat_digits [of n]
  have sp: "isspace SPC" "\<not> isdigit_base 10 SPC" by (simp_all add: isspace_def isdigit_base_def)
  have s1: "skip_space (SPC # show_nat n @ SPC # r) = show_nat n @ SPC # r"
    using d show_nat_ne [of n] sp(1) by (cases "show_nat n") (auto simp: skip_space_def)
  have hd: "hd (show_nat n @ SPC # r) \<noteq> CHR ''-''" "hd (show_nat n @ SPC # r) \<noteq> CHR ''+''"
    using d show_nat_ne [of n] by (cases "show_nat n"; auto)+
  have tw: "takeWhile (isdigit_base 10) (show_nat n @ SPC # r) = show_nat n"
    using d sp(2) by (simp add: takeWhile_all)
  have "atoi (show_nat n) = int n"
    using atoi_show_int [of "int n"] assms by (simp add: show_int_def)
  then show ?thesis
    unfolding scan_int_def s1 Let_def using hd tw show_nat_ne [of n] by simp
qed

text \<open>The port of a data connection and the file name reach the client: what the server prints for
  a download or an upload is what the client's \<open>sscanf\<close> reads back, and it makes the client start
  the transfer of that kind with that port, in the background or not as it asked; the message
  has to fit the 63 characters of the server's buffer.\<close>

theorem data_port_roundtrip:
  assumes "0 \<le> port" "port < 65536" "path \<noteq> []" "\<forall>c\<in>set path. \<not> isspace c \<and> c \<noteq> NUL"
    and "length (show_int port) + length path \<le> 52" "type = DOWNLOAD_RES \<or> type = UPLOAD_RES"
  shows "transfer_of (make_header type 0 (length (port_info port path) + 1) bg)
      ((port_info port path @ [NUL]) @ [NUL]) =
    Some (Thread_create (type = UPLOAD_RES) port path (word_of_int bg))"
proof -
  let ?m = "''DATA_PORT '' @ show_int port @ SPC # path"
  have m: "port_info port path = ?m" using assms(5) by (simp add: port_info_def)
  obtain n where n: "port = int n" "n < 2 ^ 31" using assms(1,2) nonneg_int_cases [of port] by auto
  have sh: "show_int port = show_nat n" by (simp add: n show_int_def)
  have "NUL \<notin> set ?m" using show_nat_digits [of n] assms(4) by (auto simp: sh)
  then have c: "c_str ((port_info port path @ [NUL]) @ [NUL]) = ?m"
    unfolding m append_assoc append.simps by (rule c_str_term [of ?m "[NUL]", unfolded append_assoc append.simps])
  have sp: "isspace SPC" by (simp add: isspace_def)
  have path: "takeWhile (\<lambda>c. \<not> isspace c) (skip_space (SPC # path)) = path"
    using assms(3,4) sp by (cases path) (auto simp: skip_space_def takeWhile_eq_all_conv)
  have "parse_data_port ?m = Some (port, path)"
    using scan_show_nat [OF n(2), of path] path assms(3)
    by (simp add: parse_data_port_def has_prefix_def n(1) sh [unfolded n(1)] Let_def)
  then show ?thesis unfolding transfer_of_def c using assms(6) by (auto simp: is_data_type_def)
qed

theorem data_port_roundtrip_witness:
  "transfer_of (make_header DOWNLOAD_RES 0 (length (port_info 8080 ''a.txt'') + 1) 1)
      ((port_info 8080 ''a.txt'' @ [NUL]) @ [NUL]) = Some (Thread_create False 8080 ''a.txt'' 1)"
  using data_port_roundtrip [of 8080 "''a.txt''" DOWNLOAD_RES 1]
  by (simp add: isspace_def show_int_def show_nat.simps)

end
