(* ===== verification/Server_Confinement.thy ===== *)
theory Server_Confinement
  imports Server_Properties
begin

text \<open>
  What a handler process of the server never does, for every behaviour of the
  system: it names no file and changes neither its root, its directory nor its
  identity.  With it: the order in which the server process gives up root.
\<close>

section \<open>Calls of the handler processes\<close>

definition served :: "syscall \<Rightarrow> bool" where
  "served c \<longleftrightarrow> (case c of PathC _ \<Rightarrow> False | CredC _ \<Rightarrow> False | StdioC _ \<Rightarrow> False | _ \<Rightarrow> True)"

lemma served_simps [simp]:
  "served (FdC c1)" "served (ProcC c2)" "served (NetC c3)" "served (MemC c4)"
  by (simp_all add: served_def)

lemma only_calls_state_get: "only_calls C get_errno"
  by (simp add: only_calls_def)

lemma only_calls_on_registry: "only_calls C (on_registry M f)"
  by (simp add: only_calls_def on_registry_def split: prod.split)

lemma served_writeAll: "only_calls served (writeAll K fd bs)"
  by (rule only_calls_mono [OF writeAll_only]) (auto simp: writes_to_iff)

lemma served_readAll: "only_calls served (readAll K fd n)"
  by (rule only_calls_mono [OF readAll_only]) (auto simp: reads_from_iff)

lemma served_send_args: "only_calls served (send_args K fd argv)"
  by (induction argv) (auto intro!: only_calls_intros served_writeAll)

lemma served_copy_stream: "only_calls served (copy_stream fuel K src dst len)"
  by (induction fuel) (auto intro!: only_calls_intros served_writeAll)

lemma served_relay_bytes: "only_calls served (relay_bytes K src dst todo)"
proof (induction K src dst todo rule: relay_bytes.induct)
  case (1 K src dst todo)
  then show ?case
    by (subst relay_bytes.simps) (auto intro!: only_calls_intros served_writeAll)
qed

lemmas served_io = only_calls_state_get only_calls_on_registry served_writeAll served_readAll served_send_args
  served_copy_stream served_relay_bytes

lemma served_messages:
  "only_calls served (sendProtocolMsg K fd t st msg)"
  "only_calls served (sendProtocolMsgBg K fd t st msg b)"
  "only_calls served (sendProtocolMsgLocked K fd t st msg b)"
  "only_calls served (connectToHelper K)"
  "only_calls served (sendHelperRequest K hfd cmd argv s junk)"
  "only_calls served (sendHelperRequestRW K hfd cmd argv off s d n junk)"
  "only_calls served (critical K M f)"
  unfolding sendProtocolMsg_def sendProtocolMsgBg_def sendProtocolMsgLocked_def acquire_socket_lock_def
    release_socket_lock_def connectToHelper_def sendHelperRequest_def sendHelperRequestRW_def Let_def critical_def
  by (auto intro!: only_calls_intros served_io split: prod.split)

lemma served_answers:
  "only_calls served (reply K fd st msg s)"
  "only_calls served (reply_close K fd hfd st msg s)"
  "only_calls served (send_locked K fd st msg b s)"
  unfolding reply_def reply_close_def send_locked_def by (auto intro!: only_calls_intros served_messages)

lemma served_forwards:
  "only_calls served (relay K junk fd cmd args a s)"
  "only_calls served (forward_data K fd hfd t n s)"
  unfolding relay_def forward_data_def
  by (auto intro!: only_calls_intros served_io served_messages served_answers split: prod.split)

lemmas served_parts = served_io served_messages served_answers served_forwards

lemma served_file_commands:
  "only_calls served (handleCreateUser K junk fd argv s)"
  "only_calls served (handleLogin K M junk fd argv s)"
  "only_calls served (handleLs K junk fd argv s)"
  "only_calls served (handleCd K junk fd argv s)"
  "only_calls served (handleCreateFile K junk fd argv s)"
  "only_calls served (handleChmod K junk fd argv s)"
  "only_calls served (handleDelete K junk fd argv s)"
  "only_calls served (handleMove K junk fd argv s)"
  "only_calls served (handleRead K junk fd argv s)"
  "only_calls served (handleWrite K junk fd tb n s)"
  unfolding handleCreateUser_def handleLogin_def handleLs_def handleCd_def handleCreateFile_def handleChmod_def
    handleDelete_def handleMove_def handleRead_def handleWrite_def Let_def
  by (auto intro!: only_calls_intros served_parts split: prod.split sum.split option.split)

lemma served_children:
  "only_calls served (download_child K junk fd b argv s l)"
  "only_calls served (upload_child fuel K junk fd b argv s l)"
  unfolding download_child_def upload_child_def
  by (auto intro!: only_calls_intros served_parts split: prod.split)

lemma served_data_port:
  "(\<And>l. only_calls served (child l)) \<Longrightarrow> only_calls served (with_data_port K fd b t path s child)"
  unfolding with_data_port_def Let_def release_socket_lock_def
  by (auto intro!: only_calls_intros served_parts)

lemma served_await: "only_calls served (await_handler fuel K M u)"
  by (induction fuel) (auto intro!: only_calls_intros served_parts split: option.split)

lemma served_transfer_commands:
  "only_calls served (handleDownload K junk fd argv s)"
  "only_calls served (handleUpload fuel K junk fd argv s)"
  "only_calls served (handleTransferRequest fuel K M fd argv s)"
  "only_calls served (handleAcceptTransfer K M junk fd argv s)"
  "only_calls served (handleRejectTransfer K M fd argv s)"
  unfolding handleDownload_def handleUpload_def handleTransferRequest_def handleAcceptTransfer_def
    handleRejectTransfer_def Let_def
  by (auto intro!: only_calls_intros served_parts served_data_port served_children served_await
      split: prod.split option.split)

lemma served_run_command: "only_calls served (run_command fuel K M junk fd tb n s)"
  unfolding run_command_cases Let_def
  by (auto intro!: served_file_commands served_transfer_commands served_answers)

lemma served_notifications: "only_calls served (check_for_notifications K M fd s)"
proof -
  have "only_calls served (send_notifications K fd ns)" for ns
    by (induction ns) (auto intro!: only_calls_intros served_parts)
  then show ?thesis unfolding check_for_notifications_def
    by (auto intro!: only_calls_intros served_parts)
qed

lemma served_client_round: "only_calls served (client_round fuel K M junk fd s)"
  unfolding client_round_def dispatchCommands_def Let_def
  by (auto intro!: only_calls_intros served_parts served_run_command served_notifications
      split: prod.split option.split)

lemma served_client_loop: "only_calls served (client_loop fuel K M junk fd s)"
  by (induction fuel arbitrary: s)
    (auto intro!: only_calls_intros served_client_round split: outcome.split round_result.split)

lemma served_handleClient: "only_calls served (handleClient fuel K M junk cfd)"
  unfolding handleClient_def setup_signal_handling_def end_session_def
  by (auto intro!: only_calls_intros served_parts served_client_loop split: outcome.split)

text \<open>C2. A client cannot make its handler process touch the file system, for every behaviour of the
  system and every sequence of requests: the process that serves a client makes no call that
  names a file, and none that changes its root, its working directory or its identity; all it
  does to files it does by asking the helper.\<close>

theorem handler_never_touches_files:
  "only_calls served (handleClient fuel K M junk cfd)"
  by (rule served_handleClient)

section \<open>Giving up root\<close>

text \<open>How far the server process has come: inside its root, in the group, and out of root's identity.\<close>

datatype identity_phase = Start | Rooted | Inside | Grouped | Ready

text \<open>Until it is \<open>Ready\<close> the process must not listen, wait for a client, accept or fork.\<close>

definition identity_step :: "string \<Rightarrow> u32 \<Rightarrow> u32 \<Rightarrow> identity_phase \<Rightarrow> event \<Rightarrow> identity_phase option" where
  "identity_step root gid uid ph e = (case ph of
       Ready \<Rightarrow> (if served (fst e) \<or> fst e = PathC (Unlink HELPER_SOCK_REL) then Some Ready else None)
     | _ \<Rightarrow> (case fst e of
         CredC (Chroot d) \<Rightarrow> Some (if ph = Start \<and> d = root \<and> 0 \<le> rv (snd e) then Rooted else ph)
       | CredC (Chdir d) \<Rightarrow> Some (if ph = Rooted \<and> d = ''/'' \<and> 0 \<le> rv (snd e) then Inside else ph)
       | CredC Getuid \<Rightarrow> Some (if ph = Inside \<and> rv (snd e) \<noteq> 0 then Ready else ph)
       | CredC (Setgid g) \<Rightarrow> Some (if ph = Inside \<and> g = gid \<and> rv (snd e) = 0 then Grouped else ph)
       | CredC (Setuid u) \<Rightarrow> Some (if ph = Grouped \<and> u = uid \<and> rv (snd e) = 0 then Ready else ph)
       | NetC _ \<Rightarrow> None
       | ProcC _ \<Rightarrow> None
       | _ \<Rightarrow> Some ph))"

abbreviation identity_state :: "string \<Rightarrow> u32 \<Rightarrow> u32 \<Rightarrow> 'w proc \<Rightarrow> identity_phase option" where
  "identity_state root gid uid p \<equiv> mon_run (identity_step root gid uid) Start (events p)"

definition after_drop :: "syscall \<Rightarrow> bool" where
  "after_drop c \<longleftrightarrow> served c \<or> c = PathC (Unlink HELPER_SOCK_REL)"

lemma after_drop_simps [simp]:
  "served c \<Longrightarrow> after_drop c" "after_drop (PathC (Unlink HELPER_SOCK_REL))"
  by (simp_all add: after_drop_def)

lemma identity_rest:
  assumes "only_calls after_drop m" "identity_state root gid uid p = Some Ready"
    and "\<And>a p'. identity_state root gid uid p' = Some Ready \<Longrightarrow> Q a p'"
  shows "wp m Q p"
proof (rule wp_only_callsI [OF assms(1)], rule assms(3))
  fix p' :: "'a proc" and es
  assume es: "events p' = events p @ es" "\<forall>e\<in>set es. after_drop (fst e)"
  have "mon_run (identity_step root gid uid) Ready es = Some Ready"
    by (rule mon_run_ignored) (use es(2) in \<open>auto simp: identity_step_def after_drop_def\<close>)
  then show "identity_state root gid uid p' = Some Ready" by (simp add: es(1) mon_run_append assms(2))
qed

lemma served_accept_loop: "only_calls served (accept_loop fuel K M junk server)"
  by (induction fuel)
    (auto intro!: only_calls_intros served_parts served_handleClient split: outcome.split simp: serve_client_def)

lemma served_kill_handlers: "only_calls served (kill_handlers K M is)"
  by (induction "is") (auto intro!: only_calls_intros served_parts)

lemma after_drop_startServer: "only_calls after_drop (startServer fuel K M junk server)"
  unfolding startServer_def
  by (rule only_calls_mono [of served]) (auto intro!: only_calls_intros served_accept_loop)

lemma after_drop_cleanup: "only_calls after_drop (performFullCleanup K M server helperPid)"
  unfolding performFullCleanup_def SharedMemCleanup_def
  by (auto intro!: only_calls_intros only_calls_mono [OF served_kill_handlers])

text \<open>C21. The server process gives up root before it meets a client, for every behaviour of the system:
  it starts to listen, waits, accepts or forks only after it has gone into its root directory and
  changed its group and then its user to the ones it was started for (or was not root at all),
  each call having succeeded; from then on it never changes its root, its directory or its
  identity again, and names no file but the helper's socket that it removes at the end.\<close>

theorem server_gives_up_root_first:
  assumes "events p = []"
  shows "wp (server_process fuel K M junk root_dir pw gid server listen_fd helperPid)
    (\<lambda>r p'. identity_state root_dir gid (pw_uid pw) p' \<noteq> None) p"
proof -
  note rest = identity_rest [OF after_drop_startServer, where root = root_dir and gid = gid and uid = "pw_uid pw"]
    identity_rest [OF after_drop_cleanup, where root = root_dir and gid = gid and uid = "pw_uid pw"]
  show ?thesis
    unfolding server_process_def setup_sigchld_def dropPriviledges_def
    by (auto simp: wp_simps mon_simps assms identity_step_def split: outcome.split intro!: any_kernel rest)
qed

theorem server_gives_up_root_first_witness:
  "wp (server_process 9 ok_kernel \<lparr>shm_get = (\<lambda>_. init_registry 0), shm_put = (\<lambda>_ w. w)\<rparr> [] ''/srv''
      \<lparr>pw_name = ''ann'', pw_uid = 7, pw_gid = 8, pw_dir = ''/srv/ann''\<rparr> 8
      \<lparr>Port = 8080, Root = ''/srv'', Ip = ''127.0.0.1'', sfd = 3\<rparr> 5 99)
    (\<lambda>r p'. identity_state ''/srv'' 8 (pw_uid \<lparr>pw_name = ''ann'', pw_uid = 7, pw_gid = 8, pw_dir = ''/srv/ann''\<rparr>) p' \<noteq> None)
    (fresh_proc () 0)"
  by (rule server_gives_up_root_first) simp

end
