(* ===== verification/Server_Shutdown.thy ===== *)
theory Server_Shutdown
  imports Server_Confinement
begin

text \<open>The shutdown of the server: whom it signals, whom it waits for and what it removes.\<close>

definition handler_pids :: "UserEntry list \<Rightarrow> int list" where
  "handler_pids us = map handler_pid (filter (\<lambda>e. is_active e \<noteq> 0) us)"

definition ended :: "int \<Rightarrow> syscall list" where
  "ended pid = [ProcC (Kill pid SIGTERM), ProcC (Waitpid pid)]"

text \<open>
  Whoever holds the semaphore is alone with the registry: no call but the one that takes
  the semaphore lets another process change it.
\<close>

definition alone :: "'w kernel \<Rightarrow> 'w shm \<Rightarrow> bool" where
  "alone K M \<longleftrightarrow> (\<forall>w c. c \<noteq> MemC SemWait \<longrightarrow> shm_get M (snd (K w c)) = shm_get M w) \<and>
     (\<forall>r w. shm_get M (shm_put M r w) = r)"

text \<open>The calls so far, and the registry as this process finds it.\<close>

definition trail :: "'w shm \<Rightarrow> SharedRegistry \<Rightarrow> syscall list \<Rightarrow> 'w proc \<Rightarrow> bool" where
  "trail M r cs p \<longleftrightarrow> shm_get M (world p) = r \<and> map fst (events p) = cs"

lemma trail_call:
  assumes "alone K M" "c \<noteq> MemC SemWait" "trail M r cs p" "\<And>a p'. trail M r (cs @ [c]) p' \<Longrightarrow> Q a p'"
  shows "wp (call K c) Q p"
  using assms by (auto simp: wp_def run_call trail_def alone_def)

lemma trail_read:
  assumes "alone K M" "trail M r cs p" "\<And>p'. trail M r cs p' \<Longrightarrow> Q (f r) p'"
  shows "wp (on_registry M (\<lambda>r. (f r, r))) Q p"
  using assms by (auto simp: wp_def on_registry_def trail_def alone_def)

lemma kill_handlers_calls:
  assumes "alone K M" "trail M r cs p"
    and "\<And>p'. trail M r (cs @ concat (map ended (handler_pids (map ((!) (online_users r)) is)))) p' \<Longrightarrow> Q () p'"
  shows "wp (kill_handlers K M is) Q p"
  using assms(2,3)
proof (induction "is" arbitrary: p cs)
  case Nil
  then show ?case by (simp add: prog_simps handler_pids_def)
next
  case (Cons i "is")
  have rest: "wp (kill_handlers K M is) Q p'" if "trail M r (cs @ (if is_active (online_users r ! i) \<noteq> 0
      then ended (handler_pid (online_users r ! i)) else [])) p'" for p'
    by (rule Cons.IH [OF that], rule Cons.prems(2)) (simp add: handler_pids_def split: if_splits)
  show ?case
    unfolding kill_handlers.simps wp_bind
    apply (rule trail_read [OF assms(1) Cons.prems(1)])
    subgoal for p1
      apply (cases "is_active (online_users r ! i) \<noteq> 0")
       apply (simp add: wp_bind)
       apply (rule trail_call [OF assms(1)], simp, assumption)
       apply (rule trail_call [OF assms(1)], simp, assumption)
       apply (rule rest, simp add: ended_def)
      apply (simp add: prog_simps)
      apply (rule rest, simp)
      done
    done
qed

text \<open>C35. The shutdown ends everybody and leaves nothing behind: its calls are exactly the signal to the
  helper, then under the semaphore, for every user that the registry holds as logged in at that moment
  and in the order of the table, a signal to the handler and the wait for its end; then the semaphore,
  the shared memory and the socket of the helper are removed and the listening socket closed.\<close>

theorem shutdown_ends_everyone:
  assumes "alone K M" "w = (if 0 < helperPid then snd (K (world p) (ProcC (Kill helperPid SIGTERM))) else world p)"
    and "r = shm_get M (snd (K w (MemC SemWait)))" "length (online_users r) = MAX_USERS"
  shows "map fst (events (snd (run_state (performFullCleanup K M server helperPid) p))) = map fst (events p) @
    (if 0 < helperPid then [ProcC (Kill helperPid SIGTERM)] else []) @
    MemC SemWait # concat (map ended (handler_pids (online_users r))) @
    [MemC SemPost, MemC SemDestroy, MemC Shm_unlink, PathC (Unlink HELPER_SOCK_REL), FdC (Close (sfd server))]"
proof -
  define k where "k = map fst (events p) @ (if 0 < helperPid then [ProcC (Kill helperPid SIGTERM)] else [])"
  note step = trail_call [OF assms(1)]
  have us: "map ((!) (online_users r)) [0..<MAX_USERS] = online_users r"
    using map_nth [of "online_users r"] assms(4) by simp
  have rest: "wp (call K (MemC SemWait)) (\<lambda>_. wp (kill_handlers K M [0..<MAX_USERS]) (\<lambda>_. wp (call K (MemC SemPost))
      (\<lambda>_. wp (SharedMemCleanup K True []) (\<lambda>_. wp (call K (FdC (Close (sfd server)))) (\<lambda>_ p'.
        map fst (events p') = k @ MemC SemWait # concat (map ended (handler_pids (online_users r))) @
        [MemC SemPost, MemC SemDestroy, MemC Shm_unlink, PathC (Unlink HELPER_SOCK_REL), FdC (Close (sfd server))]))))) p1"
    if "world p1 = w" "map fst (events p1) = k" for p1
  proof -
    have t: "trail M r (k @ [MemC SemWait]) (snd (run_state (call K (MemC SemWait)) p1))"
      using that assms(3) by (simp add: trail_def run_call)
    show ?thesis
      unfolding wp_run [of "call K (MemC SemWait)"]
      apply (rule kill_handlers_calls [OF assms(1) t])
      apply (rule step, simp, assumption)
      apply (simp only: SharedMemCleanup_def if_True wp_bind wp_return list.simps if_False simp_thms)
      apply (rule step, simp, assumption)
      apply (simp only: wp_bind wp_return)?
      apply (rule step, simp, assumption)
      apply (simp only: wp_bind wp_return)?
      apply (rule step, simp, assumption)
      apply (simp only: wp_bind wp_return)?
      apply (rule step, simp, assumption)
      apply (simp add: trail_def us)
      done
  qed
  have "wp (performFullCleanup K M server helperPid) (\<lambda>_ p'. map fst (events p') =
      k @ MemC SemWait # concat (map ended (handler_pids (online_users r))) @
      [MemC SemPost, MemC SemDestroy, MemC Shm_unlink, PathC (Unlink HELPER_SOCK_REL), FdC (Close (sfd server))]) p"
    unfolding performFullCleanup_def wp_bind wp_return
    apply (rule wp_mono [where P = "\<lambda>_ p1. world p1 = w \<and> map fst (events p1) = k"])
     apply (cases "0 < helperPid"; simp add: wp_def run_call assms(2) k_def)
    apply (rule rest; simp)
    done
  then show ?thesis by (simp add: wp_run k_def)
qed

text \<open>Two users are logged in when the server ends.\<close>

definition quiet_kernel :: "SharedRegistry kernel" where
  "quiet_kernel r c = (res_val 0, r)"

theorem shutdown_ends_everyone_witness:
  "map fst (events (snd (run_state (performFullCleanup quiet_kernel \<lparr>shm_get = (\<lambda>w. w), shm_put = (\<lambda>r w. r)\<rparr>
      \<lparr>Port = 8080, Root = ''/srv'', Ip = ''127.0.0.1'', sfd = 3\<rparr> 99)
      (fresh_proc (register_user ''ann'' 42 (register_user ''bob'' 41 (init_registry 0))) 0)))) =
   [ProcC (Kill 99 SIGTERM), MemC SemWait, ProcC (Kill 41 SIGTERM), ProcC (Waitpid 41), ProcC (Kill 42 SIGTERM),
    ProcC (Waitpid 42), MemC SemPost, MemC SemDestroy, MemC Shm_unlink, PathC (Unlink HELPER_SOCK_REL), FdC (Close 3)]"
  by (subst shutdown_ends_everyone [OF _ refl refl])
    (simp_all add: alone_def quiet_kernel_def register_user_def init_registry_def free_entry_def numeral_eq_Suc handler_pids_def ended_def)

end
