(* ===== verification/Registry_Invariants.thy ===== *)
theory Registry_Invariants
  imports Registry
begin

text \<open>
  The registry as a transition system.  A step is one critical section of one
  handler process, so a run is any interleaving of any number of handlers.  The
  theory proves what holds in every run: the shape of the tables, the ids of the
  requests, the life cycle of a slot; and that the table of requests implements an
  abstract book of transfers.
\<close>

section \<open>Runs\<close>

inductive runs :: "('s \<Rightarrow> 'e \<Rightarrow> 's \<Rightarrow> bool) \<Rightarrow> 's \<Rightarrow> 'e list \<Rightarrow> 's \<Rightarrow> bool" for step where
  runs_nil: "runs step s [] s"
| runs_snoc: "runs step s es t \<Longrightarrow> step t e u \<Longrightarrow> runs step s (es @ [e]) u"

text \<open>Invariants may look at the events so far.\<close>

locale traced_invariant =
  fixes step :: "'s \<Rightarrow> 'e \<Rightarrow> 's \<Rightarrow> bool" and start :: "'s \<Rightarrow> bool" and inv :: "'e list \<Rightarrow> 's \<Rightarrow> bool"
  assumes inv_start: "start s \<Longrightarrow> inv [] s"
    and inv_step: "inv es s \<Longrightarrow> step s e t \<Longrightarrow> inv (es @ [e]) t"
begin

lemma runs_inv: "runs step s es t \<Longrightarrow> start s \<Longrightarrow> inv es t"
proof (induction es t rule: runs.induct)
  case runs_nil
  then show ?case by (rule inv_start)
next
  case (runs_snoc es t e u)
  then show ?case by (intro inv_step) auto
qed

end

section \<open>The steps\<close>

datatype registry_event =
    Login string int
  | Logout int
  | Cleanup string
  | Check string
  | Request string string string int
  | Accept_ev string int
  | Reject_ev string int

inductive registry_step :: "SharedRegistry \<Rightarrow> registry_event \<Rightarrow> SharedRegistry \<Rightarrow> bool" where
  "registry_step r (Login name pid) (register_user name pid r)"
| "registry_step r (Logout pid) (unregister_user pid r)"
| "registry_step r (Cleanup user) (cleanup_user_requests user r)"
| "registry_step r (Check user) (snd (check_requests user r))"
| "create_request sender dest file r = Returned (i, r') \<Longrightarrow>
   registry_step r (Request sender dest file i) r'"
| "registry_step r (Accept_ev user i) (snd (accept_request user i r))"
| "registry_step r (Reject_ev user i) (snd (reject_request user i r))"

inductive_cases registry_stepE: "registry_step r e r'"

lemmas registry_ops [reg_defs] =
  register_user_def unregister_user_def cleanup_user_requests_def check_requests_def
  create_request_def accept_request_def reject_request_def

section \<open>The shape of the tables\<close>

definition slot_ok :: "TransferRequest \<Rightarrow> bool" where
  "slot_ok t \<longleftrightarrow> length (tr_sender t) = MAX_USERNAME_LEN \<and> NUL \<in> set (tr_sender t) \<and>
     length (tr_receiver t) = MAX_USERNAME_LEN \<and> NUL \<in> set (tr_receiver t) \<and>
     length (tr_filename t) = FILENAME_SIZE \<and> NUL \<in> set (tr_filename t)"

definition entry_ok :: "UserEntry \<Rightarrow> bool" where
  "entry_ok e \<longleftrightarrow> length (ue_username e) = MAX_USERNAME_LEN \<and> (is_active e = 0 \<or> is_active e = 1)"

definition registry_ok :: "SharedRegistry \<Rightarrow> bool" where
  "registry_ok r \<longleftrightarrow> length (online_users r) = MAX_USERS \<and> list_all entry_ok (online_users r) \<and>
     length (pending r) = MAX_TRANSFERS \<and> list_all slot_ok (pending r)"

lemma c_str_stop: "NUL \<in> set a \<Longrightarrow> c_str (a @ b) = c_str a"
  by (auto simp: c_str_def takeWhile_append)

lemma slot_names:
  assumes "slot_ok t"
  shows "receiver_name t = c_str (tr_receiver t)" "sender_name t = c_str (tr_sender t)"
    "file_name t = c_str (tr_filename t)"
  using assms by (simp_all add: slot_ok_def receiver_name_def sender_name_def file_name_def c_str_stop)

lemma nul_snprintf: "0 < n \<Longrightarrow> NUL \<in> set (snprintf n s dst)"
  by (simp add: snprintf_def Let_def)

lemma slot_ok_new: "slot_ok t \<Longrightarrow> slot_ok (new_request i s d f t)"
  by (simp add: slot_ok_def new_request_def length_snprintf nul_snprintf)

lemma slot_ok_free [simp]: "slot_ok free_request"
  by (simp add: slot_ok_def free_request_def)

lemma slot_ok_update [simp]:
  "slot_ok (t\<lparr>tr_status := st\<rparr>) = slot_ok t" "slot_ok (t\<lparr>tr_id := i\<rparr>) = slot_ok t"
  by (simp_all add: slot_ok_def)

lemma slot_ok_check: "slot_ok t \<Longrightarrow> slot_ok (snd (check_slot u t))"
  by (simp add: check_slot_def)

lemma slot_ok_cleanup: "slot_ok t \<Longrightarrow> slot_ok (cleanup_slot u t)"
  by (auto simp: cleanup_slot_def slot_ok_def memset0_def)

lemma list_all_update: "list_all P xs \<Longrightarrow> P x \<Longrightarrow> list_all P (xs[i := x])"
  by (auto simp: list_all_iff dest: subsetD [OF set_update_subset_insert])

lemma list_all_nth: "list_all P xs \<Longrightarrow> i < length xs \<Longrightarrow> P (xs ! i)"
  by (simp add: list_all_length)

lemmas slot_ok_nth = list_all_nth [where P = slot_ok]

lemma registry_ok_slot: "registry_ok r \<Longrightarrow> i < MAX_TRANSFERS \<Longrightarrow> slot_ok (pending r ! i)"
  by (simp add: registry_ok_def list_all_length)

lemma registry_ok_init: "registry_ok (init_registry c)"
  by (simp add: registry_ok_def init_registry_def list_all_length entry_ok_def free_entry_def)

lemma registry_ok_step:
  assumes "registry_step r e r'" "registry_ok r"
  shows "registry_ok r'"
  using assms(1)
proof (cases rule: registry_step.cases)
  case (1 name pid)
  then show ?thesis using assms(2)
    by (auto simp: register_user_def registry_ok_def entry_ok_def length_strncpy
        intro!: list_all_update dest!: find_index_less dest: list_all_nth split: option.split)
next
  case (2 pid)
  then show ?thesis using assms(2)
    by (auto simp: unregister_user_def registry_ok_def entry_ok_def
        intro!: list_all_update dest!: find_index_less dest: list_all_nth split: option.split)
next
  case (3 user)
  then show ?thesis using assms(2)
    by (auto simp: cleanup_user_requests_def registry_ok_def list_all_iff slot_ok_cleanup)
next
  case (4 user)
  then show ?thesis using assms(2)
    by (auto simp: check_requests_def registry_ok_def list_all_iff slot_ok_check)
next
  case (5 sender dest fname i)
  then show ?thesis using assms(2)
    by (auto simp: create_request_def registry_ok_def Let_def split: option.splits if_splits
        intro!: list_all_update slot_ok_new slot_ok_nth dest!: find_index_less)
next
  case (6 user i)
  then show ?thesis using assms(2)
    by (auto simp: accept_request_def registry_ok_def split: option.splits
        intro!: list_all_update dest!: find_index_less dest: list_all_nth)
next
  case (7 user i)
  then show ?thesis using assms(2)
    by (auto simp: reject_request_def registry_ok_def split: option.splits
        intro!: list_all_update dest!: find_index_less dest: list_all_nth)
qed

interpretation shape: traced_invariant registry_step "\<lambda>r. \<exists>c. r = init_registry c" "\<lambda>_. registry_ok"
  by unfold_locales (auto simp: registry_ok_init intro: registry_ok_step)

section \<open>The ids\<close>

definition live :: "TransferRequest \<Rightarrow> bool" where
  "live t \<longleftrightarrow> tr_status t = PENDING \<or> tr_status t = NOTIFIED"

text \<open>
  Live requests have distinct positive ids, none above the counter; every other
  slot has id 0.
\<close>

definition ids_ok :: "SharedRegistry \<Rightarrow> bool" where
  "ids_ok r \<longleftrightarrow> 0 \<le> sint (global_id_counter r) \<and>
     (\<forall>i<length (pending r). if live (pending r ! i)
        then 0 < tr_id (pending r ! i) \<and> tr_id (pending r ! i) \<le> sint (global_id_counter r)
        else tr_id (pending r ! i) = 0) \<and>
     (\<forall>i<length (pending r). \<forall>j<length (pending r).
        live (pending r ! i) \<longrightarrow> live (pending r ! j) \<longrightarrow> tr_id (pending r ! i) = tr_id (pending r ! j)
        \<longrightarrow> i = j)"

lemma live_simps [simp]:
  "\<not> live free_request" "live (t\<lparr>tr_id := i\<rparr>) = live t"
  "live (t\<lparr>tr_status := st\<rparr>) \<longleftrightarrow> st = PENDING \<or> st = NOTIFIED" "live (new_request i s d f t)"
  "tr_id (new_request i s d f t) = i" "tr_status (new_request i s d f t) = PENDING"
  "tr_id free_request = 0" "tr_status free_request = FREE"
  by (simp_all add: live_def free_request_def new_request_def)

text \<open>A change that keeps the ids of the slots that stay live, and clears the others.\<close>

lemma ids_ok_shrink:
  assumes "ids_ok r" "global_id_counter r' = global_id_counter r"
    "length (pending r') = length (pending r)"
    and "\<And>i. i < length (pending r) \<Longrightarrow> live (pending r' ! i) \<Longrightarrow>
           live (pending r ! i) \<and> tr_id (pending r' ! i) = tr_id (pending r ! i)"
    and "\<And>i. i < length (pending r) \<Longrightarrow> \<not> live (pending r' ! i) \<Longrightarrow> tr_id (pending r' ! i) = 0"
  shows "ids_ok r'"
  using assms unfolding ids_ok_def by (auto split: if_splits)

lemma sint_succ:
  fixes c :: u32
  assumes "0 \<le> sint c" "sint c < 2 ^ 31 - 1"
  shows "sint (c + 1) = sint c + 1"
proof -
  have "sint (c + 1) = sint (word_of_int (sint c + 1) :: u32)" by simp
  also have "\<dots> = sint c + 1" using assms by (simp only: signed_of_int) (simp add: signed_take_bit_int_eq_self)
  finally show ?thesis .
qed

lemma ids_ok_create:
  assumes "ids_ok r" "create_request s d f r = Returned (i, r')" "sint (global_id_counter r) < 2 ^ 31 - 1"
  shows "ids_ok r' \<and> (r' = r \<or> sint (global_id_counter r') = sint (global_id_counter r) + 1)"
proof (cases "find_index (\<lambda>t. tr_status t = FREE) (pending r)")
  case None
  then show ?thesis using assms(1,2) by (simp add: create_request_def)
next
  case (Some k)
  have succ: "sint (global_id_counter r + 1) = sint (global_id_counter r) + 1"
    using assms(1,3) by (intro sint_succ) (simp_all add: ids_ok_def)
  define c where "c = sint (global_id_counter r)"
  have r': "r' = r\<lparr>global_id_counter := global_id_counter r + 1,
      pending := (pending r)[k := new_request (c + 1) s d f (pending r ! k)]\<rparr>"
    using assms(2) Some by (auto simp: create_request_def Let_def succ c_def split: if_splits)
  have "0 \<le> c" using assms(1) by (simp add: ids_ok_def c_def)
  have upper: "live (pending r ! j) \<Longrightarrow> tr_id (pending r ! j) \<le> c"
    "live (pending r ! j) \<Longrightarrow> 0 < tr_id (pending r ! j)"
    "\<not> live (pending r ! j) \<Longrightarrow> tr_id (pending r ! j) = 0"
    if "j < length (pending r)" for j
    using assms(1) that unfolding ids_ok_def c_def by (auto split: if_splits)
  have inj: "i = j" if "i < length (pending r)" "j < length (pending r)" "live (pending r ! i)"
      "live (pending r ! j)" "tr_id (pending r ! i) = tr_id (pending r ! j)" for i j
    using assms(1) that unfolding ids_ok_def by blast
  have ne: "tr_id (pending r ! j) \<noteq> c + 1" if "j < length (pending r)" for j
    using upper [OF that] \<open>0 \<le> c\<close> by fastforce
  have "ids_ok r'"
    unfolding ids_ok_def r'
    using find_index_less [OF Some] \<open>0 \<le> c\<close>
    by (auto simp: nth_list_update succ c_def [symmetric] ne ne [symmetric] inj
        dest: upper(1) intro: upper(2,3) split: if_splits)
  then show ?thesis by (simp add: r' succ)
qed

definition requests_in :: "registry_event list \<Rightarrow> int" where
  "requests_in es = int (length (filter (\<lambda>e. case e of Request _ _ _ _ \<Rightarrow> True | _ \<Rightarrow> False) es))"

lemma requests_in_simps [simp]:
  "requests_in [] = 0"
  "requests_in (es @ [e]) = requests_in es + (case e of Request _ _ _ _ \<Rightarrow> 1 | _ \<Rightarrow> 0)"
  by (simp_all add: requests_in_def split: registry_event.split)

lemma requests_in_nonneg: "0 \<le> requests_in es"
  by (simp add: requests_in_def)

lemma check_slot_live [simp]:
  "live (snd (check_slot u t)) = live t"
  "live t \<Longrightarrow> tr_id (snd (check_slot u t)) = tr_id t"
  "tr_id t = 0 \<Longrightarrow> tr_id (snd (check_slot u t)) = 0"
  by (auto simp: check_slot_def live_def split: if_splits)

lemma cleanup_slot_live:
  "live (cleanup_slot u t) \<Longrightarrow> live t \<and> tr_id (cleanup_slot u t) = tr_id t"
  "\<not> live (cleanup_slot u t) \<Longrightarrow> (\<not> live t \<longrightarrow> tr_id t = 0) \<Longrightarrow> tr_id (cleanup_slot u t) = 0"
  by (auto simp: cleanup_slot_def live_def split: if_splits)

lemma ids_ok_dead: "ids_ok r \<Longrightarrow> i < length (pending r) \<Longrightarrow> \<not> live (pending r ! i) \<Longrightarrow> tr_id (pending r ! i) = 0"
  by (simp add: ids_ok_def)

text \<open>Every step but the creation of a request.\<close>

lemma ids_ok_other_step:
  assumes "ids_ok r" "registry_step r e r'" "\<And>s d f i. e \<noteq> Request s d f i"
  shows "ids_ok r' \<and> global_id_counter r' = global_id_counter r"
  using assms(2)
proof (cases rule: registry_step.cases)
  case (3 user)
  then show ?thesis
    by (auto simp: cleanup_user_requests_def intro!: ids_ok_shrink [OF assms(1)] cleanup_slot_live(2)
        ids_ok_dead [OF assms(1)] dest: cleanup_slot_live(1))
next
  case (4 user)
  then show ?thesis
    by (auto simp: check_requests_def ids_ok_dead [OF assms(1)] intro!: ids_ok_shrink [OF assms(1)])
next
  case (6 user i)
  then show ?thesis
    by (auto simp: accept_request_def assms(1) nth_list_update
        dest!: find_index_hit intro!: ids_ok_shrink [OF assms(1)] ids_ok_dead [OF assms(1)]
        split: option.splits if_splits)
next
  case (7 user i)
  then show ?thesis
    by (auto simp: reject_request_def assms(1) nth_list_update
        dest!: find_index_hit intro!: ids_ok_shrink [OF assms(1)] ids_ok_dead [OF assms(1)]
        split: option.splits if_splits)
qed (use assms in \<open>auto simp: register_user_def unregister_user_def ids_ok_def split: option.split\<close>)

interpretation ids: traced_invariant registry_step "\<lambda>r. r = init_registry 0"
  "\<lambda>es r. requests_in es < 2 ^ 31 \<longrightarrow> ids_ok r \<and> sint (global_id_counter r) \<le> requests_in es"
proof
  fix s assume "s = init_registry 0"
  then show "requests_in [] < 2 ^ 31 \<longrightarrow> ids_ok s \<and> sint (global_id_counter s) \<le> requests_in []"
    by (auto simp: init_registry_def ids_ok_def)
next
  fix es s e t
  assume inv: "requests_in es < 2 ^ 31 \<longrightarrow> ids_ok s \<and> sint (global_id_counter s) \<le> requests_in es"
    and step: "registry_step s e t"
  show "requests_in (es @ [e]) < 2 ^ 31 \<longrightarrow>
      ids_ok t \<and> sint (global_id_counter t) \<le> requests_in (es @ [e])"
  proof (cases "\<exists>a d f i. e = Request a d f i")
    case False
    then show ?thesis using ids_ok_other_step [of s e t] inv step
      by (cases e) auto
  next
    case True
    then obtain a d f i where e: "e = Request a d f i" by blast
    then have "create_request a d f s = Returned (i, t)" using step by (auto elim: registry_stepE)
    then show ?thesis using ids_ok_create [of s a d f i t] inv e by auto
  qed
qed

section \<open>The life of a slot\<close>

text \<open>
  What a step may do to the slot \<open>t\<close>: the event that moves it, and who issues it.
\<close>

definition slot_move :: "registry_event \<Rightarrow> TransferRequest \<Rightarrow> TransferRequest \<Rightarrow> bool" where
  "slot_move e t t' \<longleftrightarrow> (case (tr_status t, tr_status t') of
       (FREE, PENDING) \<Rightarrow> (\<exists>s d f. e = Request s d f (tr_id t'))
     | (PENDING, NOTIFIED) \<Rightarrow> e = Check (receiver_name t)
     | (NOTIFIED, FREE) \<Rightarrow> e = Accept_ev (receiver_name t) (tr_id t) \<or> e = Cleanup (receiver_name t)
     | (PENDING, REJECTED) \<Rightarrow> e = Reject_ev (receiver_name t) (tr_id t)
     | (NOTIFIED, REJECTED) \<Rightarrow> e = Reject_ev (receiver_name t) (tr_id t)
     | (PENDING, FREE) \<Rightarrow> e = Cleanup (receiver_name t)
     | (REJECTED, FREE) \<Rightarrow> e = Check (sender_name t) \<or> e = Cleanup (receiver_name t)
     | (REJECTED, REJECTED) \<Rightarrow>
         tr_sender t' = tr_sender t \<and> tr_receiver t' = tr_receiver t \<and> tr_filename t' = tr_filename t
     | (a, b) \<Rightarrow> a = b \<and> t' = t)"

lemma slot_move_refl: "slot_move e t t"
  by (cases "tr_status t") (simp_all add: slot_move_def)

lemma slot_move_intros:
  "tr_status t = FREE \<Longrightarrow> slot_move (Request s d f k) t (new_request k s d f t)"
  "tr_status t = NOTIFIED \<Longrightarrow>
     slot_move (Accept_ev (receiver_name t) (tr_id t)) t (t\<lparr>tr_status := FREE, tr_id := 0\<rparr>)"
  "tr_status t \<noteq> FREE \<Longrightarrow>
     slot_move (Reject_ev (receiver_name t) (tr_id t)) t (t\<lparr>tr_status := REJECTED, tr_id := 0\<rparr>)"
  by (cases "tr_status t"; simp add: slot_move_def)+

lemma slot_step:
  assumes "registry_step r e r'" "i < length (pending r)"
  shows "slot_move e (pending r ! i) (pending r' ! i)"
  using assms(1)
proof (cases rule: registry_step.cases)
  case (3 user)
  then show ?thesis using assms(2)
    by (cases "tr_status (pending r ! i)")
      (auto simp: cleanup_user_requests_def cleanup_slot_def slot_move_def)
next
  case (4 user)
  then show ?thesis using assms(2)
    by (cases "tr_status (pending r ! i)")
      (auto simp: check_requests_def check_slot_def slot_move_def)
next
  case (5 sender dest fname k)
  then show ?thesis using assms(2)
    by (auto simp: create_request_def Let_def nth_list_update slot_move_refl slot_move_intros(1)
        dest!: find_index_hit split: option.splits if_splits)
next
  case (6 user k)
  then show ?thesis using assms(2)
    by (auto simp: accept_request_def nth_list_update slot_move_refl
        dest!: find_index_hit intro: slot_move_intros(2) split: option.splits if_splits)
next
  case (7 user k)
  then show ?thesis using assms(2)
    by (auto simp: reject_request_def nth_list_update slot_move_refl
        dest!: find_index_hit intro: slot_move_intros(3) split: option.splits if_splits)
qed (auto simp: register_user_def unregister_user_def slot_move_refl split: option.split)

end
