(* ===== verification/Transfer_Book.thy ===== *)
theory Transfer_Book
  imports Registry_Invariants
begin

text \<open>
  What the table of requests promises: a book of open transfers, keyed by id, that
  knows sender, receiver, file and whether the receiver has been told.  The
  critical sections of \<open>Registry\<close> implement the operations of the book
  (\<open>book (f r) = g (book r)\<close>), for every registry that satisfies the invariants of
  \<open>Registry_Invariants\<close>.
\<close>

section \<open>The abstract book\<close>

record transfer =
  t_from :: string
  t_to :: string
  t_file :: string
  t_told :: bool

type_synonym book = "int \<Rightarrow> transfer option"

definition entry_of :: "TransferRequest \<Rightarrow> transfer" where
  "entry_of t = \<lparr>t_from = sender_name t, t_to = receiver_name t, t_file = file_name t,
     t_told = (tr_status t = NOTIFIED)\<rparr>"

definition book :: "SharedRegistry \<Rightarrow> book" where
  "book r i = map_option (\<lambda>k. entry_of (pending r ! k))
     (find_index (\<lambda>t. live t \<and> tr_id t = i) (pending r))"

definition book_tell :: "string \<Rightarrow> book \<Rightarrow> book" where
  "book_tell user b = (\<lambda>i. map_option (\<lambda>x. if t_to x = user then x\<lparr>t_told := True\<rparr> else x) (b i))"

definition book_drop_receiver :: "string \<Rightarrow> book \<Rightarrow> book" where
  "book_drop_receiver user b =
     (\<lambda>i. case b i of None \<Rightarrow> None | Some x \<Rightarrow> if t_to x = user then None else Some x)"

section \<open>Reading the book\<close>

lemma option_ext: "(\<And>x. a = Some x \<longleftrightarrow> b = Some x) \<Longrightarrow> a = b"
  by (cases a; cases b) auto

lemma ids_ok_inj:
  "ids_ok r \<Longrightarrow> i < length (pending r) \<Longrightarrow> j < length (pending r) \<Longrightarrow> live (pending r ! i) \<Longrightarrow>
   live (pending r ! j) \<Longrightarrow> tr_id (pending r ! i) = tr_id (pending r ! j) \<Longrightarrow> i = j"
  unfolding ids_ok_def by blast

lemma book_Some:
  assumes "ids_ok r"
  shows "book r i = Some x \<longleftrightarrow>
    (\<exists>k<length (pending r). live (pending r ! k) \<and> tr_id (pending r ! k) = i \<and> entry_of (pending r ! k) = x)"
    (is "_ \<longleftrightarrow> ?R")
proof
  assume "book r i = Some x"
  then show ?R by (auto simp: book_def dest: find_index_hit)
next
  assume ?R
  then obtain k where k: "k < length (pending r)" "live (pending r ! k)" "tr_id (pending r ! k) = i"
      "entry_of (pending r ! k) = x" by blast
  then obtain j where j: "find_index (\<lambda>t. live t \<and> tr_id t = i) (pending r) = Some j"
    by (metis (mono_tags, lifting) find_index_None nth_mem option.exhaust)
  then have "j = k" using find_index_hit [OF j] k ids_ok_inj [OF assms] by blast
  then show "book r i = Some x" using j k by (simp add: book_def)
qed

lemma book_at: "ids_ok r \<Longrightarrow> k < length (pending r) \<Longrightarrow> live (pending r ! k) \<Longrightarrow>
    book r (tr_id (pending r ! k)) = Some (entry_of (pending r ! k))"
  by (subst book_Some) auto

lemma entry_of_status [simp]:
  assumes "slot_ok t"
  shows "receiver_name (t\<lparr>tr_status := st\<rparr>) = receiver_name t"
    "sender_name (t\<lparr>tr_status := st\<rparr>) = sender_name t" "file_name (t\<lparr>tr_status := st\<rparr>) = file_name t"
  using assms by (simp_all add: slot_names)

lemma entry_of_new:
  assumes "NUL \<notin> set s" "NUL \<notin> set d" "NUL \<notin> set f" "length f < FILENAME_SIZE"
  shows "entry_of (new_request i s d f t) = \<lparr>t_from = take 19 s, t_to = take 19 d, t_file = f, t_told = False\<rparr>"
  using assms
  by (simp add: entry_of_def sender_name_def receiver_name_def file_name_def new_request_def c_str_snprintf)

section \<open>The operations\<close>

lemma book_check:
  assumes "registry_ok r" "ids_ok r"
  shows "book (snd (check_requests user r)) = book_tell user (book r)"
proof (rule ext, rule option_ext)
  fix i x
  let ?r = "snd (check_requests user r)"
  have ok: "ids_ok ?r"
    using ids_ok_other_step [OF assms(2) registry_step.intros(4)] by blast
  define tell :: "transfer \<Rightarrow> transfer" where "tell y = (if t_to y = user then y\<lparr>t_told := True\<rparr> else y)" for y
  have e: "entry_of (snd (check_slot user (pending r ! k))) = tell (entry_of (pending r ! k))"
    if "k < length (pending r)" "live (pending r ! k)" for k
    using registry_ok_slot [OF assms(1), of k] that assms(1)
    by (auto simp: registry_ok_def check_slot_def entry_of_def live_def tell_def)
  have "book ?r i = Some x \<longleftrightarrow> (\<exists>k<length (pending r). live (pending r ! k) \<and> tr_id (pending r ! k) = i \<and>
      entry_of (snd (check_slot user (pending r ! k))) = x)"
    by (subst book_Some [OF ok]) (auto simp: check_requests_def)
  also have "\<dots> \<longleftrightarrow> (\<exists>y. book r i = Some y \<and> tell y = x)"
    using e by (auto simp: book_Some [OF assms(2)])
  also have "\<dots> \<longleftrightarrow> book_tell user (book r) i = Some x"
    by (auto simp: book_tell_def tell_def)
  finally show "book ?r i = Some x \<longleftrightarrow> book_tell user (book r) i = Some x" .
qed

lemma book_cleanup:
  assumes "registry_ok r" "ids_ok r"
  shows "book (cleanup_user_requests user r) = book_drop_receiver user (book r)"
proof (rule ext, rule option_ext)
  fix i x
  let ?r = "cleanup_user_requests user r"
  have ok: "ids_ok ?r"
    using ids_ok_other_step [OF assms(2) registry_step.intros(3)] by blast
  have "book ?r i = Some x \<longleftrightarrow> (\<exists>k<length (pending r). live (cleanup_slot user (pending r ! k)) \<and>
      tr_id (cleanup_slot user (pending r ! k)) = i \<and> entry_of (cleanup_slot user (pending r ! k)) = x)"
    by (subst book_Some [OF ok]) (auto simp: cleanup_user_requests_def)
  also have "\<dots> \<longleftrightarrow> (\<exists>k<length (pending r). live (pending r ! k) \<and> tr_id (pending r ! k) = i \<and>
      entry_of (pending r ! k) = x \<and> t_to x \<noteq> user)"
    by (auto simp: cleanup_slot_def entry_of_def live_def split: if_splits)
  also have "\<dots> \<longleftrightarrow> (book r i = Some x \<and> t_to x \<noteq> user)"
    by (auto simp: book_Some [OF assms(2)])
  also have "\<dots> \<longleftrightarrow> book_drop_receiver user (book r) i = Some x"
    by (auto simp: book_drop_receiver_def split: option.splits if_splits)
  finally show "book ?r i = Some x \<longleftrightarrow> book_drop_receiver user (book r) i = Some x" .
qed

text \<open>Freeing or rejecting the slot of a live request takes its id out of the book.\<close>

lemma book_remove:
  assumes "ids_ok r" "k < length (pending r)" "live (pending r ! k)" "\<not> live t" "ids_ok r'"
    and "pending r' = (pending r)[k := t]"
  shows "book r' = (book r)(tr_id (pending r ! k) := None)"
proof (rule ext, rule option_ext)
  fix i x
  have "book r' i = Some x \<longleftrightarrow> (\<exists>j<length (pending r). j \<noteq> k \<and> live (pending r ! j) \<and>
      tr_id (pending r ! j) = i \<and> entry_of (pending r ! j) = x)"
    using assms(4) ex_nth_update [of "pending r" "\<lambda>s. live s \<and> tr_id s = i \<and> entry_of s = x" k t]
    by (subst book_Some [OF assms(5)]) (simp add: assms(6))
  also have "\<dots> \<longleftrightarrow> ((book r)(tr_id (pending r ! k) := None)) i = Some x"
    using ids_ok_inj [OF assms(1) _ assms(2) _ assms(3)] by (auto simp: book_Some [OF assms(1)])
  finally show "book r' i = Some x \<longleftrightarrow> ((book r)(tr_id (pending r ! k) := None)) i = Some x" .
qed

lemma book_accept:
  assumes "registry_ok r" "ids_ok r"
  shows "case accept_request user i r of
      (None, r') \<Rightarrow> r' = r \<and> (\<forall>x. book r i = Some x \<longrightarrow> \<not> (t_to x = user \<and> t_told x))
    | (Some t, r') \<Rightarrow> book r i = Some (entry_of t) \<and> receiver_name t = user \<and> tr_status t = NOTIFIED \<and>
        book r' = (book r)(i := None)"
proof (cases "find_index (\<lambda>t. tr_id t = i \<and> tr_status t = NOTIFIED \<and> receiver_name t = user) (pending r)")
  case None
  then have "accept_request user i r = (None, r)" by (simp add: accept_request_def)
  then show ?thesis using None
    by (auto simp: find_index_None book_Some [OF assms(2)] entry_of_def dest: nth_mem)
next
  case (Some k)
  then have k: "k < length (pending r)" "tr_id (pending r ! k) = i" "tr_status (pending r ! k) = NOTIFIED"
      "receiver_name (pending r ! k) = user"
    using find_index_hit [OF Some] by auto
  then have l: "live (pending r ! k)" by (simp add: live_def)
  have ok: "ids_ok (snd (accept_request user i r))"
    using ids_ok_other_step [OF assms(2) registry_step.intros(6)] by blast
  have "book (snd (accept_request user i r)) = (book r)(tr_id (pending r ! k) := None)"
    by (rule book_remove [OF assms(2) k(1) l _ ok, of "(pending r ! k)\<lparr>tr_status := FREE, tr_id := 0\<rparr>"])
      (simp_all add: accept_request_def Some)
  then show ?thesis using book_at [OF assms(2) k(1) l] k Some by (simp add: accept_request_def)
qed

lemma book_reject:
  assumes "registry_ok r" "ids_ok r" "i \<noteq> 0"
  shows "case reject_request user i r of
      ((found, s), r') \<Rightarrow>
        (found = 0 \<and> r' = r \<and> book r i = None) \<or>
        (found = - 1 \<and> r' = r \<and> (\<exists>x. book r i = Some x \<and> t_to x \<noteq> user)) \<or>
        (found = 1 \<and> (\<exists>x. book r i = Some x \<and> t_to x = user \<and> s = take 19 (t_from x)) \<and>
         book r' = (book r)(i := None))"
proof (cases "find_index (\<lambda>t. tr_id t = i \<and> tr_status t \<noteq> FREE) (pending r)")
  case None
  have "book r i = None"
  proof (rule ccontr)
    assume "book r i \<noteq> None"
    then obtain x where "book r i = Some x" by blast
    then show False using None
      by (auto simp: book_Some [OF assms(2)] find_index_None live_def)
  qed
  then show ?thesis using None by (simp add: reject_request_def)
next
  case (Some k)
  then have k: "k < length (pending r)" "tr_id (pending r ! k) = i"
    using find_index_hit [OF Some] by auto
  have l: "live (pending r ! k)" using ids_ok_dead [OF assms(2) k(1)] k(2) assms(3) by blast
  have at: "book r i = Some (entry_of (pending r ! k))" using book_at [OF assms(2) k(1) l] k by simp
  show ?thesis
  proof (cases "receiver_name (pending r ! k) = user")
    case False
    then show ?thesis using at Some by (simp add: reject_request_def entry_of_def)
  next
    case True
    have ok: "ids_ok (snd (reject_request user i r))"
      using ids_ok_other_step [OF assms(2) registry_step.intros(7)] by blast
    have "book (snd (reject_request user i r)) = (book r)(tr_id (pending r ! k) := None)"
      by (rule book_remove [OF assms(2) k(1) l _ ok, of "(pending r ! k)\<lparr>tr_status := REJECTED, tr_id := 0\<rparr>"])
        (simp_all add: reject_request_def Some True)
    then show ?thesis using at k Some True by (simp add: reject_request_def entry_of_def)
  qed
qed

lemma book_create:
  assumes "registry_ok r" "ids_ok r" "sint (global_id_counter r) < 2 ^ 31 - 1"
    and "create_request s d f r = Returned (i, r')" "r' \<noteq> r"
    and "NUL \<notin> set s" "NUL \<notin> set d" "NUL \<notin> set f"
  shows "book r i = None \<and> 0 < i \<and>
    book r' = (book r)(i \<mapsto> \<lparr>t_from = take 19 s, t_to = take 19 d, t_file = f, t_told = False\<rparr>)"
proof -
  obtain k where k: "find_index (\<lambda>t. tr_status t = FREE) (pending r) = Some k"
    using assms(4,5) by (auto simp: create_request_def split: option.splits)
  define c where "c = sint (global_id_counter r)"
  have c: "0 \<le> c" "sint (global_id_counter r + 1) = c + 1"
    using assms(2,3) sint_succ [of "global_id_counter r"] by (simp_all add: ids_ok_def c_def)
  have r': "i = c + 1" "length f < FILENAME_SIZE"
      "pending r' = (pending r)[k := new_request (c + 1) s d f (pending r ! k)]"
    using assms(4) k c by (auto simp: create_request_def Let_def split: if_splits)
  have free: "k < length (pending r)" "\<not> live (pending r ! k)"
    using find_index_hit [OF k] by (auto simp: live_def)
  have ok: "ids_ok r'" using ids_ok_create [OF assms(2,4,3)] by blast
  have above: "tr_id (pending r ! j) \<noteq> c + 1" if "j < length (pending r)" for j
    using assms(2) that c(1) unfolding ids_ok_def c_def by (auto split: if_splits)
  have none: "book r i = None"
  proof (rule ccontr)
    assume "book r i \<noteq> None"
    then obtain x where "book r i = Some x" by blast
    then show False using above r'(1) by (auto simp: book_Some [OF assms(2)])
  qed
  let ?x = "\<lparr>t_from = take 19 s, t_to = take 19 d, t_file = f, t_told = False\<rparr>"
  have "book r' = (book r)(i \<mapsto> ?x)"
  proof (rule ext, rule option_ext)
    fix j x
    have "book r' j = Some x \<longleftrightarrow> (j = i \<and> x = ?x) \<or> (\<exists>m<length (pending r). live (pending r ! m) \<and>
        tr_id (pending r ! m) = j \<and> entry_of (pending r ! m) = x)"
      using free entry_of_new [OF assms(6-8) r'(2)] r'(1)
        ex_nth_update [of "pending r" "\<lambda>s. live s \<and> tr_id s = j \<and> entry_of s = x" k
          "new_request (c + 1) s d f (pending r ! k)"]
      by (subst book_Some [OF ok]) (auto simp: r'(3))
    also have "\<dots> \<longleftrightarrow> ((book r)(i \<mapsto> ?x)) j = Some x"
      using above by (auto simp: r'(1) book_Some [OF assms(2)])
    finally show "book r' j = Some x \<longleftrightarrow> ((book r)(i \<mapsto> ?x)) j = Some x" .
  qed
  then show ?thesis using none c r' by simp
qed

section \<open>Notifications\<close>

lemma check_requests_told:
  "(t, rejection) \<in> set (fst (check_requests user r)) \<longleftrightarrow>
     t \<in> set (pending r) \<and>
     (if rejection then tr_status t = REJECTED \<and> sender_name t = user
      else tr_status t = PENDING \<and> receiver_name t = user)"
proof -
  have "fst (check_slot user x) = Some (t, rejection) \<longleftrightarrow> x = t \<and>
      (if rejection then tr_status t = REJECTED \<and> sender_name t = user
       else tr_status t = PENDING \<and> receiver_name t = user)" for x
    by (auto simp: check_slot_def)
  then show ?thesis by (auto simp: check_requests_def in_map_filter)
qed

lemma check_requests_twice:
  assumes "registry_ok r"
  shows "fst (check_requests user (snd (check_requests user r))) = []"
proof -
  have "fst (check_slot user (snd (check_slot user t))) = None" for t
    by (simp add: check_slot_def)
  then show ?thesis
    by (auto simp: check_requests_def List.map_filter_def filter_empty_conv)
qed

end
