(* ===== verification/Registry_Properties.thy ===== *)
theory Registry_Properties
  imports Transfer_Book
begin

text \<open>
  The properties of the registry: what holds in every interleaving of the handlers'
  critical sections, that the table of requests implements the abstract book, and
  the way of a request from its creation to its acceptance.
\<close>

section \<open>The simulation\<close>

text \<open>What an event does to the book.\<close>

definition book_step :: "registry_event \<Rightarrow> book \<Rightarrow> book" where
  "book_step e b = (case e of
       Login name pid \<Rightarrow> b
     | Logout pid \<Rightarrow> b
     | Cleanup user \<Rightarrow> book_drop_receiver user b
     | Check user \<Rightarrow> book_tell user b
     | Request s d f i \<Rightarrow>
         if i = - 1 then b else b(i \<mapsto> \<lparr>t_from = take 19 s, t_to = take 19 d, t_file = f, t_told = False\<rparr>)
     | Accept_ev user i \<Rightarrow>
         (case b i of Some x \<Rightarrow> if t_to x = user \<and> t_told x then b(i := None) else b | None \<Rightarrow> b)
     | Reject_ev user i \<Rightarrow>
         (case b i of Some x \<Rightarrow> if t_to x = user then b(i := None) else b | None \<Rightarrow> b))"

text \<open>The names of an event are C strings.\<close>

definition event_strings :: "registry_event \<Rightarrow> bool" where
  "event_strings e \<longleftrightarrow> (case e of Request s d f i \<Rightarrow> NUL \<notin> set s \<and> NUL \<notin> set d \<and> NUL \<notin> set f | _ \<Rightarrow> True)"

lemma book_pending: "pending r' = pending r \<Longrightarrow> book r' = book r"
  by (simp add: book_def fun_eq_iff)

lemma book_no_zero: "ids_ok r \<Longrightarrow> book r 0 = None"
proof (rule ccontr)
  assume "ids_ok r" "book r 0 \<noteq> None"
  then obtain k where "k < length (pending r)" "live (pending r ! k)" "tr_id (pending r ! k) = 0"
    by (auto simp: book_Some)
  then show False using \<open>ids_ok r\<close> unfolding ids_ok_def by (metis less_irrefl)
qed

lemma book_reject_zero:
  assumes "ids_ok r"
  shows "book (snd (reject_request user 0 r)) = book r"
proof (cases "find_index (\<lambda>t. tr_id t = 0 \<and> tr_status t \<noteq> FREE) (pending r)")
  case None
  then show ?thesis by (simp add: reject_request_def)
next
  case (Some k)
  then have k: "k < length (pending r)" "\<not> live (pending r ! k)"
    using find_index_hit [OF Some] assms by (auto simp: ids_ok_def)
  have ok: "ids_ok (snd (reject_request user 0 r))"
    using ids_ok_other_step [OF assms registry_step.intros(7)] by blast
  show ?thesis
  proof (rule ext, rule option_ext)
    fix i x
    show "book (snd (reject_request user 0 r)) i = Some x \<longleftrightarrow> book r i = Some x"
      using k ex_nth_update [of "pending r" "\<lambda>s. live s \<and> tr_id s = i \<and> entry_of s = x" k
          "(pending r ! k)\<lparr>tr_status := REJECTED, tr_id := 0\<rparr>"]
      unfolding book_Some [OF ok] book_Some [OF assms] by (auto simp: reject_request_def Some)
  qed
qed

lemma create_full_iff:
  assumes "0 \<le> sint (global_id_counter r)" "sint (global_id_counter r) < 2 ^ 31 - 1"
    and "create_request s d f r = Returned (i, r')"
  shows "i = - 1 \<longleftrightarrow> r' = r"
proof (cases "find_index (\<lambda>t. tr_status t = FREE) (pending r)")
  case None
  then show ?thesis using assms(3) by (simp add: create_request_def)
next
  case (Some k)
  have "sint (global_id_counter r + 1) = sint (global_id_counter r) + 1"
    by (rule sint_succ [OF assms(1,2)])
  moreover have "i = sint (global_id_counter r + 1)" "global_id_counter r' = global_id_counter r + 1"
    using Some assms(3) by (auto simp: create_request_def Let_def split: if_splits)
  ultimately show ?thesis using assms(1) by auto
qed

lemma book_refines:
  assumes "registry_step r e r'" "registry_ok r" "ids_ok r"
    and "sint (global_id_counter r) < 2 ^ 31 - 1" "event_strings e"
  shows "book r' = book_step e (book r)"
  using assms(1)
proof (cases rule: registry_step.cases)
  case (1 name pid)
  then show ?thesis by (auto simp: book_step_def register_user_def intro!: book_pending split: option.split)
next
  case (2 pid)
  then show ?thesis by (auto simp: book_step_def unregister_user_def intro!: book_pending split: option.split)
next
  case (3 user)
  then show ?thesis using book_cleanup [OF assms(2,3)] by (simp add: book_step_def)
next
  case (4 user)
  then show ?thesis using book_check [OF assms(2,3)] by (simp add: book_step_def)
next
  case (5 s d f i)
  have "i = - 1 \<longleftrightarrow> r' = r" using create_full_iff [OF _ assms(4) 5(2)] assms(3) by (simp add: ids_ok_def)
  then show ?thesis using 5 assms(5) book_create [OF assms(2-4) 5(2)]
    by (auto simp: book_step_def event_strings_def)
next
  case (6 user i)
  then show ?thesis using book_accept [OF assms(2,3), where user = user and i = i]
    by (auto simp: book_step_def entry_of_def split: prod.splits option.splits)
next
  case (7 user i)
  show ?thesis
  proof (cases "i = 0")
    case True
    then show ?thesis using 7 book_reject_zero [OF assms(3)] book_no_zero [OF assms(3)]
      by (simp add: book_step_def)
  next
    case False
    then show ?thesis using 7 book_reject [OF assms(2,3) False, where user = user]
      by (auto simp: book_step_def split: prod.splits option.splits)
  qed
qed

section \<open>In every run\<close>

lemma runs_one: "step s e t \<Longrightarrow> runs step s [e] t"
  using runs_snoc [OF runs_nil, of step s e t] by simp

text \<open>C28. The tables keep their shape in every interleaving of the handlers' critical
  sections: twenty entries each, arrays of their declared sizes, every name in the table of
  requests terminated inside its array.\<close>

theorem registry_shape_invariant:
  assumes "runs registry_step (init_registry c) es r"
  shows "registry_ok r"
  using shape.runs_inv [OF assms] by blast

theorem registry_shape_invariant_witness:
  "registry_ok (cleanup_user_requests ''bob'' (init_registry 7))"
  using registry_shape_invariant [OF runs_one [where step = registry_step, OF registry_step.intros(3)]] .

text \<open>C29. As long as fewer than 2^31 requests have been created, the open requests carry distinct
  positive ids, none above the counter, and every free or rejected slot has id 0, whatever the
  interleaving.\<close>

theorem request_ids_invariant:
  assumes "runs registry_step (init_registry 0) es r" "requests_in es < 2 ^ 31"
  shows "ids_ok r"
  using ids.runs_inv [OF assms(1)] assms(2) by blast

theorem request_ids_invariant_witness:
  "ids_ok (snd (reject_request ''bob'' 3 (init_registry 0)))"
  by (rule request_ids_invariant [OF runs_one [where step = registry_step, OF registry_step.intros(7)]]) (simp add: requests_in_def)

text \<open>C30. The life of a slot: it only goes from free to pending (a request), from pending to
  notified (the receiver is told), from notified to free (the receiver accepts under the request's
  id), from pending or notified to rejected (the receiver rejects), from rejected to free (the
  sender is told), or back to free when the receiver leaves; nobody else's event moves it.\<close>

theorem request_life_cycle:
  assumes "registry_step r e r'" "i < length (pending r)"
  shows "slot_move e (pending r ! i) (pending r' ! i)"
  by (rule slot_step [OF assms])

theorem request_life_cycle_witness:
  "slot_move (Check ''bob'') (pending (init_registry 0) ! 4)
     (pending (snd (check_requests ''bob'' (init_registry 0))) ! 4)"
  by (rule request_life_cycle [OF registry_step.intros(4)]) (simp add: init_registry_def)

text \<open>C4. The table of requests implements a book keyed by id: each critical section does to the
  open requests exactly what the abstract operation does to the book (new entry under a fresh id,
  mark as told, take out on accept or reject by the receiver, drop what was addressed to a user
  who leaves).\<close>

theorem registry_refines_book:
  assumes "registry_step r e r'" "registry_ok r" "ids_ok r"
    and "sint (global_id_counter r) < 2 ^ 31 - 1" "event_strings e"
  shows "book r' = book_step e (book r)"
  by (rule book_refines [OF assms])

lemma ids_ok_init: "ids_ok (init_registry 0)"
  by (auto simp: init_registry_def ids_ok_def)

theorem registry_refines_book_witness:
  "book (snd (check_requests ''bob'' (init_registry 0)))
     = book_step (Check ''bob'') (book (init_registry 0))"
  by (rule registry_refines_book [OF registry_step.intros(4) registry_ok_init ids_ok_init])
    (simp_all add: init_registry_def event_strings_def)

section \<open>A request from end to end\<close>

lemma create_new_slot:
  assumes "create_request s d f r = Returned (i, r')" "r' \<noteq> r"
  obtains k where "k < length (pending r)" "pending r' ! k = new_request i s d f (pending r ! k)"
    "length (pending r') = length (pending r)" "length f < FILENAME_SIZE"
proof -
  obtain k where k: "find_index (\<lambda>t. tr_status t = FREE) (pending r) = Some k"
    using assms by (auto simp: create_request_def split: option.splits)
  show thesis
    by (rule that [of k]) (use assms(1) k find_index_less [OF k] in \<open>auto simp: create_request_def Let_def split: if_splits\<close>)
qed

lemma accept_after_request:
  assumes "registry_ok r" "ids_ok r" "sint (global_id_counter r) < 2 ^ 31 - 1"
    and "create_request s d f r = Returned (i, r1)" "i \<noteq> - 1"
    and "NUL \<notin> set s" "NUL \<notin> set d" "NUL \<notin> set f" "length s \<le> 19" "length d \<le> 19"
    and "check_requests d r1 = (ns, r2)" "accept_request d i r2 = (found, r3)"
  obtains t where "found = Some t" "sender_name t = s" "file_name t = f" "receiver_name t = d" "book r3 i = None"
    "length f < FILENAME_SIZE" "- (2 ^ 31) \<le> i" "i < 2 ^ 31"
proof -
  let ?x = "\<lparr>t_from = s, t_to = d, t_file = f, t_told = False\<rparr>"
  have pos: "0 \<le> sint (global_id_counter r)" using assms(2) by (simp add: ids_ok_def)
  then have ne: "r1 \<noteq> r" using create_full_iff [OF _ assms(3,4)] assms(5) by blast
  have b1: "book r1 i = Some ?x"
    using book_create [OF assms(1-4) ne assms(6-8)] assms(9,10) by simp
  have step1: "registry_step r (Request s d f i) r1" by (rule registry_step.intros(5) [OF assms(4)])
  have ok1: "registry_ok r1" "ids_ok r1"
    using registry_ok_step [OF step1 assms(1)] ids_ok_create [OF assms(2,4,3)] by auto
  have step2: "registry_step r1 (Check d) r2" using registry_step.intros(4) [of r1 d] assms(11) by simp
  have ok2: "registry_ok r2" "ids_ok r2"
    using registry_ok_step [OF step2 ok1(1)] ids_ok_other_step [OF ok1(2) step2] by auto
  have b2: "book r2 i = Some (?x\<lparr>t_told := True\<rparr>)"
    using book_check [OF ok1, of d] assms(11) b1 by (simp add: book_tell_def)
  obtain t where acc: "found = Some t" "entry_of t = ?x\<lparr>t_told := True\<rparr>" "book r3 i = None"
    using book_accept [OF ok2, where user = d and i = i] assms(12) b2 by (cases found) auto
  obtain k where k: "length f < FILENAME_SIZE"
    by (rule create_new_slot [OF assms(4) ne])
  have "i = sint (global_id_counter r + 1)"
    using assms(4) ne by (auto simp: create_request_def Let_def split: option.splits if_splits)
  then have "- (2 ^ 31) \<le> i" "i < 2 ^ 31"
    using sint_greater_eq [of "global_id_counter r + 1"] sint_less [of "global_id_counter r + 1"] by simp_all
  then show thesis using acc k by (intro that [of t]) (auto simp: entry_of_def)
qed

lemma request_is_told:
  assumes "registry_ok r" "ids_ok r" "sint (global_id_counter r) < 2 ^ 31 - 1"
    and "create_request s d f r = Returned (i, r1)" "i \<noteq> - 1"
    and "NUL \<notin> set s" "NUL \<notin> set d" "NUL \<notin> set f" "length s \<le> 19" "length d \<le> 19"
    and "check_requests d r1 = (ns, r2)"
  obtains t where "(t, False) \<in> set ns" "tr_id t = i" "sender_name t = s" "file_name t = f"
proof -
  let ?x = "\<lparr>t_from = s, t_to = d, t_file = f, t_told = False\<rparr>"
  have "0 \<le> sint (global_id_counter r)" using assms(2) by (simp add: ids_ok_def)
  then have ne: "r1 \<noteq> r" using create_full_iff [OF _ assms(3,4)] assms(5) by blast
  obtain k where k: "k < length (pending r)" "pending r1 ! k = new_request i s d f (pending r ! k)"
    "length (pending r1) = length (pending r)" "length f < FILENAME_SIZE"
    by (rule create_new_slot [OF assms(4) ne])
  have n: "entry_of (pending r1 ! k) = ?x"
    using entry_of_new [OF assms(6-8) k(4)] assms(9,10) k(2) by simp
  have "(pending r1 ! k, False) \<in> set ns"
    using check_requests_told [of "pending r1 ! k" False d r1] assms(11) k n nth_mem [of k "pending r1"]
    by (simp add: entry_of_def)
  moreover have "tr_id (pending r1 ! k) = i" using k(2) by simp
  ultimately show thesis using n by (intro that [of "pending r1 ! k"]) (auto simp: entry_of_def)
qed

text \<open>C24. A request reaches its receiver: after a request has been given a slot, the receiver's next
  check for notifications reports sender, file and id of it and lets the receiver accept it under
  that id, which yields the sender's name and the file name the request was made with.\<close>

theorem request_reaches_receiver:
  assumes "registry_ok r" "ids_ok r" "sint (global_id_counter r) < 2 ^ 31 - 1"
    and "create_request s d f r = Returned (i, r1)" "i \<noteq> - 1"
    and "NUL \<notin> set s" "NUL \<notin> set d" "NUL \<notin> set f" "length s \<le> 19" "length d \<le> 19"
    and "check_requests d r1 = (ns, r2)" "accept_request d i r2 = (found, r3)"
  shows "(\<exists>t. (t, False) \<in> set ns \<and> tr_id t = i \<and> sender_name t = s \<and> file_name t = f) \<and>
    (\<exists>t. found = Some t \<and> sender_name t = s \<and> file_name t = f \<and> receiver_name t = d) \<and>
    book r3 i = None"
proof -
  obtain t where "(t, False) \<in> set ns" "tr_id t = i" "sender_name t = s" "file_name t = f"
    by (rule request_is_told [OF assms(1-11)])
  moreover obtain t' where "found = Some t'" "sender_name t' = s" "file_name t' = f" "receiver_name t' = d" "book r3 i = None"
    by (rule accept_after_request [OF assms])
  ultimately show ?thesis by blast
qed

text \<open>A concrete run of the three critical sections.\<close>

definition demo_run :: "(TransferRequest \<times> bool) list \<times> TransferRequest option \<times> SharedRegistry" where
  "demo_run = (case create_request ''alice'' ''bob'' ''a.txt'' (init_registry 0) of
       Returned (i, r1) \<Rightarrow> (case check_requests ''bob'' r1 of (ns, r2) \<Rightarrow>
         (case accept_request ''bob'' i r2 of (t, r3) \<Rightarrow> (ns, t, r3)))
     | _ \<Rightarrow> ([], None, init_registry 0))"

lemma demo_create:
  "\<exists>r1. create_request ''alice'' ''bob'' ''a.txt'' (init_registry 0) = Returned (1, r1)"
  by (simp add: create_request_def init_registry_def free_request_def numeral_eq_Suc)

theorem request_reaches_receiver_witness:
  "\<exists>t. fst (snd demo_run) = Some t \<and> sender_name t = ''alice'' \<and> file_name t = ''a.txt''"
proof -
  obtain r1 where 1: "create_request ''alice'' ''bob'' ''a.txt'' (init_registry 0) = Returned (1, r1)"
    using demo_create by blast
  obtain ns r2 where 2: "check_requests ''bob'' r1 = (ns, r2)" by fastforce
  obtain t r3 where 3: "accept_request ''bob'' 1 r2 = (t, r3)" by fastforce
  show ?thesis
    using request_reaches_receiver [OF registry_ok_init ids_ok_init _ 1 _ _ _ _ _ _ 2 3] 1 2 3
    by (auto simp: demo_run_def init_registry_def)
qed

text \<open>C31. Notifications are delivered to the right user and exactly once: a check reports precisely
  the pending requests addressed to the user and the rejections of requests the user sent, and a
  second check right after it reports nothing.\<close>

theorem notifications_exactly_once:
  "((t, rejection) \<in> set (fst (check_requests user r)) \<longleftrightarrow>
     t \<in> set (pending r) \<and>
     (if rejection then tr_status t = REJECTED \<and> sender_name t = user
      else tr_status t = PENDING \<and> receiver_name t = user)) \<and>
   (registry_ok r \<longrightarrow> fst (check_requests user (snd (check_requests user r))) = [])"
  using check_requests_told check_requests_twice by blast

theorem notifications_exactly_once_witness:
  "fst (check_requests ''bob'' (snd (check_requests ''bob'' (init_registry 0)))) = []"
  using notifications_exactly_once [of free_request True "''bob''" "init_registry 0"] registry_ok_init
  by blast

text \<open>C25. Only the addressed receiver can take a request: accepting or rejecting under an id that
  belongs to someone else changes nothing and says so, for every registry with valid ids.\<close>

theorem only_receiver_decides:
  assumes "registry_ok r" "ids_ok r" "book r i = Some x" "t_to x \<noteq> user"
  shows "accept_request user i r = (None, r) \<and> reject_request user i r = ((- 1, []), r)"
proof -
  have "i \<noteq> 0" using book_no_zero [OF assms(2)] assms(3) by auto
  obtain k where k: "find_index (\<lambda>t. tr_id t = i \<and> tr_status t \<noteq> FREE) (pending r) = Some k"
    using book_reject [OF assms(1,2) \<open>i \<noteq> 0\<close>, where user = user] assms(3,4)
    by (cases "find_index (\<lambda>t. tr_id t = i \<and> tr_status t \<noteq> FREE) (pending r)") (auto simp: reject_request_def)
  then show ?thesis
    using book_reject [OF assms(1,2) \<open>i \<noteq> 0\<close>, where user = user]
      book_accept [OF assms(1,2), where user = user and i = i] assms(3,4)
    by (cases "accept_request user i r"; cases "fst (accept_request user i r)")
      (auto simp: reject_request_def entry_of_def split: if_splits)
qed

theorem only_receiver_decides_witness:
  "\<exists>r. book r 1 \<noteq> None \<and> accept_request ''eve'' 1 r = (None, r)"
proof -
  obtain r1 where 1: "create_request ''alice'' ''bob'' ''a.txt'' (init_registry 0) = Returned (1, r1)"
    using demo_create by blast
  have ne: "r1 \<noteq> init_registry 0"
    using create_full_iff [of "init_registry 0" _ _ _ 1 r1] 1 by (auto simp: init_registry_def)
  have c: "sint (global_id_counter (init_registry 0)) < 2 ^ 31 - 1" by (simp add: init_registry_def)
  have "book r1 1 = Some \<lparr>t_from = ''alice'', t_to = ''bob'', t_file = ''a.txt'', t_told = False\<rparr>"
    using book_create [OF registry_ok_init ids_ok_init c 1 ne] by simp
  moreover have "registry_ok r1" "ids_ok r1"
    using registry_ok_step [OF registry_step.intros(5) [OF 1] registry_ok_init]
      ids_ok_create [OF ids_ok_init 1 c] by auto
  ultimately have "accept_request ''eve'' 1 r1 = (None, r1)"
    using only_receiver_decides [of r1 1 _ "''eve''"] by simp
  then show ?thesis using \<open>book r1 1 = _\<close> by auto
qed

section \<open>Online users\<close>

lemma register_new_entry:
  assumes "find_index (\<lambda>e. is_active e = 0) (online_users r) = Some i"
  shows "online_users (register_user name pid r) = (online_users r)[i :=
    \<lparr>ue_username = strncpy MAX_USERNAME_LEN name (ue_username (online_users r ! i)),
     handler_pid = pid, is_active = 1\<rparr>]"
  using assms by (simp add: register_user_def)

text \<open>A user who logs in can be found: when a slot is free and nobody of that name is online,
  looking a name of at most 19 characters up after the login yields the process that handles it.\<close>

theorem login_is_found:
  assumes "find_index (\<lambda>e. is_active e = 0) (online_users r) = Some i"
    and "\<forall>e\<in>set (online_users r). is_active e \<noteq> 0 \<longrightarrow> entry_name e \<noteq> name"
    and "NUL \<notin> set name" "length name < MAX_USERNAME_LEN"
  shows "find_handler name (register_user name pid r) = Some pid"
proof -
  let ?e = "\<lparr>ue_username = strncpy MAX_USERNAME_LEN name (ue_username (online_users r ! i)),
      handler_pid = pid, is_active = 1\<rparr>"
  have i: "i < length (online_users r)" using find_index_less [OF assms(1)] .
  have n: "entry_name ?e = name" using assms(3,4) by (simp add: entry_name_def c_str_strncpy)
  have "find_index (\<lambda>e. is_active e \<noteq> 0 \<and> entry_name e = name) ((online_users r)[i := ?e]) = Some i"
    unfolding find_index_Some using i n assms(2) by (auto simp: nth_list_update)
  then show ?thesis using i by (simp add: find_handler_def register_new_entry [OF assms(1)])
qed

theorem login_is_found_witness:
  "find_handler ''alice'' (register_user ''alice'' 4711 (init_registry 0)) = Some 4711"
  by (rule login_is_found [of _ 0]) (simp_all add: init_registry_def free_entry_def numeral_eq_Suc)

text \<open>C39. A user name of the maximal length that \<open>isUsernameValid\<close> admits is lost in the registry:
  the copy of its 20 characters has no terminator, so the name read back runs into the process id
  and the user cannot be found (here for a process id whose low byte is not zero).\<close>

theorem longest_name_is_lost:
  assumes "isUsernameValid name" "length name = MAX_USERNAME_LEN" "0 < pid" "pid < 2 ^ 31" "pid mod 256 \<noteq> 0"
  shows "find_handler name (register_user name pid (init_registry c)) = None"
proof -
  have free: "find_index (\<lambda>e. is_active e = 0) (online_users (init_registry c)) = Some 0"
    by (simp add: init_registry_def free_entry_def numeral_eq_Suc)
  have w: "unat (word_of_int pid :: u32) = nat pid"
    using assms(3,4) by (simp add: unat_eq_nat_uint uint_word_of_int_eq take_bit_int_eq_self)
  have "nat pid mod 256 \<noteq> 0" using assms(3,5) by (simp add: nat_mod_as_int)
  moreover have "(of_char (char_of (nat pid) :: char) :: nat) = nat pid mod 256" by simp
  ultimately have "(char_of (nat pid) :: char) \<noteq> NUL" by fastforce
  then have ne: "c_str (le32 (word_of_int pid) @ x) \<noteq> []" for x
    by (simp add: le32_def w)
  let ?e = "\<lparr>ue_username = strncpy MAX_USERNAME_LEN name (ue_username (online_users (init_registry c) ! 0)),
      handler_pid = pid, is_active = 1\<rparr>"
  have "entry_name ?e = name @ c_str (le32 (word_of_int pid) @ le32 1)"
    using valid_user_no_nul [OF assms(1)] assms(2)
    by (simp add: entry_name_def c_str_strncpy_full init_registry_def free_entry_def)
  then have "entry_name ?e \<noteq> name" using ne by simp
  then show ?thesis
    unfolding find_handler_def register_new_entry [OF free]
    by (auto simp: find_index_None init_registry_def free_entry_def dest!: subsetD [OF set_update_subset_insert])
qed

theorem longest_name_is_lost_witness:
  "find_handler ''abcdefghijklmnopqrst'' (register_user ''abcdefghijklmnopqrst'' 4711 (init_registry 0)) = None"
  by (rule longest_name_is_lost) (simp_all add: isUsernameValid_def isalpha_def Let_def)

text \<open>When a user leaves, no open request addressed to him is left, and every request to someone
  else is untouched.\<close>

lemma cleanup_drops_requests:
  assumes "registry_ok r" "ids_ok r"
  shows "(\<forall>i x. book (cleanup_user_requests user r) i = Some x \<longrightarrow> t_to x \<noteq> user) \<and>
    (\<forall>i<length (pending r). receiver_name (pending r ! i) \<noteq> user \<longrightarrow>
       pending (cleanup_user_requests user r) ! i = pending r ! i)"
  unfolding book_cleanup [OF assms]
  by (auto simp: book_drop_receiver_def cleanup_user_requests_def cleanup_slot_def
      split: option.splits if_splits)

section \<open>The text of a notification\<close>

lemma length_show_nat: "n < 10 ^ Suc k \<Longrightarrow> length (show_nat n) \<le> Suc k"
proof (induction k arbitrary: n)
  case 0
  then show ?case by (subst show_nat.simps) simp
next
  case (Suc k)
  then show ?case by (subst show_nat.simps) (simp add: less_mult_imp_div_less)
qed

lemma length_c_str: "length (c_str m) \<le> length m"
  by (simp add: c_str_def length_takeWhile_le)

lemma length_c_str_nul: "NUL \<in> set m \<Longrightarrow> length (c_str m) < length m"
  by (induction m) auto

text \<open>The id a notification tells the user to type is the id of the request: the message is
  never cut off before it, and \<open>atoi\<close>, which reads the argument of \<open>accept\<close> and \<open>reject\<close>, gives
  it back.\<close>

theorem notification_id_roundtrip:
  assumes "slot_ok t" "0 < tr_id t" "tr_id t < 2 ^ 31"
  shows "\<exists>u w. notification_text (t, False) =
      u @ ''   > Accept: accept <dir> '' @ w @ CHR 0x0A # ''   > Reject: reject '' @ w \<and>
      atoi w = tr_id t"
proof -
  let ?w = "show_int (tr_id t)"
  let ?u = "''[NOTIFICATION] User '' @ sender_name t @ '' sent a file: '' @ file_name t
     @ '' (ID: '' @ ?w @ '')'' @ [CHR 0x0A]"
  have "nat (tr_id t) < 10 ^ Suc 9" using assms(3) by simp
  from length_show_nat [OF this] have w: "length ?w \<le> 10" using assms(2) by (simp add: show_int_def)
  have n: "length (sender_name t) < 20" "length (file_name t) < 256"
    using assms(1) length_c_str_nul [of "tr_sender t"] length_c_str_nul [of "tr_filename t"]
    by (auto simp: slot_names [OF assms(1)] slot_ok_def)
  let ?m = "?u @ ''   > Accept: accept <dir> '' @ ?w @ CHR 0x0A # ''   > Reject: reject '' @ ?w"
  have "length ?m \<le> 511" using w n by simp
  then have "take 511 ?m = ?m" by (rule take_all)
  then have "notification_text (t, False) = ?m"
    unfolding notification_text_def prod.case by (simp only: if_False append.assoc append_Cons append_Nil)
  moreover have "atoi ?w = tr_id t" using assms(2,3) by (intro atoi_show_int) auto
  ultimately show ?thesis by blast
qed

theorem notification_id_roundtrip_witness:
  "\<exists>u w. notification_text (new_request 7 ''alice'' ''bob'' ''a.txt'' free_request, False) =
      u @ ''   > Accept: accept <dir> '' @ w @ CHR 0x0A # ''   > Reject: reject '' @ w \<and> atoi w = 7"
  using notification_id_roundtrip [OF slot_ok_new [OF slot_ok_free], of 7 "''alice''" "''bob''" "''a.txt''"]
  by simp

end
