(* ===== verification/Server_Rendezvous.thy ===== *)
theory Server_Rendezvous
  imports Server_Confinement Registry_Properties
begin

text \<open>
  How the handlers of two clients meet: the table of online users from login to
  logout, the signal a transfer request sends, and the notifications it leads to.
\<close>

section \<open>Processes in the table of online users\<close>

text \<open>An active entry is the first of its process, and the only active one.\<close>

definition pids_list :: "UserEntry list \<Rightarrow> bool" where
  "pids_list us \<longleftrightarrow> (\<forall>i<length us. \<forall>j<length us.
     i \<noteq> j \<longrightarrow> is_active (us ! i) \<noteq> 0 \<longrightarrow> handler_pid (us ! j) = handler_pid (us ! i) \<longrightarrow>
     is_active (us ! j) = 0 \<and> i < j)"

definition pids_ok :: "SharedRegistry \<Rightarrow> bool" where
  "pids_ok r \<longleftrightarrow> pids_list (online_users r)"

text \<open>The steps of the registry in which a process logs in at most once while it is active.\<close>

inductive session_step :: "SharedRegistry \<Rightarrow> registry_event \<Rightarrow> SharedRegistry \<Rightarrow> bool" where
  "registry_step r e r' \<Longrightarrow>
   (\<And>name pid. e = Login name pid \<Longrightarrow> \<forall>u\<in>set (online_users r). is_active u \<noteq> 0 \<longrightarrow> handler_pid u \<noteq> pid) \<Longrightarrow>
   session_step r e r'"

lemma pids_ok_users: "online_users r' = online_users r \<Longrightarrow> pids_ok r' = pids_ok r"
  by (simp add: pids_ok_def)

lemma pids_list_login:
  assumes "pids_list us" "k < length us" "\<forall>j<k. is_active (us ! j) \<noteq> 0"
    and "\<forall>v\<in>set us. is_active v \<noteq> 0 \<longrightarrow> handler_pid v \<noteq> handler_pid u"
  shows "pids_list (us[k := u])"
  unfolding pids_list_def
proof (intro allI impI)
  fix i j
  assume "i < length (us[k := u])" "j < length (us[k := u])" "i \<noteq> j"
    and act: "is_active (us[k := u] ! i) \<noteq> 0" and same: "handler_pid (us[k := u] ! j) = handler_pid (us[k := u] ! i)"
  then have ij: "i < length us" "j < length us" "i \<noteq> j" by simp_all
  have fresh: "is_active (us ! m) = 0" if "m < length us" "handler_pid (us ! m) = handler_pid u" for m
    using assms(4) that nth_mem by blast
  show "is_active (us[k := u] ! j) = 0 \<and> i < j"
  proof (cases "i = k")
    case True
    then have "handler_pid (us ! j) = handler_pid u" using same ij by simp
    then have "is_active (us ! j) = 0" by (rule fresh [OF ij(2)])
    moreover from this have "\<not> j < k" using assms(3) by blast
    ultimately show ?thesis using True ij by simp
  next
    case i: False
    show ?thesis
    proof (cases "j = k")
      case True
      then have "handler_pid (us ! i) = handler_pid u" using same i ij by simp
      then show ?thesis using fresh [OF ij(1)] act i by simp
    next
      case False
      then show ?thesis using assms(1) ij i act same unfolding pids_list_def by simp
    qed
  qed
qed

lemma pids_ok_login:
  assumes "pids_ok r" "\<forall>u\<in>set (online_users r). is_active u \<noteq> 0 \<longrightarrow> handler_pid u \<noteq> pid"
  shows "pids_ok (register_user name pid r)"
proof (cases "find_index (\<lambda>e. is_active e = 0) (online_users r)")
  case None
  then show ?thesis using assms(1) by (simp add: register_user_def)
next
  case (Some k)
  then have "k < length (online_users r)" "\<forall>j<k. is_active (online_users r ! j) \<noteq> 0"
    by (simp_all add: find_index_Some)
  then show ?thesis
    using assms unfolding pids_ok_def register_new_entry [OF Some] by (intro pids_list_login) simp_all
qed

lemma pids_list_inactive:
  assumes "pids_list us"
  shows "pids_list (us[k := (us ! k)\<lparr>is_active := 0\<rparr>])"
  unfolding pids_list_def
proof (intro allI impI)
  fix i j
  let ?us = "us[k := (us ! k)\<lparr>is_active := 0\<rparr>]"
  assume a: "i < length ?us" "j < length ?us" "i \<noteq> j" "is_active (?us ! i) \<noteq> 0"
    "handler_pid (?us ! j) = handler_pid (?us ! i)"
  then have "i \<noteq> k" by auto
  moreover have "handler_pid (?us ! m) = handler_pid (us ! m)" if "m < length us" for m
    using that by (cases "m = k") auto
  ultimately have "is_active (us ! j) = 0 \<and> i < j" using a assms unfolding pids_list_def by simp
  then show "is_active (?us ! j) = 0 \<and> i < j" using a(2) by (cases "j = k") auto
qed

lemma pids_ok_logout: "pids_ok r \<Longrightarrow> pids_ok (unregister_user pid r)"
  by (simp add: pids_ok_def unregister_user_def pids_list_inactive split: option.split)

lemma users_step: "registry_step r e r' \<Longrightarrow> online_users r' = (case e of
    Login name pid \<Rightarrow> online_users (register_user name pid r)
  | Logout pid \<Rightarrow> online_users (unregister_user pid r) | _ \<Rightarrow> online_users r)"
  by (erule registry_stepE)
    (auto simp: cleanup_user_requests_def check_requests_def create_request_def accept_request_def
      reject_request_def Let_def split: option.splits if_splits)

lemma pids_ok_step:
  assumes "session_step r e r'" "pids_ok r"
  shows "pids_ok r'"
  using assms(1)
proof cases
  case 1
  show ?thesis
    using pids_ok_login [OF assms(2)] pids_ok_logout [OF assms(2)] assms(2) 1(2) users_step [OF 1(1)]
    unfolding pids_ok_def by (cases e) auto
qed

lemma pids_ok_init: "pids_ok (init_registry c)"
  by (simp add: pids_ok_def pids_list_def init_registry_def free_entry_def)

interpretation pids: traced_invariant session_step "\<lambda>r. \<exists>c. r = init_registry c" "\<lambda>es r. pids_ok r"
  by unfold_locales (auto simp: pids_ok_init dest: pids_ok_step)

lemma logout_clears:
  assumes "pids_ok r"
  shows "\<forall>e\<in>set (online_users (unregister_user pid r)). is_active e \<noteq> 0 \<longrightarrow> handler_pid e \<noteq> pid"
proof (cases "find_index (\<lambda>e. handler_pid e = pid) (online_users r)")
  case None
  then have "unregister_user pid r = r" by (simp add: unregister_user_def)
  moreover have "\<forall>e\<in>set (online_users r). handler_pid e \<noteq> pid" using None by (simp add: find_index_None)
  ultimately show ?thesis by simp
next
  case (Some k)
  then have k: "k < length (online_users r)" "handler_pid (online_users r ! k) = pid"
      "\<forall>j<k. handler_pid (online_users r ! j) \<noteq> pid"
    by (simp_all add: find_index_Some)
  have others: "is_active (online_users r ! i) = 0"
    if "i < length (online_users r)" "i \<noteq> k" "handler_pid (online_users r ! i) = pid" for i
  proof (rule ccontr)
    assume "is_active (online_users r ! i) \<noteq> 0"
    then have "i < k" using assms k that unfolding pids_ok_def pids_list_def by metis
    then show False using k(3) that(3) by simp
  qed
  let ?us = "(online_users r)[k := (online_users r ! k)\<lparr>is_active := 0\<rparr>]"
  have "is_active (?us ! i) = 0" if "i < length ?us" "handler_pid (?us ! i) = pid" for i
    using that others by (cases "i = k") auto
  moreover have "online_users (unregister_user pid r) = ?us" by (simp add: unregister_user_def Some)
  ultimately show ?thesis by (metis in_set_conv_nth)
qed

text \<open>C32. A logout takes the user out of the table of online users, whatever the other handlers did in
  between and whatever process ids earlier sessions left in the table: in every run in which a
  process logs in only while it has no active entry, the search for the process id finds the active
  entry and not a stale one, so that afterwards no active entry of the process is left; the entries
  of other processes are untouched.\<close>

theorem logout_clears_entry:
  assumes "runs session_step (init_registry c) es r"
  shows "(\<forall>e\<in>set (online_users (unregister_user pid r)). is_active e \<noteq> 0 \<longrightarrow> handler_pid e \<noteq> pid) \<and>
    (\<forall>i<length (online_users r). handler_pid (online_users r ! i) \<noteq> pid \<longrightarrow>
       online_users (unregister_user pid r) ! i = online_users r ! i)"
proof -
  have "pids_ok r" using pids.runs_inv [OF assms] by blast
  moreover have "online_users (unregister_user pid r) ! i = online_users r ! i"
    if "handler_pid (online_users r ! i) \<noteq> pid" for i
  proof (cases "find_index (\<lambda>e. handler_pid e = pid) (online_users r)")
    case (Some k)
    then have "i \<noteq> k" using that find_index_holds [OF Some] by auto
    then show ?thesis by (simp add: unregister_user_def Some)
  qed (simp add: unregister_user_def)
  ultimately show ?thesis using logout_clears by blast
qed

theorem logout_clears_entry_witness:
  "filter (\<lambda>e. is_active e \<noteq> 0 \<and> handler_pid e = 7)
     (online_users (unregister_user 7 (register_user ''ann'' 7 (init_registry 0)))) = []"
proof -
  have "session_step (init_registry 0) (Login ''ann'' 7) (register_user ''ann'' 7 (init_registry 0))"
    by (rule session_step.intros, rule registry_step.intros) (auto simp: init_registry_def free_entry_def)
  then show ?thesis using logout_clears_entry [OF runs_one [where step = session_step]]
    unfolding filter_empty_conv by blast
qed

section \<open>Critical sections and messages on the concrete kernel\<close>

lemma run_critical_unix:
  "\<exists>p'. run_state (critical unix_kernel unix_shm f) p = (fst (f (shared (world p))), p') \<and>
     world p' = (world p)\<lparr>shared := snd (f (shared (world p)))\<rparr>"
  by (simp add: critical_def on_registry_def run_call unix_shm_def Let_def split: prod.split)

lemma but_out_shared: "but_out fd w' = but_out fd w \<Longrightarrow> shared w' = shared w"
  by (drule arg_cong [where f = shared]) (simp add: but_out_def)

lemma only_calls_grow: "only_calls C m \<Longrightarrow> run_state m p = (a, p') \<Longrightarrow> \<exists>es. events p' = events p @ es"
  unfolding only_calls_def by (metis snd_conv)

definition wire_text :: "int \<Rightarrow> int \<Rightarrow> string \<Rightarrow> bytes" where
  "wire_text status bg msg = enc_msg_header (make_header TEXT status (length msg + 1) bg) @ msg @ [NUL]"

lemma reply_unix:
  assumes "cfd \<in> set (socks (world p))"
  shows "\<exists>p'. run_state (reply unix_kernel cfd st msg s) p = (Returned s, p') \<and>
    sock_out (world p') cfd = sock_out (world p) cfd @ wire_text st 0 msg \<and>
    shared (world p') = shared (world p) \<and> set (events p) \<subseteq> set (events p')"
proof -
  obtain p' where p': "run_state (sendProtocolMsg unix_kernel cfd TEXT st msg) p = (0, p')"
      "sock_out (world p') cfd = sock_out (world p) cfd @ wire_text st 0 msg"
      "but_out cfd (world p') = but_out cfd (world p)"
    using usnk.sendProtocolMsg_sink [OF assms, of TEXT st msg] unfolding wire_text_def by metis
  then show ?thesis
    using but_out_shared [OF p'(3)] only_calls_grow [OF sendProtocolMsg_only p'(1)] by (auto simp: reply_def)
qed

text \<open>The signals a process has sent, in order, and programs that send none.\<close>

definition signals :: "event list \<Rightarrow> (int \<times> int) list" where
  "signals es = concat (map (\<lambda>e. case fst e of ProcC (Kill pid s) \<Rightarrow> [(pid, s)] | _ \<Rightarrow> []) es)"

definition calm :: "syscall \<Rightarrow> bool" where
  "calm c \<longleftrightarrow> (\<forall>pid s. c \<noteq> ProcC (Kill pid s))"

lemma signals_simps [simp]:
  "signals [] = []" "signals (es @ es') = signals es @ signals es'" "signals [(ProcC (Kill pid s), r)] = [(pid, s)]"
  by (simp_all add: signals_def)

lemma calm_signals: "\<forall>e\<in>set es. calm (fst e) \<Longrightarrow> signals es = []"
  by (auto simp: signals_def calm_def split: syscall.split proc_call.split)

lemma calm_simps [simp]: "calm (MemC m)" "calm (FdC k)" "calm (NetC n)"
  by (simp_all add: calm_def)

lemma calm_io: "writes_to fd c \<Longrightarrow> calm c" "reads_from fd c \<Longrightarrow> calm c"
  by (auto simp: writes_to_iff reads_from_iff)

lemma calm_run: "only_calls calm m \<Longrightarrow> run_state m p = (a, p') \<Longrightarrow> signals (events p') = signals (events p)"
  using calm_signals unfolding only_calls_def by (metis append_Nil2 signals_simps(2) snd_conv)

lemma calm_programs:
  "only_calls calm (critical K M f)" "only_calls calm (reply K cfd st msg s)" "only_calls calm (readAll K fd n)"
  "only_calls calm (sendProtocolMsg K cfd t st msg)"
  unfolding critical_def reply_def
  by (auto intro!: only_calls_intros only_calls_on_registry only_calls_mono [OF sendProtocolMsg_only calm_io(1)]
      only_calls_mono [OF readAll_only calm_io(2)])

lemma wp_calm:
  assumes "only_calls calm m" "wp m (\<lambda>a p'. signals (events p') = signals (events p) \<longrightarrow> Q a p') p"
  shows "wp m Q p"
proof -
  obtain a p' where r: "run_state m p = (a, p')" by fastforce
  show ?thesis using assms(2) calm_run [OF assms(1) r] by (simp add: wp_def r)
qed

lemma find_handler_fst: "fst ((\<lambda>r. (find_handler u r, r)) r) = find_handler u r" "snd ((\<lambda>r. (find_handler u r, r)) r) = r"
  by simp_all

text \<open>A transfer request to a user who is online goes the whole way in one go: the request is
  entered in the shared table, the process that serves the receiver, and no other, is sent the
  signal \<open>SIGUSR1\<close>, and the client is told the id under which the request was entered.\<close>

theorem transfer_request_signals_receiver:
  assumes "sess_state session = STATE_LOGGED_IN" "cfd \<in> set (socks (world p))"
    and "find_handler dest (shared (world p)) = Some pid" "pid \<noteq> 0"
    and "create_request (session_user session) dest filename (shared (world p)) = Returned (i, r')" "i \<noteq> - 1"
  shows "\<exists>p'. run_state (handleTransferRequest (Suc fuel) unix_kernel unix_shm cfd [c, filename, dest] session) p
      = (Returned session, p') \<and>
    shared (world p') = r' \<and> signals (events p') = signals (events p) @ [(pid, SIGUSR1)] \<and>
    sock_out (world p') cfd = sock_out (world p) cfd @ wire_text 0 0
      (take 127 (''Transfer request created with ID: '' @ show_int i @ ''. Waiting for recipient...''))"
proof -
  obtain p1 where 1: "run_state (critical unix_kernel unix_shm (\<lambda>r. (find_handler dest r, r))) p = (Some pid, p1)"
      "world p1 = world p"
    using run_critical_unix [of "\<lambda>r. (find_handler dest r, r)" p] assms(3) by auto
  have s: "create_section (session_user session) dest filename (shared (world p)) = (Some i, r')"
    using assms(5) by (simp add: create_section_def)
  obtain p2 where 2: "run_state (critical unix_kernel unix_shm (create_section (session_user session) dest filename)) p1
        = (Some i, p2)" "world p2 = (world p)\<lparr>shared := r'\<rparr>"
    using run_critical_unix [of "create_section (session_user session) dest filename" p1] s 1(2) by auto
  let ?p3 = "after_call p2 (ProcC (Kill pid SIGUSR1)) (res_val 0) (world p2)"
  have 3: "run_state (call unix_kernel (ProcC (Kill pid SIGUSR1))) p2 = (0, ?p3)" by (simp add: run_call)
  obtain p4 where 4: "run_state (reply unix_kernel cfd 0 (take 127 (''Transfer request created with ID: '' @ show_int i
        @ ''. Waiting for recipient...'')) session) ?p3 = (Returned session, p4)"
      "sock_out (world p4) cfd = sock_out (world ?p3) cfd @ wire_text 0 0
        (take 127 (''Transfer request created with ID: '' @ show_int i @ ''. Waiting for recipient...''))"
      "shared (world p4) = shared (world ?p3)" "set (events ?p3) \<subseteq> set (events p4)"
    using reply_unix [of cfd ?p3 0 _ session] assms(2) 2(2) by auto
  have sent: "signals (events p4) = signals (events p) @ [(pid, SIGUSR1)]"
    using calm_run [OF calm_programs(1) 1(1)] calm_run [OF calm_programs(1) 2(1)] calm_run [OF calm_programs(2) 4(1)] by simp
  show ?thesis
    using assms(1,4,6) 1(1) 2 3 4 sent by (intro exI [of _ p4]) (simp add: handleTransferRequest_def)
qed

definition ann_session :: ClientSession where
  "ann_session = demo_session\<lparr>sess_state := STATE_LOGGED_IN,
     sess_username := strncpy MAX_USERNAME_LEN ''alice'' (replicate MAX_USERNAME_LEN NUL)\<rparr>"

lemma ann_session [simp]: "sess_state ann_session = STATE_LOGGED_IN" "session_user ann_session = ''alice''"
  by (simp_all add: ann_session_def session_user_def c_str_strncpy)

definition online_world :: unix where
  "online_world = demo_world\<lparr>shared := register_user ''bob'' 4711 (init_registry 0)\<rparr>"

lemma demo_create_online:
  "\<exists>r'. create_request ''alice'' ''bob'' ''a.txt'' (register_user ''bob'' 4711 (init_registry 0)) = Returned (1, r')"
  by (simp add: create_request_def init_registry_def free_request_def register_user_def numeral_eq_Suc free_entry_def)

lemma find_bob: "find_handler ''bob'' (register_user ''bob'' 4711 (init_registry 0)) = Some 4711"
proof -
  have "find_index (\<lambda>e. is_active e = 0) (online_users (init_registry 0)) = Some 0"
    by (simp add: init_registry_def free_entry_def numeral_eq_Suc)
  then show ?thesis
    by (simp add: find_handler_def register_user_def init_registry_def numeral_eq_Suc entry_name_def c_str_strncpy)
qed

theorem transfer_request_signals_receiver_witness:
  "signals (events (snd (run_state (handleTransferRequest 1 unix_kernel unix_shm 4
     [''transfer_request'', ''a.txt'', ''bob''] ann_session) (fresh_proc online_world 0)))) = [(4711, SIGUSR1)]"
proof -
  obtain r' where "create_request ''alice'' ''bob'' ''a.txt'' (register_user ''bob'' 4711 (init_registry 0)) = Returned (1, r')"
    using demo_create_online by blast
  then show ?thesis
    using transfer_request_signals_receiver [of ann_session 4 "fresh_proc online_world 0" "''bob''" 4711 "''a.txt''" 1 r' 0 "''transfer_request''"]
      find_bob by (auto simp: online_world_def)
qed

lemma send_notifications_unix:
  assumes "cfd \<in> set (socks (world p))"
  shows "\<exists>p'. run_state (send_notifications unix_kernel cfd ns) p = ((), p') \<and>
    sock_out (world p') cfd = sock_out (world p) cfd @ concat (map (\<lambda>n. wire_text 0 1 (notification_text n)) ns) \<and>
    shared (world p') = shared (world p)"
  using assms
proof (induction ns arbitrary: p)
  case (Cons n ns)
  let ?m = "notification_text n"
  let ?h = "enc_msg_header (make_header TEXT 0 (length ?m + 1) 1)"
  obtain p1 where 1: "run_state (writeAll unix_kernel cfd ?h) p = (int (length ?h), p1)"
      "sock_out (world p1) cfd = sock_out (world p) cfd @ ?h" "but_out cfd (world p1) = but_out cfd (world p)"
      "cfd \<in> set (socks (world p1))"
    by (rule usnk.writeAll_sink [OF Cons.prems])
  obtain p2 where 2: "run_state (writeAll unix_kernel cfd (?m @ [NUL])) p1 = (int (length (?m @ [NUL])), p2)"
      "sock_out (world p2) cfd = sock_out (world p1) cfd @ ?m @ [NUL]" "but_out cfd (world p2) = but_out cfd (world p1)"
      "cfd \<in> set (socks (world p2))"
    by (rule usnk.writeAll_sink [OF 1(4)])
  show ?case
    using Cons.IH [OF 2(4)] 1 2 but_out_shared [OF 1(3)] but_out_shared [OF 2(3)]
    by (auto simp: sendProtocolMsgBg_def wire_text_def)
qed simp

text \<open>When the signal has come, the receiver's process tells its client: every notification of the
  user is sent, in the order of the table, as a background message of the client's connection, and
  the shared table is left as the check leaves it.\<close>

theorem notifications_reach_client:
  assumes "sess_state session = STATE_LOGGED_IN" "cfd \<in> set (socks (world p))"
    and "check_requests (session_user session) (shared (world p)) = (ns, r')"
  shows "\<exists>p'. run_state (check_for_notifications unix_kernel unix_shm cfd session) p = ((), p') \<and>
    shared (world p') = r' \<and>
    sock_out (world p') cfd = sock_out (world p) cfd @ concat (map (\<lambda>n. wire_text 0 1 (notification_text n)) ns)"
proof -
  obtain p1 where 1: "run_state (critical unix_kernel unix_shm (check_requests (session_user session))) p = (ns, p1)"
      "world p1 = (world p)\<lparr>shared := r'\<rparr>"
    using run_critical_unix [of "check_requests (session_user session)" p] assms(3) by auto
  obtain p2 where "run_state (send_notifications unix_kernel cfd ns) p1 = ((), p2)"
      "sock_out (world p2) cfd = sock_out (world p1) cfd @ concat (map (\<lambda>n. wire_text 0 1 (notification_text n)) ns)"
      "shared (world p2) = shared (world p1)"
    using send_notifications_unix [of cfd p1 ns] assms(2) 1(2) by auto
  then show ?thesis using assms(1) 1 by (intro exI [of _ p2]) (simp add: check_for_notifications_def)
qed

theorem notifications_reach_client_witness:
  "shared (world (snd (run_state (check_for_notifications unix_kernel unix_shm 4 ann_session) (fresh_proc online_world 0))))
    = snd (check_requests ''alice'' (shared online_world))"
  using notifications_reach_client [of ann_session 4 "fresh_proc online_world 0"
      "fst (check_requests ''alice'' (shared online_world))" "snd (check_requests ''alice'' (shared online_world))"]
  by (auto simp: online_world_def)

end
