(* ===== verification/Wire_Exchange.thy ===== *)
theory Wire_Exchange
  imports Server_Rendezvous Client_Properties
begin

text \<open>
  The conversations of the program as rules for weakest preconditions on the kernel of
  \<open>Unix_Kernel\<close>: a handler process and the helper, a client and its handler.  Every rule
  gives the world after the conversation, whatever the pieces of the connections.
\<close>

section \<open>Worlds after a conversation\<close>

definition said :: "int \<Rightarrow> bytes \<Rightarrow> unix \<Rightarrow> unix" where
  "said fd bs w = w\<lparr>sock_out := (sock_out w)(fd := sock_out w fd @ bs)\<rparr>"

definition heard :: "int \<Rightarrow> nat \<Rightarrow> unix \<Rightarrow> unix" where
  "heard fd n w = w\<lparr>sock_in := (sock_in w)(fd := drop n (sock_in w fd))\<rparr>"

lemma said_simps [simp]:
  "socks (said fd bs w) = socks w" "shared (said fd bs w) = shared w" "fs (said fd bs w) = fs w"
  "sock_in (said fd bs w) = sock_in w" "sigflag (said fd bs w) = sigflag w" "screen (said fd bs w) = screen w"
  "cflags (said fd bs w) = cflags w" "tty (said fd bs w) = tty w"
  "node_at (said fd bs w) q = node_at w q" "fdt (said fd bs w) = fdt w" "started (said fd bs w) = started w" 
  "fork_ret (said fd bs w) = fork_ret w" "data_port (said fd bs w) = data_port w" "my_pid (said fd bs w) = my_pid w"
  "sock_out (said fd bs w) = (sock_out w)(fd := sock_out w fd @ bs)"
  "said fd bs (w\<lparr>sched := sc\<rparr>) = (said fd bs w)\<lparr>sched := sc\<rparr>"
  "said fd bs (said fd bs' w) = said fd (bs' @ bs) w"
  by (simp_all add: said_def node_at_def)

lemma heard_simps [simp]:
  "socks (heard fd n w) = socks w" "shared (heard fd n w) = shared w" "fs (heard fd n w) = fs w"
  "sock_out (heard fd n w) = sock_out w" "sigflag (heard fd n w) = sigflag w" "screen (heard fd n w) = screen w"
  "cflags (heard fd n w) = cflags w" "tty (heard fd n w) = tty w"
  "node_at (heard fd n w) q = node_at w q" "fdt (heard fd n w) = fdt w" "started (heard fd n w) = started w"
  "fork_ret (heard fd n w) = fork_ret w" "data_port (heard fd n w) = data_port w" "my_pid (heard fd n w) = my_pid w"
  "sock_in (heard fd n w) = (sock_in w)(fd := drop n (sock_in w fd))"
  "heard fd n (w\<lparr>sched := sc\<rparr>) = (heard fd n w)\<lparr>sched := sc\<rparr>"
  "heard fd n (heard fd m w) = heard fd (m + n) w"
  by (simp_all add: heard_def node_at_def add.commute)

lemma sched_twice [simp]: "w\<lparr>sched := a, sched := b\<rparr> = w\<lparr>sched := b\<rparr>"
  by simp

lemma wp_unix_say:
  assumes "fd \<in> set (socks (world p))"
    and "\<And>p' sc. world p' = (said fd bs (world p))\<lparr>sched := sc\<rparr> \<Longrightarrow> Q (int (length bs)) p'"
  shows "wp (writeAll unix_kernel fd bs) Q p"
  by (rule wp_unix_writeAll [OF assms(1)]) (simp add: assms(2) said_def)

lemma wp_unix_hear:
  assumes "fd \<in> set (socks (world p))" "n \<le> length (sock_in (world p) fd)"
    and "\<And>p' sc. world p' = (heard fd n (world p))\<lparr>sched := sc\<rparr> \<Longrightarrow> Q (int n, take n (sock_in (world p) fd)) p'"
  shows "wp (readAll unix_kernel fd n) Q p"
  by (rule wp_unix_readAll [OF assms(1,2)]) (simp add: assms(3) heard_def)

lemma wp_unix_hear_any:
  assumes "fd \<in> set (socks (world p))"
    and "\<And>p' sc. world p' = (heard fd n (world p))\<lparr>sched := sc\<rparr> \<Longrightarrow>
           Q (if n \<le> length (sock_in (world p) fd) then int n else 0, take n (sock_in (world p) fd)) p'"
  shows "wp (readAll unix_kernel fd n) Q p"
proof (cases "n \<le> length (sock_in (world p) fd)")
  case True
  then show ?thesis using assms by (auto intro: wp_unix_hear)
next
  case False
  then have short: "length (sock_in (world p) fd) < n" by simp
  obtain p' where "run_state (readAll unix_kernel fd n) p = ((0, sock_in (world p) fd), p')"
      "sock_in (world p') fd = []" "but_in fd (world p') = but_in fd (world p)"
    using usrc.readAll_eof [of fd p n] assms(1) short by blast
  then show ?thesis
    using assms(2) [of p' "sched (world p')"] but_in_eq False by (simp add: wp_def heard_def)
qed

lemma wp_unix_take:
  assumes "fd \<in> set (socks (world p))" "sock_in (world p) fd = bs @ rest" "length bs = n"
    and "\<And>p' sc. world p' = (heard fd n (world p))\<lparr>sched := sc\<rparr> \<Longrightarrow> sock_in (world p') fd = rest \<Longrightarrow> Q (int n, bs) p'"
  shows "wp (readAll unix_kernel fd n) Q p"
  by (rule wp_unix_hear) (use assms in auto)

lemma wp_unix_say_args:
  assumes "fd \<in> set (socks (world p))"
    and "\<And>p' sc. world p' = (said fd (pack_args argv) (world p))\<lparr>sched := sc\<rparr> \<Longrightarrow> Q 0 p'"
  shows "wp (send_args unix_kernel fd argv) Q p"
proof -
  obtain p' where "run_state (send_args unix_kernel fd argv) p = (0, p')"
      "sock_out (world p') fd = sock_out (world p) fd @ pack_args argv" "but_out fd (world p') = but_out fd (world p)"
    using send_args_unix [OF assms(1)] by blast
  then show ?thesis
    using assms(2) [of p' "sched (world p')"] but_out_eq by (simp add: wp_def said_def)
qed

lemma wp_unix_say_if:
  assumes "fd \<in> set (socks (world p))" "b \<longleftrightarrow> bs \<noteq> []"
    and "\<And>p' n sc. 0 \<le> n \<Longrightarrow> world p' = (said fd bs (world p))\<lparr>sched := sc\<rparr> \<Longrightarrow> Q n p'"
  shows "wp (if b then writeAll unix_kernel fd bs else State_Monad.return 0) Q p"
  by (rule wp_unix_send_if [OF assms(1,2)]) (simp add: assms(3) said_def)

section \<open>A request to the helper\<close>

text \<open>What the caller of a request gets from the bytes the connection holds.\<close>

definition answer_of :: "bytes \<Rightarrow> bytes \<Rightarrow> int \<times> bytes" where
  "answer_of inp junk =
     (let outv = take 5372 inp @ drop (length (take 5372 inp)) junk
      in (if 5372 \<le> length inp then res_status (dec_response outv) else - 1, outv))"

lemma answer_of_response:
  assumes "response_wf a" "length junk = 5372"
  shows "answer_of (enc_response a @ rest) junk = (res_status a, enc_response a)"
  using response_codec.enc_width [OF assms(1)] dec_response_append [OF assms(1), of "[]"] assms(2)
  by (simp add: answer_of_def)

lemma sendHelperRequest_RW:
  "sendHelperRequest K fd cmd argv s junk = sendHelperRequestRW K fd cmd argv 0 s None 0 junk"
  by (simp add: sendHelperRequest_def sendHelperRequestRW_def Let_def cong: if_cong)

text \<open>The data of a request, when there is any.\<close>

definition data_given :: "bytes option \<Rightarrow> u32 \<Rightarrow> bytes \<Rightarrow> bool" where
  "data_given d n data \<longleftrightarrow> length data < 2 ^ 32 \<and> n = of_nat (length data) \<and>
     (case d of None \<Rightarrow> data = [] | Some x \<Rightarrow> x = data)"

definition asked_as :: "ClientSession option \<Rightarrow> ClientSession" where
  "asked_as s = (case s of None \<Rightarrow> zero_session | Some x \<Rightarrow> x)"

lemma asked_as [simp]: "asked_as None = zero_session" "asked_as (Some s) = s"
  by (simp_all add: asked_as_def)

lemma wp_unix_request:
  assumes "fd \<in> set (socks (world p))" "data_given d n data"
    and "\<And>p' sc. world p' = (heard fd 5372 (said fd (wire_request cmd argv (asked_as s) offset data) (world p)))\<lparr>sched := sc\<rparr> \<Longrightarrow>
           Q (answer_of (sock_in (world p) fd) junk) p'"
  shows "wp (sendHelperRequestRW unix_kernel fd cmd argv offset s d n junk) Q p"
proof -
  have n: "n = of_nat (length data)" "0 < n \<and> d \<noteq> None \<longleftrightarrow> data \<noteq> []" "data \<noteq> [] \<Longrightarrow> the d = data"
    using assms(2) of_nat_u32_pos [of "length data"] by (auto simp: data_given_def split: option.splits)
  define h where "h = request_header cmd argv (asked_as s) offset n"
  have h: "\<lparr>req_cmd = command_code cmd, req_argc = of_nat (length argv), req_payload_len = packed_len argv,
      req_session = (case s of None \<Rightarrow> zero_session | Some x \<Rightarrow> x), req_offset = word_of_int offset, req_data_len = n\<rparr> = h"
    by (simp add: h_def request_header_def asked_as_def)
  have w: "enc_request_header h @ pack_args argv @ data = wire_request cmd argv (asked_as s) offset data"
    by (simp add: wire_request_def h_def n(1))
  have last: "wp (readAll unix_kernel fd 5372 \<bind> (\<lambda>(r, got).
      if r \<le> 0 then State_Monad.return (- 1, got @ drop (length got) junk)
      else State_Monad.return (res_status (dec_response (got @ drop (length got) junk)), got @ drop (length got) junk))) Q p1"
    if p1: "world p1 = (said fd (enc_request_header h @ pack_args argv @ data) (world p))\<lparr>sched := sc\<rparr>" for p1 sc
  proof (simp only: wp_bind, rule wp_unix_hear_any, goal_cases)
    case 1
    then show ?case using assms(1) p1 by simp
  next
    case (2 p' sc')
    then have "world p' = (heard fd 5372 (said fd (wire_request cmd argv (asked_as s) offset data) (world p)))\<lparr>sched := sc'\<rparr>"
      by (simp add: p1 w)
    from assms(3) [OF this] show ?case
      using p1 by (cases "5372 \<le> length (sock_in (world p) fd)") (simp_all add: answer_of_def Let_def wp_return)
  qed
  have send: "(if 0 < n \<and> d \<noteq> None then writeAll unix_kernel fd (the d) else State_Monad.return 0)
      = (if data \<noteq> [] then writeAll unix_kernel fd data else State_Monad.return 0)"
    using n(2,3) by auto
  have len: "\<not> int (length x) < 0" for x :: bytes by simp
  show ?thesis
    unfolding sendHelperRequestRW_def h Let_def wp_bind send
    apply (rule wp_unix_say [OF assms(1)])
    apply (simp only: wp_bind len if_False)
    apply (rule wp_unix_say_args)
     apply (simp add: assms(1))
    apply (simp only: wp_bind less_irrefl if_False)
    apply (rule wp_unix_say_if [where bs = data])
      apply (simp add: assms(1))
     apply simp
    apply (drule leD, simp only: if_False)
    apply (rule last, simp)
    done
qed

section \<open>The commands of a handler\<close>

lemma wp_unix_connect:
  assumes "\<And>p'. world p' = world p \<Longrightarrow> Q 4 p'"
  shows "wp (connectToHelper unix_kernel) Q p"
  unfolding connectToHelper_def by (auto simp: wp_simps intro!: assms)

lemma wp_unix_text:
  assumes "cfd \<in> set (socks (world p))"
    and "\<And>p' sc. world p' = (said cfd (wire_text st 0 msg) (world p))\<lparr>sched := sc\<rparr> \<Longrightarrow> Q 0 p'"
  shows "wp (sendProtocolMsg unix_kernel cfd TEXT st msg) Q p"
proof -
  have len: "\<not> int (length x) < 0" for x :: bytes by simp
  show ?thesis
    unfolding sendProtocolMsg_def wp_bind
    apply (rule wp_unix_say [OF assms(1)])
    apply (simp only: len if_False wp_bind)
    apply (rule wp_unix_say)
     apply (simp add: assms(1))
    apply (simp only: len if_False wp_return)
    apply (rule assms(2))
    apply (simp add: wire_text_def)
    done
qed

lemma wp_unix_reply:
  assumes "cfd \<in> set (socks (world p))"
    and "\<And>p' sc. world p' = (said cfd (wire_text st 0 msg) (world p))\<lparr>sched := sc\<rparr> \<Longrightarrow> Q (Returned s) p'"
  shows "wp (reply unix_kernel cfd st msg s) Q p"
  unfolding reply_def wp_bind wp_return by (rule wp_unix_text [OF assms])

lemma wp_unix_reply_close:
  assumes "cfd \<in> set (socks (world p))" "hfd \<in> set (socks (world p))"
    and "\<And>p' sc. world p' = (said cfd (wire_text st 0 msg) (world p))\<lparr>sched := sc\<rparr> \<Longrightarrow> Q (Returned s) p'"
  shows "wp (reply_close unix_kernel cfd hfd st msg s) Q p"
  unfolding reply_close_def wp_bind wp_return
  by (rule wp_unix_text [OF assms(1)], rule wp_unix_callI) (simp add: assms)

text \<open>What a handler makes of a block of data behind the helper's answer.\<close>

definition passed_on :: "msg_type \<Rightarrow> u32 \<Rightarrow> bytes \<Rightarrow> bytes" where
  "passed_on type len rest =
     (if unat len \<le> length rest
      then enc_msg_header (make_header type 0 (unat len) 0) @ take (unat len) rest
      else wire_text (- 1) 0 ''Failed to read data from Helper'')"

lemma wp_unix_forward:
  assumes "cfd \<in> set (socks (world p))" "hfd \<in> set (socks (world p))"
    and "\<And>p' sc. world p' = (said cfd (passed_on type len (sock_in (world p) hfd)) (heard hfd (unat len) (world p)))\<lparr>sched := sc\<rparr> \<Longrightarrow>
           Q (Returned s) p'"
  shows "wp (forward_data unix_kernel cfd hfd type len s) Q p"
proof (cases "unat len \<le> length (sock_in (world p) hfd)")
  case True
  then show ?thesis
    unfolding forward_data_def wp_bind
    apply (intro wp_unix_hear [OF assms(2) True])
    apply (simp only: prod.case simp_thms if_True wp_bind wp_return)
    apply (rule wp_unix_say)
     apply (simp add: assms(1))
    apply (simp only: wp_bind)
    apply (rule wp_unix_say)
     apply (simp add: assms(1))
    apply (simp only: wp_bind wp_return)
    apply (rule wp_unix_callI)
    apply (simp only: wp_return)
    apply (rule assms(3))
    apply (simp add: assms(2) passed_on_def True)
    done
next
  case False
  have "(0 = int n) = False" if "\<not> n \<le> m" for n m :: nat using that by simp
  from this [OF False] False show ?thesis
    unfolding forward_data_def wp_bind
    apply (intro wp_unix_hear_any [OF assms(2)])
    apply (simp only: if_False prod.case)
    apply (rule wp_unix_reply_close)
      apply (simp_all add: assms(1,2))
    apply (rule assms(3))
    apply (simp add: passed_on_def)
    done
qed

text \<open>
  The three kinds of answers a client gets: the helper's text, the helper's text
  after a failure with a text of the handler after success, and the data.
\<close>

definition relayed :: "bytes \<Rightarrow> bytes \<Rightarrow> bytes" where
  "relayed junk inp = (case answer_of inp junk of (st, res) \<Rightarrow> wire_text st 0 (res_text res))"

definition data_reply :: "msg_type \<Rightarrow> string \<Rightarrow> bytes \<Rightarrow> bytes \<Rightarrow> bytes" where
  "data_reply type empty_msg junk inp = (case answer_of inp junk of (st, res) \<Rightarrow>
     let len = res_payload_len (dec_response res)
     in if st \<noteq> 0 then wire_text (- 1) 0 (res_text res)
        else if 0 < len then passed_on type len (drop 5372 inp) else wire_text 0 0 empty_msg)"

text \<open>
  A command that sends the helper \<open>req\<close> and its client \<open>ans\<close> of the bytes the helper sends,
  and turns the shared registry from \<open>reg\<close> into \<open>reg'\<close>.
\<close>

definition asks_helper_by ::
  "SharedRegistry \<Rightarrow> (int \<Rightarrow> bytes \<Rightarrow> SharedRegistry) \<Rightarrow> int \<Rightarrow> bytes \<Rightarrow> (bytes \<Rightarrow> bytes) \<Rightarrow> (bytes \<Rightarrow> 'a) \<Rightarrow> (unix, 'a) sysprog \<Rightarrow> bool" where
  "asks_helper_by reg R cfd req ans res m \<longleftrightarrow>
     (\<forall>p. shared (world p) = reg \<longrightarrow> cfd \<in> set (socks (world p)) \<longrightarrow> 4 \<in> set (socks (world p)) \<longrightarrow> cfd \<noteq> 4 \<longrightarrow>
        wp m (\<lambda>r p'. shared (world p') = R (my_pid (world p)) (sock_in (world p) 4) \<and>
          r = res (sock_in (world p) 4) \<and> sock_out (world p') 4 = sock_out (world p) 4 @ req \<and>
          sock_out (world p') cfd = sock_out (world p) cfd @ ans (sock_in (world p) 4)) p)"

abbreviation asks_helper :: "SharedRegistry \<Rightarrow> SharedRegistry \<Rightarrow> int \<Rightarrow> bytes \<Rightarrow> (bytes \<Rightarrow> bytes) \<Rightarrow> (bytes \<Rightarrow> 'a) \<Rightarrow> (unix, 'a) sysprog \<Rightarrow> bool" where
  "asks_helper reg reg' \<equiv> asks_helper_by reg (\<lambda>_ _. reg')"

lemmas asks_helper_def = asks_helper_by_def

lemma asks_connected:
  assumes "asks_helper_by reg R cfd req ans res (f 4)"
  shows "asks_helper_by reg R cfd req ans res (do { h \<leftarrow> connectToHelper unix_kernel; if h < 0 then e else f h })"
  unfolding asks_helper_def wp_bind
proof (intro allI impI, rule wp_unix_connect, goal_cases)
  case (1 p p')
  then show ?case using assms [unfolded asks_helper_def, rule_format, of p'] by simp
qed

lemma relay_asks':
  "asks_helper reg reg cfd (wire_request cmd args (asked_as asked) 0 []) (relayed junk) (\<lambda>_. Returned s)
     (do {
        h \<leftarrow> connectToHelper unix_kernel;
        if h < 0 then e
        else do {
          (status, res) \<leftarrow> sendHelperRequest unix_kernel h cmd args asked junk;
          reply_close unix_kernel cfd h status (res_text res) s
        }
      })"
  unfolding sendHelperRequest_RW
  apply (rule asks_connected)
  unfolding asks_helper_def wp_bind
  apply (intro allI impI)
  apply (rule wp_unix_request [where data = "[]"])
    apply (auto simp: data_given_def relayed_def split_beta intro!: wp_unix_reply_close)
  done

lemma relay_asks:
  "asks_helper reg reg cfd (wire_request cmd args (asked_as asked) 0 []) (relayed junk) (\<lambda>_. Returned s)
     (relay unix_kernel junk cfd cmd args asked s)"
  unfolding relay_def by (rule relay_asks')

text \<open>The commands that read the answer themselves.\<close>

lemma handleWrite_asks:
  assumes "sess_state s = STATE_LOGGED_IN"
    and "offset_and_path ''Usage: write [-offset=N] <path>'' ''Usage: write [-offset=N] <path>'' (argv_strings tb) = Inr (offset, path)"
    and "write_file_data n tb = Some data" "write_data_len n tb = of_nat (length data)" "length data < 2 ^ 32"
  shows "asks_helper reg reg cfd (wire_request WRITE [path] s offset data) (relayed junk) (\<lambda>_. Returned s)
     (handleWrite unix_kernel junk cfd tb n s)"
  unfolding handleWrite_def assms(1-4) sum.case prod.case option.case simp_thms if_False
  apply (rule asks_connected)
  unfolding asks_helper_def wp_bind
  apply (intro allI impI)
  apply (rule wp_unix_request [where data = data])
    apply (auto simp: data_given_def assms(5) [simplified] relayed_def split_beta intro!: wp_unix_reply_close)
  done

lemma data_command_asks:
  assumes "data = []"
  shows "asks_helper reg reg cfd (wire_request cmd args s offset data) (data_reply type e junk) (\<lambda>_. Returned s)
    (do {
       (status, res) \<leftarrow> sendHelperRequestRW unix_kernel 4 cmd args offset (Some s) None 0 junk;
       let len = res_payload_len (dec_response res);
       if status \<noteq> 0 then reply_close unix_kernel cfd 4 (- 1) (res_text res) s
       else if 0 < len then forward_data unix_kernel cfd 4 type len s
       else reply_close unix_kernel cfd 4 0 e s
     })"
  unfolding asks_helper_def wp_bind Let_def
  apply (intro allI impI)
  apply (rule wp_unix_request [where data = data])
    apply (auto simp: data_given_def assms data_reply_def split_beta Let_def intro!: wp_unix_reply_close wp_unix_forward)
  done

lemma handleRead_asks:
  assumes "sess_state s = STATE_LOGGED_IN"
    and "offset_and_path ''Usage: read -offset=N <path>'' ''Usage: read [-offset=N] <path>'' argv = Inr (offset, path)"
  shows "asks_helper reg reg cfd (wire_request READ [path] s offset []) (data_reply READCMD ''File is empty'' junk)
     (\<lambda>_. Returned s) (handleRead unix_kernel junk cfd argv s)"
  unfolding handleRead_def assms sum.case prod.case simp_thms if_False
  by (rule asks_connected, rule data_command_asks) simp

lemma handleLs_asks:
  assumes "sess_state s = STATE_LOGGED_IN"
  shows "asks_helper reg reg cfd (wire_request LS [path] s 0 []) (data_reply LSRES ''Directory is empty'' junk)
     (\<lambda>_. Returned s) (handleLs unix_kernel junk cfd [c, path] s)"
proof -
  have "length [c, path] = 2" by simp
  then show ?thesis
    unfolding handleLs_def assms sendHelperRequest_RW list.sel simp_thms if_False
    by (simp only: simp_thms if_False, intro asks_connected data_command_asks) simp
qed

lemma handleCd_asks:
  assumes "sess_state s = STATE_LOGGED_IN"
  shows "asks_helper reg reg cfd (wire_request CD [path] s 0 [])
     (\<lambda>inp. case answer_of inp junk of (st, res) \<Rightarrow>
        if st = 0 then wire_text 0 0 (take 1255 (''Current workDir: '' @ session_workdir (set_workdir (c_str (drop 1268 res)) s)))
        else wire_text (- 1) 0 (res_text res))
     (\<lambda>inp. case answer_of inp junk of (st, res) \<Rightarrow>
        Returned (if st = 0 then set_workdir (c_str (drop 1268 res)) s else s))
     (handleCd unix_kernel junk cfd [c, path] s)"
proof -
  have "length [c, path] = 2" by simp
  then show ?thesis
    unfolding handleCd_def assms sendHelperRequest_RW list.sel simp_thms if_False
    apply (simp only: simp_thms if_False)
    apply (rule asks_connected)
    unfolding asks_helper_def wp_bind Let_def
    apply (intro allI impI)
    apply (rule wp_unix_request [where data = "[]"])
      apply (auto simp: data_given_def split_beta intro!: wp_unix_reply_close)
    done
qed

lemma wp_unix_critical:
  assumes "\<And>p'. world p' = (world p)\<lparr>shared := snd (f (shared (world p)))\<rparr> \<Longrightarrow> Q (fst (f (shared (world p)))) p'"
  shows "wp (critical unix_kernel unix_shm f) Q p"
  using run_critical_unix [of f p] assms by (auto simp: wp_run)

lemma asks_change:
  assumes "asks_helper reg' reg'' cfd req ans res m"
    and "\<And>p Q. shared (world p) = reg \<Longrightarrow> (\<And>p'. world p' = (world p)\<lparr>shared := reg'\<rparr> \<Longrightarrow> wp m Q p') \<Longrightarrow> wp n Q p"
  shows "asks_helper reg reg'' cfd req ans res n"
  unfolding asks_helper_def
proof (intro allI impI, rule assms(2), assumption, goal_cases)
  case (1 p p')
  then show ?case using assms(1) [unfolded asks_helper_def, rule_format, of p'] by simp
qed

lemma handleAccept_asks:
  assumes "sess_state s = STATE_LOGGED_IN" "accept_request (session_user s) (atoi i) reg = (Some t, reg')"
  shows "asks_helper reg reg' cfd
     (wire_request TRANSFER [sender_name t, file_name t, session_user s, dir] zero_session 0 []) (relayed junk)
     (\<lambda>_. Returned s) (handleAcceptTransfer unix_kernel unix_shm junk cfd [c, dir, i] s)"
proof -
  have nth: "[c, dir, i] ! 1 = dir" "[c, dir, i] ! 2 = i" "length [c, dir, i] = 3" by simp_all
  show ?thesis
    unfolding handleAcceptTransfer_def nth assms(1)
    by (rule asks_change [OF relay_asks' [where asked = None and
            e = "reply unix_kernel cfd (- 1) ''Internal Error: Helper unreachable'' s", unfolded asked_as(1)]])
      (use assms in \<open>auto simp: wp_bind intro!: wp_unix_critical\<close>)
qed

lemma handleLogin_asks:
  assumes "sess_state s \<noteq> STATE_LOGGED_IN" "isUsernameValid u"
  shows "asks_helper_by reg (\<lambda>pid inp. if fst (answer_of inp junk) = 0 then register_user u pid reg else reg) cfd
     (wire_request LOGIN [u] zero_session 0 [])
     (\<lambda>inp. case answer_of inp junk of (st, res) \<Rightarrow>
        if st = 0 then wire_text 0 0 ''Login successful'' else wire_text (- 1) 0 (res_text res))
     (\<lambda>inp. case answer_of inp junk of (st, res) \<Rightarrow> Returned (if st = 0 then logged_in u res s else s))
     (handleLogin unix_kernel unix_shm junk cfd [c, u] s)"
proof -
  have nth: "length [c, u] = 2" "[c, u] ! 1 = u" by simp_all
  show ?thesis
    unfolding handleLogin_def nth sendHelperRequest_RW list.sel
    apply (simp only: assms simp_thms if_False)
    apply (rule asks_connected)
    unfolding asks_helper_def wp_bind Let_def
    apply (intro allI impI)
    apply (rule wp_unix_request [where data = "[]"])
      apply (auto simp: data_given_def split_beta asked_as_def wp_bind intro!: wp_unix_callI wp_unix_critical wp_unix_reply_close)
    done
qed

section \<open>One round of a session\<close>

text \<open>The bytes a client sends for a command line.\<close>

definition request_bytes :: "string \<Rightarrow> bytes \<Rightarrow> bytes" where
  "request_bytes line data = (case build_request line data of (hdr, payload) \<Rightarrow> enc_msg_header hdr @ payload)"

text \<open>A line the server can take in: words without NULs, and lengths that fit 32 bits.\<close>

definition takeable :: "string \<Rightarrow> bytes \<Rightarrow> bool" where
  "takeable line data \<longleftrightarrow> NUL \<notin> set line \<and> words_of line \<noteq> [] \<and> length line + 1 + length data < 2 ^ 32 - 1"

lemma length_u32:
  assumes "n < 2 ^ 32 - 1"
  shows "unat (of_nat n :: u32) = n" "(of_nat n :: u32) = 0 \<longleftrightarrow> n = 0" "(of_nat n :: u32) + 1 \<noteq> 0"
proof -
  show u: "unat (of_nat n :: u32) = n"
    by (rule unat_of_nat_u32) (use assms in simp)
  then show "(of_nat n :: u32) = 0 \<longleftrightarrow> n = 0" by auto
  have "unat (of_nat (Suc n) :: u32) = Suc n"
    by (rule unat_of_nat_u32) (use assms in simp)
  then have "(of_nat (Suc n) :: u32) \<noteq> 0" by auto
  then show "(of_nat n :: u32) + 1 \<noteq> 0" by (simp add: add.commute)
qed

lemma built:
  assumes "build_request line data = (hdr, payload)" "takeable line data"
  shows "payload = line @ NUL # (if is_write line then data else [])"
    "payloadLength hdr = of_nat (length payload)" "length payload < 2 ^ 32 - 1"
    "unat (payloadLength hdr) = length payload" "payloadLength hdr \<noteq> 0" "payloadLength hdr + 1 \<noteq> 0"
proof -
  show p: "payload = line @ NUL # (if is_write line then data else [])" "payloadLength hdr = of_nat (length payload)"
    using assms(1) by (auto simp: build_request_def Let_def)
  show l: "length payload < 2 ^ 32 - 1" using assms(2) unfolding p(1) by (auto simp: takeable_def)
  show "unat (payloadLength hdr) = length payload" "payloadLength hdr \<noteq> 0" "payloadLength hdr + 1 \<noteq> 0"
    unfolding p(2) using length_u32 [OF l] p(1) by auto
qed

lemma takeable_tokens:
  assumes "takeable line data" "payload = line @ NUL # t"
  shows "argv_strings (tokenizeCommand (payload @ [NUL])) = take MAXARGS (words_of line)"
    "fst (tokenizeCommand (payload @ [NUL])) \<noteq> []"
proof -
  show words: "argv_strings (tokenizeCommand (payload @ [NUL])) = take MAXARGS (words_of line)"
    using tokenizeCommand_words [of line "t @ [NUL]"] assms by (simp add: takeable_def)
  then show "fst (tokenizeCommand (payload @ [NUL])) \<noteq> []"
    using assms(1) by (auto simp: takeable_def argv_strings_def take_eq_Nil)
qed

definition continue_with :: "ClientSession outcome \<Rightarrow> round_result outcome" where
  "continue_with r = (case r of Returned s \<Rightarrow> Returned (Continue s) | Exited \<Rightarrow> Exited
     | Running \<Rightarrow> Running | Undefined \<Rightarrow> Undefined)"

lemma wp_unix_client_round:
  assumes "cfd \<in> set (socks (world p))" "\<not> sigflag (world p)" "takeable line data"
    and "build_request line data = (hdr, payload)" "sock_in (world p) cfd = enc_msg_header hdr @ payload @ rest"
    and "\<And>p1 sc. world p1 = (heard cfd (16 + length payload) (world p))\<lparr>sched := sc\<rparr> \<Longrightarrow>
      signals (events p1) = signals (events p) \<Longrightarrow>
      wp (run_command fuel unix_kernel M junk cfd (tokenizeCommand (payload @ [NUL])) (payloadLength hdr) session)
        (\<lambda>r. Q (continue_with r)) p1"
  shows "wp (client_round fuel unix_kernel M junk cfd session) Q p"
proof -
  note b = built [OF assms(4,3)]
  have w: "length (enc_msg_header hdr) = 16" "dec_msg_header (enc_msg_header hdr) = hdr"
    using header_codec.enc_width [of hdr] header_codec.dec_enc [of hdr] by auto
  have t: "fst (tokenizeCommand (payload @ [NUL])) \<noteq> []" by (rule takeable_tokens [OF assms(3) b(1)])
  have pos: "\<not> int (length payload) \<le> 0" using b(1) by auto
  show ?thesis
    unfolding client_round_def wp_bind
    apply (rule wp_calm)
     apply (simp add: only_calls_call)
    apply (rule wp_unix_callI, rule impI)
    apply (simp add: assms(2) wp_return wp_bind cong: step_congs)
    apply (rule wp_calm [OF calm_programs(3)])
    apply (rule wp_unix_take [of cfd _ "enc_msg_header hdr" "payload @ rest"])
       apply (simp add: assms(1))
      apply (simp add: assms(5))
     apply (rule w(1))
    apply (rule impI, simp add: w(2) b(5,6) wp_bind Let_def cong: step_congs)
    apply (rule wp_calm [OF calm_programs(3)])
    apply (rule wp_unix_take [of cfd _ payload rest])
       apply (simp add: assms(1))
      apply simp
     apply (simp add: b(4))
    apply (rule impI, simp only: prod.case b(4) pos if_False dispatchCommands_def Let_def t w(2) b(5) wp_bind wp_return
        option.case continue_with_def [symmetric])
    apply (rule wp_mono, rule assms(6))
     apply (simp_all add: wp_return)
    done
qed

text \<open>What the handler runs for a line the client sends.\<close>

definition line_command ::
  "nat \<Rightarrow> unix shm \<Rightarrow> bytes \<Rightarrow> int \<Rightarrow> string \<Rightarrow> bytes \<Rightarrow> ClientSession \<Rightarrow> (unix, ClientSession outcome) sysprog" where
  "line_command fuel M junk cfd line data s = (case build_request line data of (hdr, payload) \<Rightarrow>
     run_command fuel unix_kernel M junk cfd (tokenizeCommand (payload @ [NUL])) (payloadLength hdr) s)"

lemma round_asks:
  assumes "cfd \<in> set (socks (world p))" "4 \<in> set (socks (world p))" "cfd \<noteq> 4" "\<not> sigflag (world p)"
    and "takeable line data" "sock_in (world p) cfd = request_bytes line data"
    and "asks_helper_by (shared (world p)) R cfd req ans res (line_command fuel M junk cfd line data session)"
  shows "wp (client_round fuel unix_kernel M junk cfd session)
    (\<lambda>r p'. shared (world p') = R (my_pid (world p)) (sock_in (world p) 4) \<and> r = continue_with (res (sock_in (world p) 4)) \<and> sock_out (world p') 4 = sock_out (world p) 4 @ req \<and>
       sock_out (world p') cfd = sock_out (world p) cfd @ ans (sock_in (world p) 4)) p"
proof -
  obtain hdr payload where b: "build_request line data = (hdr, payload)" by fastforce
  have inp: "sock_in (world p) cfd = enc_msg_header hdr @ payload @ []" using assms(6) b by (simp add: request_bytes_def)
  note asks = assms(7) [unfolded line_command_def b prod.case asks_helper_def, rule_format]
  show ?thesis
  proof (rule wp_unix_client_round [OF assms(1,4,5) b inp], goal_cases)
    case (1 p1 sc)
    show ?case
      by (rule wp_mono [OF asks [of p1]]) (use 1 assms(1-3) in auto)
  qed
qed

section \<open>One round of the helper\<close>

definition going_on :: "'a outcome \<Rightarrow> bool outcome" where
  "going_on r = (case r of Returned _ \<Rightarrow> Returned True | Exited \<Rightarrow> Exited | Running \<Rightarrow> Running | Undefined \<Rightarrow> Undefined)"

lemma wp_unix_command_round:
  assumes "hfd \<in> set (socks (world q))" "sendable argv session data"
    and "sock_in (world q) hfd = wire_request cmd argv session offset data @ rest"
    and "\<And>q1 sc. world q1 = (world q)\<lparr>sock_in := (sock_in (world q))(hfd := rest), sched := sc\<rparr> \<Longrightarrow>
      wp (handle_request fuel unix_kernel helper hfd (request_header cmd argv session offset (of_nat (length data))) argv data)
        (\<lambda>r. Q (going_on r)) q1"
  shows "wp (command_round fuel unix_kernel helper hfd) Q q"
proof -
  obtain q1 where q1: "sock_in (world q1) hfd = rest" "but_in hfd (world q1) = but_in hfd (world q)"
    "run_state (command_round fuel unix_kernel helper hfd) q =
     run_state (handle_request fuel unix_kernel helper hfd
        (request_header cmd argv session offset (of_nat (length data))) argv data \<bind>
      (\<lambda>r. State_Monad.return (going_on r))) q1"
    using helper_receives_request [OF assms(1-3), of fuel helper] unfolding going_on_def by blast
  show ?thesis
    unfolding wp_run q1(3) using assms(4) [OF but_in_eq [OF q1(2,1)]] unfolding wp_run by (simp add: split_beta)
qed

end
