(* ===== verification/End_To_End.thy ===== *)
theory End_To_End
  imports Wire_Exchange
begin

text \<open>
  From the user's terminal to the file tree and back: one turn of the client, one round
  of its handler and one round of the helper, connected by two streams.
\<close>

section \<open>A turn of the client\<close>

lemma wp_on_flags [wp_simps]:
  "wp (on_flags unix_flags f) Q p \<longleftrightarrow>
     Q (fst (f (cflags (world p)))) (p\<lparr>world := (world p)\<lparr>cflags := snd (f (cflags (world p)))\<rparr>\<rparr>)"
  by (simp add: wp_def on_flags_def unix_flags_def split_beta)

lemma wp_unix_print [wp_simps]:
  "wp (say unix_kernel s) Q p \<longleftrightarrow>
     Q () (after_call p (StdioC (Puts s)) (res_val 0) ((world p)\<lparr>screen := screen (world p) @ s\<rparr>))"
  by (simp add: say_def wp_simps)

text \<open>
  What the terminal shows in a turn: the prompt, for a write the request to type the data,
  for a background command that it has been sent, and on a cleared line the answer.
\<close>

definition asked_for :: "string \<Rightarrow> string" where
  "asked_for cmd = prompt @
     (if is_write cmd then ''[Client]> Enter content (Ctrl+D to finish):'' @ newline else []) @
     (if background_of cmd then ''[Client]> Command sent to background...'' @ newline else [])"

definition dialogue :: "string \<Rightarrow> string \<Rightarrow> string" where
  "dialogue cmd answer = asked_for cmd @ clear_line @ answer"

definition sent_flags :: "bool \<Rightarrow> client_flags \<Rightarrow> client_flags" where
  "sent_flags bg f =
     (if bg then f\<lparr>bg_ops_count := bg_ops_count f + 1, waiting_for_response := False\<rparr>
      else f\<lparr>waiting_for_response := True\<rparr>)"

lemma wp_mark_sent:
  assumes "\<And>p'. world p' = (world p)\<lparr>cflags := sent_flags bg (cflags (world p)), screen := screen (world p) @
      (if bg then ''[Client]> Command sent to background...'' @ newline else [])\<rparr> \<Longrightarrow> Q () p'"
  shows "wp (mark_sent unix_kernel unix_flags bg) Q p"
  by (cases bg) (auto simp: mark_sent_def sent_flags_def wp_simps wp_on_flags intro!: assms)

lemma wp_record_content:
  assumes "0 \<in> set (socks (world p))" "length (sock_in (world p) 0) < fuel"
    and "\<And>p' sc. world p' = (world p)\<lparr>sock_in := (sock_in (world p))(0 := []), sched := sc\<rparr> \<Longrightarrow>
      Q (Some (buf @ sock_in (world p) 0)) p'"
  shows "wp (record_content fuel unix_kernel buf) Q p"
  using assms
proof (induction fuel arbitrary: p buf)
  case (Suc fuel)
  let ?k = "piece (world p) (min 1024 (length (sock_in (world p) 0)))"
  show ?case
  proof (cases "sock_in (world p) 0 = []")
    case True
    then have "?k = 0" using piece_le [of "world p" 0] by simp
    then show ?thesis
      unfolding record_content.simps wp_bind
      apply (intro wp_unix_sysI)
      apply (simp add: Suc.prems(1) True Let_def wp_return)
      apply (rule Suc.prems(3) [simplified True append_Nil2])
      apply (simp add: True fun_upd_idem)
      done
  next
    case False
    have k: "?k \<noteq> 0" "?k \<le> length (sock_in (world p) 0)"
      using False piece_pos [of "min 1024 (length (sock_in (world p) 0))" "world p"]
        piece_le [of "world p" "min 1024 (length (sock_in (world p) 0))"] by auto
    show ?thesis
      unfolding record_content.simps wp_bind
      apply (intro wp_unix_sysI)
      apply (simp add: Suc.prems(1) Let_def k(1) del: min.bounded_iff cong: step_congs)
      apply (rule Suc.IH)
        apply (simp_all add: Suc.prems(1))
      subgoal using k Suc.prems(2) by simp
      apply (rule Suc.prems(3), simp add: fun_upd_def cong: if_cong)
      done
  qed
qed simp

lemma wp_unix_write_round:
  assumes "tty (world c) = l # ls" "strip_newline l = cmd" "cmd \<noteq> []" "cmd \<noteq> ''exit''"
    and "fd \<in> set (socks (world c))" "fd \<noteq> 0"
    and "is_write cmd \<Longrightarrow> 0 \<in> set (socks (world c)) \<and> length (sock_in (world c) 0) < fuel"
    and "data = (if is_write cmd then sock_in (world c) 0 else [])"
    and "\<And>c'. socks (world c') = socks (world c) \<Longrightarrow> sock_in (world c') fd = sock_in (world c) fd \<Longrightarrow>
      sock_out (world c') fd = sock_out (world c) fd @ request_bytes cmd data \<Longrightarrow>
      screen (world c') = screen (world c) @ asked_for cmd \<Longrightarrow> started (world c') = started (world c) \<Longrightarrow>
      cflags (world c') = sent_flags (background_of cmd)
        (if is_write cmd then (cflags (world c))\<lparr>is_writing_content := False\<rparr> else cflags (world c)) \<Longrightarrow>
      Q (Returned True) c'"
  shows "wp (write_round fuel unix_kernel unix_flags fd) Q c"
proof -
  obtain hdr payload where b: "build_request cmd data = (hdr, payload)" by fastforce
  have send: "wp (mark_sent unix_kernel unix_flags (background_of cmd))
      (\<lambda>a. wp (writeAll unix_kernel fd (enc_msg_header hdr) \<bind>
        (\<lambda>_. writeAll unix_kernel fd payload \<bind> (\<lambda>_. State_Monad.return (Returned True)))) Q) c1"
    if "socks (world c1) = socks (world c)" "sock_in (world c1) fd = sock_in (world c) fd" "started (world c1) = started (world c)"
      "sock_out (world c1) = sock_out (world c)" "screen (world c1) = screen (world c) @ prompt @
        (if is_write cmd then ''[Client]> Enter content (Ctrl+D to finish):'' @ newline else [])"
      "cflags (world c1) =
        (if is_write cmd then (cflags (world c))\<lparr>is_writing_content := False\<rparr> else cflags (world c))" for c1
    apply (rule wp_mark_sent)
    apply (simp only: wp_bind)
    apply (rule wp_unix_say)
     apply (simp add: that assms(5))
    apply (simp only: wp_bind)
    apply (rule wp_unix_say)
     apply (simp add: that assms(5))
    apply (simp only: wp_return)
    apply (rule assms(9))
         apply (simp_all add: that request_bytes_def b asked_for_def)
    done
  show ?thesis
  proof (cases "is_write cmd")
    case True
    then have d: "data = sock_in (world c) 0" "0 \<in> set (socks (world c))" "length (sock_in (world c) 0) < fuel"
      using assms(7,8) by auto
    show ?thesis
      unfolding write_round_def wp_bind wp_unix_print
      apply (intro wp_unix_sysI)
      apply (simp add: assms(1-4) True Let_def wp_bind wp_on_flags wp_unix_print del: append.simps cong: step_congs)
      apply (rule wp_record_content)
        apply (simp_all add: d(2,3) del: append.simps)
      apply (simp only: option.case wp_bind wp_on_flags fst_conv snd_conv d(1) [symmetric] append_Nil append.simps(1) b prod.case)
      apply (rule send)
           apply (simp_all add: True assms(6))
      done
  next
    case False
    then have d: "data = []" using assms(8) by simp
    show ?thesis
      unfolding write_round_def wp_bind wp_unix_print
      apply (intro wp_unix_sysI)
      apply (simp add: assms(1-4) False Let_def wp_bind wp_return wp_on_flags cong: step_congs)
      apply (simp only: b [unfolded d] Let_def prod.case wp_bind [of "mark_sent unix_kernel unix_flags (background_of cmd)"])
      apply (rule send)
           apply (simp_all add: False)
      done
  qed
qed

text \<open>A message, and the thread it starts.\<close>

definition sized :: "msg_header \<Rightarrow> bytes \<Rightarrow> bool" where
  "sized h body \<longleftrightarrow> payloadLength h = of_nat (length body) \<and> body \<noteq> [] \<and> length body < 2 ^ 32 - 1"

definition threads_of :: "stdio_call option \<Rightarrow> (bool \<times> int \<times> string \<times> u8) list" where
  "threads_of t = (case t of Some (Thread_create up port path bg) \<Rightarrow> [(up, port, path, bg)] | _ \<Rightarrow> [])"

lemma wp_unix_start_thread:
  assumes "\<And>p' n. world p' = (world p)\<lparr>started := started (world p) @ threads_of (transfer_of h b)\<rparr> \<Longrightarrow> Q n p'"
  shows "wp (case transfer_of h b of None \<Rightarrow> State_Monad.return 0 | Some t \<Rightarrow> call unix_kernel (StdioC t)) Q p"
proof (cases "transfer_of h b")
  case None
  have "world p = (world p)\<lparr>started := started (world p) @ []\<rparr>" by simp
  then show ?thesis using assms [of p 0] None by (simp add: threads_of_def wp_return)
next
  case (Some t)
  then obtain u port path bg where "t = Thread_create u port path bg" by (auto simp: transfer_of_def split: if_splits)
  then show ?thesis using Some by (auto simp: threads_of_def intro!: wp_unix_callI assms)
qed

lemma wp_unix_read_message:
  assumes "fd \<in> set (socks (world c))" "sock_in (world c) fd = enc_msg_header h @ body @ rest" "sized h body" "\<not> path_overruns h (body @ [NUL])"
    and "\<And>c'. screen (world c') = screen (world c) @ clear_line @ shown (is_writing_content (cflags (world c))) h (body @ [NUL]) \<Longrightarrow>
      cflags (world c') = answer_flags h (cflags (world c)) \<Longrightarrow> sock_out (world c') = sock_out (world c) \<Longrightarrow>
      socks (world c') = socks (world c) \<Longrightarrow> sock_in (world c') fd = rest \<Longrightarrow>
      started (world c') = started (world c) @ threads_of (transfer_of h (body @ [NUL])) \<Longrightarrow> Q (Returned True) c'"
  shows "wp (read_round unix_kernel unix_flags fd) Q c"
proof -
  have len: "unat (payloadLength h) = length body"
    using assms(3) length_u32(1) [of "length body"] by (simp add: sized_def)
  have ne: "payloadLength h \<noteq> 0" "payloadLength h + 1 \<noteq> 0"
    using assms(3) length_u32(2,3) [of "length body"] by (auto simp: sized_def)
  have w: "length (enc_msg_header h) = 16" "dec_msg_header (enc_msg_header h) = h"
    using header_codec.enc_width [of h] header_codec.dec_enc [of h] by auto
  have pos: "\<not> int (length body) \<le> 0" using assms(3) by (auto simp: sized_def)
  show ?thesis
    unfolding read_round_def wp_bind
    apply (rule wp_unix_take [OF assms(1,2) w(1)])
    apply (simp add: w(2) ne wp_bind Let_def cong: step_congs)
    apply (rule wp_unix_take [of fd _ body rest])
       apply (simp add: assms(1))
      apply simp
     apply (simp add: len)
    apply (simp only: prod.case len pos assms(4) if_False wp_bind wp_on_flags wp_unix_print fst_conv snd_conv w(2) wp_return)
    apply (rule wp_unix_start_thread)
    apply (simp only: wp_bind wp_on_flags fst_conv snd_conv wp_return)
    apply (rule assms(5))
         apply simp_all
    done
qed

text \<open>A message that starts no transfer.\<close>

definition plain_message :: "msg_header \<Rightarrow> bytes \<Rightarrow> bool" where
  "plain_message h body \<longleftrightarrow> sized h body \<and> \<not> is_data_type (hdr_type h)"

lemma wp_unix_read_round:
  assumes "fd \<in> set (socks (world c))" "sock_in (world c) fd = enc_msg_header h @ body @ rest" "plain_message h body"
    and "\<And>c'. screen (world c') = screen (world c) @ clear_line @ shown (is_writing_content (cflags (world c))) h (body @ [NUL]) \<Longrightarrow>
      cflags (world c') = answer_flags h (cflags (world c)) \<Longrightarrow> sock_out (world c') = sock_out (world c) \<Longrightarrow>
      Q (Returned True) c'"
  shows "wp (read_round unix_kernel unix_flags fd) Q c"
  by (rule wp_unix_read_message [OF assms(1,2)]) (use assms(3,4) in \<open>auto simp: plain_message_def path_overruns_def\<close>)

lemma transfer_of_thread: "transfer_of h b = Some t \<Longrightarrow> \<exists>u port path bg. t = Thread_create u port path bg"
  by (auto simp: transfer_of_def split: if_splits)

lemma wp_unix_read_any:
  assumes "fd \<in> set (socks (world c))"
  shows "wp (read_round unix_kernel unix_flags fd) (\<lambda>r c'. sock_out (world c') = sock_out (world c)) c"
  unfolding read_round_def wp_bind
  apply (rule wp_unix_hear_any [OF assms])
  apply (auto simp: wp_simps assms Let_def split: option.split
      dest!: transfer_of_thread intro!: wp_unix_hear_any)
  done

text \<open>
  One turn: the thread that writes sends a command, then the thread that reads takes
  the answer (the first waits for the second).
\<close>

definition client_turn :: "nat \<Rightarrow> int \<Rightarrow> (unix, bool outcome) sysprog" where
  "client_turn fuel fd = do {
     _ \<leftarrow> write_round fuel unix_kernel unix_flags fd;
     read_round unix_kernel unix_flags fd
   }"

text \<open>The user types the line \<open>cmd\<close> and, for a write, \<open>data\<close> up to the end of the input.\<close>

definition types :: "unix \<Rightarrow> int \<Rightarrow> nat \<Rightarrow> string \<Rightarrow> bytes \<Rightarrow> bool" where
  "types w fd fuel cmd data \<longleftrightarrow> (\<exists>l ls. tty w = l # ls \<and> strip_newline l = cmd) \<and> cmd \<noteq> ''exit'' \<and>
     takeable cmd data \<and> fd \<in> set (socks w) \<and> fd \<noteq> 0 \<and>
     (if is_write cmd then 0 \<in> set (socks w) \<and> length data < fuel \<and> data = sock_in w 0 else data = [])"

lemma wp_client_turn:
  assumes "types (world c) fd fuel cmd data"
    and "\<And>c'. fd \<in> set (socks (world c')) \<Longrightarrow> sock_in (world c') fd = sock_in (world c) fd \<Longrightarrow>
      sock_out (world c') fd = sock_out (world c) fd @ request_bytes cmd data \<Longrightarrow>
      screen (world c') = screen (world c) @ asked_for cmd \<Longrightarrow> started (world c') = started (world c) \<Longrightarrow>
      wp (read_round unix_kernel unix_flags fd) Q c'"
  shows "wp (client_turn fuel fd) Q c"
proof -
  obtain l ls where l: "tty (world c) = l # ls" "strip_newline l = cmd" using assms(1) by (auto simp: types_def)
  have t: "cmd \<noteq> ''exit''" "fd \<in> set (socks (world c))" "fd \<noteq> 0" "data = (if is_write cmd then sock_in (world c) 0 else [])"
      "is_write cmd \<Longrightarrow> 0 \<in> set (socks (world c)) \<and> length (sock_in (world c) 0) < fuel"
    using assms(1) by (auto simp: types_def split: if_splits)
  have ne: "cmd \<noteq> []" using assms(1) by (auto simp: types_def takeable_def words_of_def)
  show ?thesis
    unfolding client_turn_def wp_bind
    by (rule wp_unix_write_round [OF l ne t(1-3,5,4)]) (auto intro!: assms(2) simp: t(2))
qed

text \<open>What a program sends on \<open>fd\<close>.\<close>

definition new_bytes :: "int \<Rightarrow> (unix, 'a) sysprog \<Rightarrow> unix proc \<Rightarrow> bytes" where
  "new_bytes fd m p = drop (length (sock_out (world p) fd)) (sock_out (world (snd (run_state m p))) fd)"

lemma new_bytesI: "wp m (\<lambda>r p'. sock_out (world p') fd = sock_out (world p) fd @ bs) p \<Longrightarrow> new_bytes fd m p = bs"
  by (simp add: wp_run new_bytes_def)

lemma client_turn_sends:
  assumes "types (world c) fd fuel cmd data"
  shows "new_bytes fd (client_turn fuel fd) c = request_bytes cmd data"
  by (rule new_bytesI, rule wp_client_turn [OF assms], rule wp_mono, rule wp_unix_read_any) auto

section \<open>Three processes and two connections\<close>

text \<open>
  The client's socket \<open>fd\<close> ends at the handler's \<open>cfd\<close>, the handler's socket 4 at the
  helper's \<open>hfd\<close>: what can be read at one end is what is sent at the other.
\<close>

definition connected ::
  "int \<Rightarrow> int \<Rightarrow> int \<Rightarrow> (unix, 'a) sysprog \<Rightarrow> unix proc \<Rightarrow> (unix, 'b) sysprog \<Rightarrow> unix proc \<Rightarrow>
   (unix, 'c) sysprog \<Rightarrow> unix proc \<Rightarrow> bool" where
  "connected fd cfd hfd mc c ms p mh q \<longleftrightarrow>
     cfd \<in> set (socks (world p)) \<and> 4 \<in> set (socks (world p)) \<and> cfd \<noteq> 4 \<and> \<not> sigflag (world p) \<and>
     hfd \<in> set (socks (world q)) \<and>
     sock_in (world p) cfd = new_bytes fd mc c \<and> sock_in (world c) fd = new_bytes cfd ms p \<and>
     sock_in (world q) hfd = new_bytes 4 ms p \<and> sock_in (world p) 4 = new_bytes hfd mh q"

text \<open>Whatever the helper sends for a request, and what the request does to its world.\<close>

definition helper_does ::
  "nat \<Rightarrow> Helper \<Rightarrow> int \<Rightarrow> unix \<Rightarrow> helper_commands \<Rightarrow> string list \<Rightarrow> ClientSession \<Rightarrow> int \<Rightarrow> bytes \<Rightarrow>
   bytes \<Rightarrow> (unix \<Rightarrow> bool) \<Rightarrow> bool" where
  "helper_does fuel helper hfd w cmd argv s offset data answer E \<longleftrightarrow>
     (\<forall>q1 sc. world q1 = w\<lparr>sock_in := (sock_in w)(hfd := []), sched := sc\<rparr> \<longrightarrow>
        wp (handle_request fuel unix_kernel helper hfd (request_header cmd argv s offset (of_nat (length data))) argv data)
          (\<lambda>r q'. sock_out (world q') hfd = sock_out w hfd @ answer \<and> E (world q')) q1)"

lemma helper_doesI:
  assumes "\<And>q1 sc. world q1 = w\<lparr>sock_in := (sock_in w)(hfd := []), sched := sc\<rparr> \<Longrightarrow>
    wp (handle_request fuel unix_kernel helper hfd (request_header cmd argv s offset (of_nat (length data))) argv data)
      (\<lambda>r q'. sock_out (world q') hfd = sock_out w hfd @ answer \<and> E (world q')) q1"
  shows "helper_does fuel helper hfd w cmd argv s offset data answer E"
  using assms unfolding helper_does_def by blast

lemma conversation:
  assumes "connected fd cfd hfd (client_turn fuel fd) c (client_round fuel1 unix_kernel M junk cfd s) p
      (command_round fuel2 unix_kernel helper hfd) q"
    and "types (world c) fd fuel cmd data"
    and asks: "asks_helper_by (shared (world p)) R cfd (wire_request hc argv hs offset hdata) ans res
      (line_command fuel1 M junk cfd cmd data s)"
    and "sendable argv hs hdata"
    and helper: "helper_does fuel2 helper hfd (world q) hc argv hs offset hdata answer E"
    and "ans answer = enc_msg_header h @ body" "plain_message h body" "is_background h = 0"
  shows "E (world (snd (run_state (command_round fuel2 unix_kernel helper hfd) q)))"
    "fst (run_state (client_round fuel1 unix_kernel M junk cfd s) p) = continue_with (res answer)"
    "shared (world (snd (run_state (client_round fuel1 unix_kernel M junk cfd s) p))) = R (my_pid (world p)) answer"
    "\<exists>b. screen (world (snd (run_state (client_turn fuel fd) c))) = screen (world c) @ dialogue cmd (shown b h (body @ [NUL]))"
    "\<not> waiting_for_response (cflags (world (snd (run_state (client_turn fuel fd) c))))"
proof -
  let ?mc = "client_turn fuel fd" and ?ms = "client_round fuel1 unix_kernel M junk cfd s"
    and ?mh = "command_round fuel2 unix_kernel helper hfd"
  note con = assms(1) [unfolded connected_def]
  have in1: "sock_in (world p) cfd = request_bytes cmd data"
    using con client_turn_sends [OF assms(2)] by simp
  have take: "takeable cmd data" "fd \<in> set (socks (world c))" using assms(2) by (simp_all add: types_def)
  note round = round_asks [OF _ _ _ _ take(1) in1 asks, unfolded wp_run]
  have "new_bytes 4 ?ms p = wire_request hc argv hs offset hdata"
    by (rule new_bytesI) (use round con in \<open>simp add: wp_run\<close>)
  then have in2: "sock_in (world q) hfd = wire_request hc argv hs offset hdata @ []" using con by simp
  have hfd: "hfd \<in> set (socks (world q))" using con by simp
  have h: "wp ?mh (\<lambda>r q'. sock_out (world q') hfd = sock_out (world q) hfd @ answer \<and> E (world q')) q"
    by (rule wp_unix_command_round [OF hfd assms(4) in2]) (rule helper [unfolded helper_does_def, rule_format])
  then show "E (world (snd (run_state ?mh q)))" by (simp add: wp_run)
  have "new_bytes hfd ?mh q = answer" by (rule new_bytesI, rule wp_mono [OF h]) simp
  then have in4: "sock_in (world p) 4 = answer" using con by simp
  show "fst (run_state ?ms p) = continue_with (res answer)" "shared (world (snd (run_state ?ms p))) = R (my_pid (world p)) answer"
    using round con in4 by simp_all
  have "new_bytes cfd ?ms p = enc_msg_header h @ body"
    by (rule new_bytesI) (use round con in4 assms(6) in \<open>simp add: wp_run\<close>)
  then have in3: "sock_in (world c) fd = enc_msg_header h @ body @ []" using con by simp
  have "wp ?mc (\<lambda>r c'. (\<exists>b. screen (world c') = screen (world c) @ dialogue cmd (shown b h (body @ [NUL]))) \<and>
      \<not> waiting_for_response (cflags (world c'))) c"
  proof (rule wp_client_turn [OF assms(2)], goal_cases)
    case (1 c')
    show ?case
      by (rule wp_unix_read_round [of fd c' h body "[]"])
        (use 1 in3 assms(7,8) in \<open>auto simp: answer_flags_def plain_message_def dialogue_def\<close>)
  qed
  then show "\<exists>b. screen (world (snd (run_state ?mc c))) = screen (world c) @ dialogue cmd (shown b h (body @ [NUL]))"
    "\<not> waiting_for_response (cflags (world (snd (run_state ?mc c))))"
    by (simp_all add: wp_run)
qed

section \<open>The words of a line\<close>

lemma split_on_space_bound: "w \<in> set (split_on_space s) \<Longrightarrow> set w \<subseteq> set s \<and> length w \<le> length s"
  by (induction s arbitrary: w) (force split: list.splits if_splits)+

lemma words_of_bound: "w \<in> set (words_of s) \<Longrightarrow> set w \<subseteq> set s \<and> length w \<le> length s"
  using split_on_space_bound by (auto simp: words_of_def)

lemma takeable_word:
  assumes "takeable line data" "w \<in> set (words_of line)"
  shows "NUL \<notin> set w" "length w < 2 ^ 32 - 1"
  using assms words_of_bound [OF assms(2)] by (auto simp: takeable_def)

lemma is_write_word:
  assumes "is_write line"
  shows "hd (words_of line) = ''write''"
proof -
  have "take 6 line = ''write ''" using assms by (simp add: is_write_def has_prefix_def numeral_eq_Suc)
  then have "line = ''write'' @ SPC # drop 6 line" using append_take_drop_id [of 6 line] by simp
  then have "words_of line = ''write'' # words_of (drop 6 line)" using words_of_word(1) [of "''write''" "drop 6 line"] by simp
  then show ?thesis by simp
qed

lemma offset_and_path_usage: "offset_and_path a b argv = Inr x \<Longrightarrow> offset_and_path c d argv = Inr x"
  by (auto simp: offset_and_path_def split: if_splits)

lemma offset_and_path_word: "offset_and_path a b argv = Inr (n, path) \<Longrightarrow> path \<in> set argv"
  by (auto simp: offset_and_path_def split: if_splits)

text \<open>The command by the first word of the line, and what it asks the helper.\<close>

lemma line_command_words:
  assumes "takeable line data" "length (words_of line) \<le> MAXARGS"
  obtains tb n where "argv_strings tb = words_of line" "line_command fuel M junk cfd line data s
      = run_command fuel unix_kernel M junk cfd tb n s"
    "\<And>hdr payload. build_request line data = (hdr, payload) \<Longrightarrow>
      tb = tokenizeCommand (payload @ [NUL]) \<and> n = payloadLength hdr"
proof -
  obtain hdr payload where b: "build_request line data = (hdr, payload)" by fastforce
  have "argv_strings (tokenizeCommand (payload @ [NUL])) = words_of line"
    using takeable_tokens(1) [OF assms(1) built(1) [OF b assms(1)]] assms(2) by simp
  then show thesis by (rule that) (simp_all add: line_command_def b)
qed

lemma write_line:
  assumes "plain_line line" "is_write line" "takeable line data"
    and "offset_and_path u u' (words_of line) = Inr (offset, path)" "sess_state s = STATE_LOGGED_IN"
  shows "asks_helper reg reg cfd (wire_request WRITE [path] s offset data) (relayed junk) (\<lambda>_. Returned s)
    (line_command fuel M junk cfd line data s)"
proof -
  obtain hdr payload where b: "build_request line data = (hdr, payload)" by fastforce
  have dl: "length line + 1 + length data < 2 ^ 32" "length data < 2 ^ 32" using assms(3) by (auto simp: takeable_def)
  have len: "length (words_of line) \<le> MAXARGS" using assms(1) by (simp add: plain_line_def)
  obtain tb n where tb: "argv_strings tb = words_of line" "line_command fuel M junk cfd line data s
      = run_command fuel unix_kernel M junk cfd tb n s" "tb = tokenizeCommand (payload @ [NUL])" "n = payloadLength hdr"
    using line_command_words [OF assms(3) len] b by metis
  note kept = write_data_roundtrip [OF assms(1,2) b dl(1), folded tb(3,4)]
  have "run_command fuel unix_kernel M junk cfd tb n s = handleWrite unix_kernel junk cfd tb n s"
    using is_write_word [OF assms(2)] tb(1) by (simp add: run_command_cases)
  then show ?thesis
    unfolding tb(2)
    using handleWrite_asks [OF assms(5) _ _ _ dl(2)] kept tb(1) offset_and_path_usage [OF assms(4)] by simp
qed

lemma read_line:
  assumes "takeable line []" "length (words_of line) \<le> MAXARGS" "hd (words_of line) = ''read''"
    and "offset_and_path u u' (words_of line) = Inr (offset, path)" "sess_state s = STATE_LOGGED_IN"
  shows "asks_helper reg reg cfd (wire_request READ [path] s offset []) (data_reply READCMD ''File is empty'' junk)
    (\<lambda>_. Returned s) (line_command fuel M junk cfd line [] s)"
proof -
  obtain tb n where tb: "argv_strings tb = words_of line" "line_command fuel M junk cfd line [] s
      = run_command fuel unix_kernel M junk cfd tb n s"
    using line_command_words [OF assms(1,2)] by metis
  have "run_command fuel unix_kernel M junk cfd tb n s = handleRead unix_kernel junk cfd (words_of line) s"
    using assms(3) tb(1) by (simp add: run_command_cases)
  then show ?thesis
    unfolding tb(2) using handleRead_asks [OF assms(5) offset_and_path_usage [OF assms(4)]] by simp
qed

lemma fixed_line:
  assumes "takeable line []" "words_of line = argv" "length argv \<le> MAXARGS"
  shows "hd argv = ''ls'' \<Longrightarrow> line_command fuel M junk cfd line [] s = handleLs unix_kernel junk cfd argv s"
    "hd argv = ''cd'' \<Longrightarrow> line_command fuel M junk cfd line [] s = handleCd unix_kernel junk cfd argv s"
    "hd argv = ''delete'' \<Longrightarrow> line_command fuel M junk cfd line [] s = handleDelete unix_kernel junk cfd argv s"
    "hd argv = ''accept'' \<Longrightarrow> line_command fuel M junk cfd line [] s = handleAcceptTransfer unix_kernel M junk cfd argv s"
    "hd argv = ''download'' \<Longrightarrow> line_command fuel M junk cfd line [] s = handleDownload unix_kernel junk cfd argv s"
    "hd argv = ''upload'' \<Longrightarrow> line_command fuel M junk cfd line [] s = handleUpload fuel unix_kernel junk cfd argv s"
    "hd argv = ''move'' \<Longrightarrow> line_command fuel M junk cfd line [] s = handleMove unix_kernel junk cfd argv s"
    "hd argv = ''create'' \<Longrightarrow> line_command fuel M junk cfd line [] s = handleCreateFile unix_kernel junk cfd argv s"
    "hd argv = ''chmod'' \<Longrightarrow> line_command fuel M junk cfd line [] s = handleChmod unix_kernel junk cfd argv s"
    "hd argv = ''login'' \<Longrightarrow> line_command fuel M junk cfd line [] s = handleLogin unix_kernel M junk cfd argv s"
    "hd argv = ''transfer_request'' \<Longrightarrow> line_command fuel M junk cfd line [] s = handleTransferRequest fuel unix_kernel M cfd argv s"
    "hd argv = ''reject'' \<Longrightarrow> line_command fuel M junk cfd line [] s = handleRejectTransfer unix_kernel M cfd argv s"
proof -
  have "length (words_of line) \<le> MAXARGS" using assms(2,3) by simp
  then obtain tb n where tb: "argv_strings tb = argv" "line_command fuel M junk cfd line [] s
      = run_command fuel unix_kernel M junk cfd tb n s"
    using line_command_words [OF assms(1)] assms(2) by metis
  show "hd argv = ''ls'' \<Longrightarrow> line_command fuel M junk cfd line [] s = handleLs unix_kernel junk cfd argv s"
    "hd argv = ''cd'' \<Longrightarrow> line_command fuel M junk cfd line [] s = handleCd unix_kernel junk cfd argv s"
    "hd argv = ''delete'' \<Longrightarrow> line_command fuel M junk cfd line [] s = handleDelete unix_kernel junk cfd argv s"
    "hd argv = ''accept'' \<Longrightarrow> line_command fuel M junk cfd line [] s = handleAcceptTransfer unix_kernel M junk cfd argv s"
    "hd argv = ''download'' \<Longrightarrow> line_command fuel M junk cfd line [] s = handleDownload unix_kernel junk cfd argv s"
    "hd argv = ''upload'' \<Longrightarrow> line_command fuel M junk cfd line [] s = handleUpload fuel unix_kernel junk cfd argv s"
    "hd argv = ''move'' \<Longrightarrow> line_command fuel M junk cfd line [] s = handleMove unix_kernel junk cfd argv s"
    "hd argv = ''create'' \<Longrightarrow> line_command fuel M junk cfd line [] s = handleCreateFile unix_kernel junk cfd argv s"
    "hd argv = ''chmod'' \<Longrightarrow> line_command fuel M junk cfd line [] s = handleChmod unix_kernel junk cfd argv s"
    "hd argv = ''login'' \<Longrightarrow> line_command fuel M junk cfd line [] s = handleLogin unix_kernel M junk cfd argv s"
    "hd argv = ''transfer_request'' \<Longrightarrow> line_command fuel M junk cfd line [] s = handleTransferRequest fuel unix_kernel M cfd argv s"
    "hd argv = ''reject'' \<Longrightarrow> line_command fuel M junk cfd line [] s = handleRejectTransfer unix_kernel M cfd argv s"
    unfolding tb(2) by (simp_all add: run_command_cases tb(1))
qed

section \<open>A refusal\<close>

lemma HandleHelperDelete_missing:
  assumes "sandboxable (world p) (req_session hdr)" "cfd \<in> set (socks (world p))"
    and "node_at (world p) (abs_path (in_home (world p) (req_session hdr)) path) = None"
  shows "wp (HandleHelperDelete unix_kernel cfd hdr path res)
    (\<lambda>r p'. sock_out (world p') cfd = sock_out (world p) cfd @ enc_response (set_msg (''Delete failed: '' @ strerror ENOENT) res) \<and>
       fs (world p') = fs (world p)) p"
  unfolding HandleHelperDelete_def wp_bind
  apply (rule wp_unix_sandbox [OF assms(1)])
  apply (simp add: wp_unix_sys assms(3) wp_get_errno wp_bind wp_return cong: step_congs)
  apply (simp add: unlock_out_def wp_bind wp_return cong: step_congs)
  apply (rule wp_unix_regain_respond)
   apply (simp_all add: assms(2))
  done

section \<open>The texts of the helper\<close>

lemma res_text_response: "res_text (enc_response a) = c_str (res_msg a @ le32 (res_cmd a) @ res_data a)"
  by (simp add: res_text_def enc_response_def)

lemma res_text_ok:
  "NUL \<notin> set msg \<Longrightarrow> length msg < RES_MSG \<Longrightarrow> res_text (enc_response (ok_answer msg n res)) = msg"
  by (simp add: res_text_response ok_answer_def set_msg_def c_str_snprintf)

lemma res_text_set:
  "NUL \<notin> set msg \<Longrightarrow> length msg < RES_MSG \<Longrightarrow> res_text (enc_response (set_msg msg res)) = msg"
  by (simp add: res_text_response set_msg_def c_str_snprintf)

lemma initial_response_wf [simp]: "response_wf (initial_response cmd)"
  by (simp add: initial_response_def response_wf_def)

lemma wire_text_message:
  "wire_text st 0 msg = enc_msg_header (make_header TEXT st (length msg + 1) 0) @ (msg @ [NUL])"
  by (simp add: wire_text_def)

lemma plain_text: "length msg < RES_MSG \<Longrightarrow> plain_message (make_header TEXT st (length msg + 1) 0) (msg @ [NUL])"
  by (simp add: plain_message_def sized_def is_data_type_def)

lemma relayed_response:
  assumes "response_wf a" "length junk = 5372"
  shows "relayed junk (enc_response a) = wire_text (res_status a) 0 (res_text (enc_response a))"
  using answer_of_response [OF assms, of "[]"] by (simp add: relayed_def)

section \<open>The helper's world\<close>

lemma helper_world [simp]:
  "sandboxable (w\<lparr>sock_in := f, sched := sc\<rparr>) s = sandboxable w s"
  "fresh_fd (w\<lparr>sock_in := f, sched := sc\<rparr>) = fresh_fd w"
  "writable (w\<lparr>sock_in := f, sched := sc\<rparr>) q k c m = writable w q k c m"
  "in_home (w\<lparr>sock_in := f, sched := sc\<rparr>) s = (in_home w s)\<lparr>sock_in := f, sched := sc\<rparr>"
  "abs_path (w\<lparr>sock_in := f, sched := sc\<rparr>) x = abs_path w x"
  "is_dir (w\<lparr>sock_in := f, sched := sc\<rparr>) q = is_dir w q"
  "node_at (w\<lparr>sock_in := f, sched := sc\<rparr>) q = node_at w q"
  by (simp_all add: sandboxable_def home_root_def fresh_fd_def writable_def in_home_def abs_path_def is_dir_def node_at_def)

lemma helper_root_world [simp]:
  "list_dir (w\<lparr>sock_in := f, sched := sc\<rparr>) d s = list_dir w d s"
  "in_root (w\<lparr>sock_in := f, sched := sc\<rparr>) d s = (in_root w d s)\<lparr>sock_in := f, sched := sc\<rparr>"
  "children (w\<lparr>sock_in := f, sched := sc\<rparr>) q = children w q"
  "listable (w\<lparr>sock_in := f, sched := sc\<rparr>) x = listable w x"
  "nameable (w\<lparr>sock_in := f, sched := sc\<rparr>) x = nameable w x"
  "listed (w\<lparr>sock_in := f, sched := sc\<rparr>) q = listed w q"
  by (simp_all add: list_dir_def in_root_def root_of_def children_def listable_def nameable_def listed_def abs_path_def node_at_def fun_eq_iff)

lemma request_header_more [simp]:
  "req_cmd (request_header cmd argv session offset n) = command_code cmd"
  "0 \<le> offset \<Longrightarrow> offset < 2 ^ 31 \<Longrightarrow> sint (req_offset (request_header cmd argv session offset n)) = offset"
  by (simp_all add: request_header_def signed_of_int signed_take_bit_int_eq_self)

text \<open>A conversation that ends with a text for the user.\<close>

lemma text_conversation:
  assumes "connected fd cfd hfd (client_turn fuel fd) c (client_round fuel1 unix_kernel M junk cfd s) p
      (command_round fuel2 unix_kernel helper hfd) q"
    and "types (world c) fd fuel cmd data"
    and "asks_helper_by (shared (world p)) R cfd (wire_request hc argv hs offset hdata) ans res
      (line_command fuel1 M junk cfd cmd data s)"
    and "sendable argv hs hdata"
    and "helper_does fuel2 helper hfd (world q) hc argv hs offset hdata answer E"
    and "ans answer = wire_text st 0 msg" "NUL \<notin> set msg" "length msg < RES_MSG"
  shows "E (world (snd (run_state (command_round fuel2 unix_kernel helper hfd) q)))"
    "fst (run_state (client_round fuel1 unix_kernel M junk cfd s) p) = continue_with (res answer)"
    "shared (world (snd (run_state (client_round fuel1 unix_kernel M junk cfd s) p))) = R (my_pid (world p)) answer"
    "screen (world (snd (run_state (client_turn fuel fd) c))) = screen (world c) @ dialogue cmd (''[Server]> '' @ msg @ [CHR 0x0A])"
    "\<not> waiting_for_response (cflags (world (snd (run_state (client_turn fuel fd) c))))"
proof -
  have bg: "is_background (make_header TEXT st (length msg + 1) 0) = 0" by simp
  note talk = conversation [where E = E, OF assms(1-5) assms(6) [unfolded wire_text_message] plain_text [OF assms(8)] bg]
  show "E (world (snd (run_state (command_round fuel2 unix_kernel helper hfd) q)))"
    by (rule talk(1))
  show "fst (run_state (client_round fuel1 unix_kernel M junk cfd s) p) = continue_with (res answer)"
    by (rule talk(2))
  show "shared (world (snd (run_state (client_round fuel1 unix_kernel M junk cfd s) p))) = R (my_pid (world p)) answer"
    by (rule talk(3))
  show "\<not> waiting_for_response (cflags (world (snd (run_state (client_turn fuel fd) c))))"
    by (rule talk(5))
  have sh: "shown b (make_header TEXT st (length msg + 1) 0) ((msg @ [NUL]) @ [NUL]) = ''[Server]> '' @ msg @ [CHR 0x0A]" for b
    using message_shown(1) [OF assms(7), of 0] by simp
  show "screen (world (snd (run_state (client_turn fuel fd) c))) = screen (world c) @ dialogue cmd (''[Server]> '' @ msg @ [CHR 0x0A])"
    using talk(4) unfolding sh by (elim exE)
qed

text \<open>What the helper has confirmed is what the user reads.\<close>

lemma relayed_ok:
  assumes "length junk = 5372" "NUL \<notin> set msg" "length msg < RES_MSG"
  shows "relayed junk (enc_response (ok_answer msg n (initial_response cmd))) = wire_text 0 0 msg"
  using relayed_response [OF ok_answer_wf [OF initial_response_wf] assms(1)] res_text_ok [OF assms(2,3)] by simp

lemma relayed_refusal:
  assumes "length junk = 5372" "NUL \<notin> set msg" "length msg < RES_MSG"
  shows "relayed junk (enc_response (set_msg msg (initial_response cmd))) = wire_text (- 1) 0 msg"
proof -
  have "response_wf (set_msg msg (initial_response cmd))" "res_status (set_msg msg (initial_response cmd)) = - 1"
    by (simp_all add: response_wf_def set_msg_def initial_response_def length_snprintf)
  then show ?thesis using relayed_response assms(1) res_text_set [OF assms(2,3)] by simp
qed

lemma connected_hfd: "connected fd cfd hfd mc c ms p mh q \<Longrightarrow> hfd \<in> set (socks (world q))"
  by (simp add: connected_def)

text \<open>Data behind an answer reaches the client as one message, or as a text when there is none.\<close>

lemma data_reply_response:
  assumes "response_wf a" "res_status a = 0" "length junk = 5372" "res_payload_len a = of_nat (length b)"
    and "length b < 2 ^ 32 - 1"
  shows "data_reply type e junk (enc_response a @ b) =
    (if b = [] then wire_text 0 0 e else enc_msg_header (make_header type 0 (length b) 0) @ b)"
proof -
  have d: "drop 5372 (enc_response a @ b) = b" using response_codec.frame [OF assms(1)] by simp
  have l: "unat (of_nat (length b) :: u32) = length b" "(0 :: u32) < of_nat (length b) \<longleftrightarrow> b \<noteq> []"
    using length_u32(1) [OF assms(5)] of_nat_u32_pos [of "length b"] assms(5) by simp_all
  show ?thesis
    unfolding data_reply_def answer_of_response [OF assms(1,3)] prod.case response_codec.dec_enc [OF assms(1)]
      assms(2,4) Let_def l d passed_on_def
    by simp
qed

lemma plain_data:
  "type \<noteq> DOWNLOAD_RES \<Longrightarrow> type \<noteq> UPLOAD_RES \<Longrightarrow> b \<noteq> [] \<Longrightarrow> length b < 2 ^ 32 - 1 \<Longrightarrow>
   plain_message (make_header type 0 (length b) 0) b"
  by (cases type) (simp_all add: plain_message_def sized_def is_data_type_def)

lemma data_conversation:
  assumes "connected fd cfd hfd (client_turn fuel fd) c (client_round fuel1 unix_kernel M junk cfd s) p
      (command_round fuel2 unix_kernel helper hfd) q"
    and "types (world c) fd fuel cmd data"
    and "asks_helper_by (shared (world p)) R cfd (wire_request hc argv hs offset hdata) (data_reply type e junk) res
      (line_command fuel1 M junk cfd cmd data s)"
    and "sendable argv hs hdata"
    and "helper_does fuel2 helper hfd (world q) hc argv hs offset hdata (enc_response a @ b) E"
    and "response_wf a" "res_status a = 0" "length junk = 5372" "res_payload_len a = of_nat (length b)"
    and "length b < 2 ^ 32 - 1" "type \<noteq> DOWNLOAD_RES" "type \<noteq> UPLOAD_RES" "NUL \<notin> set e" "length e < RES_MSG"
    and "\<And>x. b \<noteq> [] \<Longrightarrow> shown x (make_header type 0 (length b) 0) (b @ [NUL]) = text"
    and "b = [] \<Longrightarrow> text = ''[Server]> '' @ e @ [CHR 0x0A]"
  shows "E (world (snd (run_state (command_round fuel2 unix_kernel helper hfd) q)))"
    "screen (world (snd (run_state (client_turn fuel fd) c))) = screen (world c) @ dialogue cmd text"
    "\<not> waiting_for_response (cflags (world (snd (run_state (client_turn fuel fd) c))))"
proof -
  note out = data_reply_response [OF assms(6-10)]
  let ?c' = "world (snd (run_state (client_turn fuel fd) c))"
  have "E (world (snd (run_state (command_round fuel2 unix_kernel helper hfd) q))) \<and>
    screen ?c' = screen (world c) @ dialogue cmd text \<and> \<not> waiting_for_response (cflags ?c')"
  proof (cases "b = []")
    case True
    then have o: "data_reply type e junk (enc_response a @ b) = wire_text 0 0 e" using out by simp
    show ?thesis
      using text_conversation(1,4,5) [where E = E, OF assms(1-5) o assms(13,14)] assms(16) [OF True] by simp
  next
    case False
    then have o: "data_reply type e junk (enc_response a @ b) = enc_msg_header (make_header type 0 (length b) 0) @ b"
      using out by simp
    have bg: "is_background (make_header type 0 (length b) 0) = 0" by simp
    note talk = conversation [where E = E, OF assms(1-5) o plain_data [OF assms(11,12) False assms(10)] bg]
    show ?thesis
      using talk(1,4,5) assms(15) [OF False] by auto
  qed
  then show "E (world (snd (run_state (command_round fuel2 unix_kernel helper hfd) q)))"
    "screen ?c' = screen (world c) @ dialogue cmd text" "\<not> waiting_for_response (cflags ?c')"
    by blast+
qed

section \<open>Connected processes exist\<close>

text \<open>
  A helper that is sent \<open>req\<close>, a handler that is sent the line and what that helper answers,
  and a client whose user types the line and that is sent what this handler answers.
\<close>

definition demo_q :: "unix \<Rightarrow> bytes \<Rightarrow> unix proc" where
  "demo_q w req = fresh_proc (w\<lparr>sock_in := (\<lambda>_. req), sched := [2, 0, 7]\<rparr>) 0"

definition demo_p :: "SharedRegistry \<Rightarrow> string \<Rightarrow> bytes \<Rightarrow> (unix, 'a) sysprog \<Rightarrow> unix proc \<Rightarrow> unix proc" where
  "demo_p reg line data mh q = fresh_proc (demo_world\<lparr>socks := [4, 5], shared := reg,
     sock_in := (\<lambda>x. if x = 5 then request_bytes line data else new_bytes 4 mh q)\<rparr>) 0"

definition demo_c :: "string \<Rightarrow> bytes \<Rightarrow> (unix, 'a) sysprog \<Rightarrow> unix proc \<Rightarrow> unix proc" where
  "demo_c line data ms p = fresh_proc (demo_world\<lparr>socks := [0, 3], tty := [line @ [CHR 0x0A]],
     sock_in := (\<lambda>x. if x = 0 then data else new_bytes 5 ms p)\<rparr>) 0"

lemma demo_ends [simp]:
  "world (demo_q w req) = w\<lparr>sock_in := (\<lambda>_. req), sched := [2, 0, 7]\<rparr>"
  "socks (world (demo_p reg line data mh q)) = [4, 5]" "shared (world (demo_p reg line data mh q)) = reg"
  "sigflag (world (demo_p reg line data mh q)) = False"
  "sock_in (world (demo_p reg line data mh q)) 5 = request_bytes line data"
  "sock_in (world (demo_p reg line data mh q)) 4 = new_bytes 4 mh q"
  "socks (world (demo_c line data ms p)) = [0, 3]" "sock_in (world (demo_c line data ms p)) 0 = data"
  "sock_in (world (demo_c line data ms p)) 3 = new_bytes 5 ms p" "tty (world (demo_c line data ms p)) = [line @ [CHR 0x0A]]"
  "screen (world (demo_c line data ms p)) = []"
  by (simp_all add: demo_q_def demo_p_def demo_c_def fresh_proc_def demo_world_def)

lemma strip_newline_line: "CHR 0x0A \<notin> set line \<Longrightarrow> NUL \<notin> set line \<Longrightarrow> strip_newline (line @ [CHR 0x0A]) = line"
  by (simp add: strip_newline_def c_str_def takeWhile_append)

lemma demo_types:
  assumes "takeable line data" "CHR 0x0A \<notin> set line" "line \<noteq> ''exit''"
    and "if is_write line then length data < fuel else data = []"
  shows "types (world (demo_c line data ms p)) 3 fuel line data"
  using assms strip_newline_line [of line] by (auto simp: types_def takeable_def)

lemma demo_connected:
  assumes "takeable line data" "CHR 0x0A \<notin> set line" "line \<noteq> ''exit''"
    and "if is_write line then length data < fuel else data = []"
    and "asks_helper_by reg R 5 req ans res (line_command fuel1 M junk 5 line data s)"
    and "mh = command_round fuel2 unix_kernel helper 4" "q = demo_q w req"
    and "ms = client_round fuel1 unix_kernel M junk 5 s" "p = demo_p reg line data mh q"
    and "c = demo_c line data ms p" "4 \<in> set (socks w)"
  shows "connected 3 5 4 (client_turn fuel 3) c ms p mh q" "types (world c) 3 fuel line data"
proof -
  show t: "types (world c) 3 fuel line data" unfolding assms(10) by (rule demo_types [OF assms(1-4)])
  have "new_bytes 4 ms p = req" unfolding assms(8)
    by (rule new_bytesI, rule wp_mono, rule round_asks [OF _ _ _ _ assms(1)]) (use assms(5) in \<open>auto simp: assms(9)\<close>)
  then show "connected 3 5 4 (client_turn fuel 3) c ms p mh q"
    using client_turn_sends [OF t] by (simp add: connected_def assms(7,9-11))
qed

end
