(* ===== verification/Whole_Way.thy ===== *)
theory Whole_Way
  imports End_To_End
begin

text \<open>
  What the program is for: the way of a command from the user's terminal through the
  client, the handler and the helper to the file tree, and of the answer back.
\<close>

section \<open>A session for the witnesses\<close>

definition session_of :: "string \<Rightarrow> ClientSession" where
  "session_of name = demo_session\<lparr>sess_state := STATE_LOGGED_IN,
     sess_username := strncpy MAX_USERNAME_LEN name (replicate MAX_USERNAME_LEN NUL)\<rparr>"

lemma session_of [simp]:
  "sess_state (session_of name) = STATE_LOGGED_IN" "session_wf (session_of name)"
  "session_home (session_of name) = ''/srv/bob''" "session_workdir (session_of name) = ''/''"
  "NUL \<notin> set name \<Longrightarrow> length name < MAX_USERNAME_LEN \<Longrightarrow> session_user (session_of name) = name"
  using demo_strings
  by (simp_all add: session_of_def session_home_def session_workdir_def session_user_def session_wf_def demo_session_def
      zero_session_def length_strncpy c_str_strncpy)

lemma session_of_home [simp]: "in_home w (session_of name) = in_home w demo_session" "sandboxable w (session_of name) = sandboxable w demo_session"
  by (simp_all add: in_home_def home_root_def sandboxable_def)

lemma demo_nodes [simp]:
  "node_at demo_world [''srv'', ''bob'', ''f''] = Some (File ''hello'' 0x180)" "node_at demo_world [''srv'', ''bob'', ''g''] = None"
  "is_dir demo_world [''srv'', ''bob'', ''d'']" "is_dir demo_world [''srv'']" "is_dir demo_world [''srv'', ''bob'']"
  by (simp_all add: node_at_def is_dir_def)

lemma four [simp]: "4 \<in> set (socks demo_world)"
  by simp

section \<open>Writing a file\<close>

text \<open>C7. The whole way of a write.  A user types a line with \<open>write\<close>, an offset or none and a path, and
  then the data; the client, the handler of a session that is logged in, and the helper take turns
  on connections that pass bytes on in pieces of any sizes.  Then the file in the user's home holds
  exactly the typed data at the offset, what it held before and behind it is kept, no other file
  has changed, the user reads \<open>Success\<close>, and the client takes the next command.\<close>

theorem write_end_to_end:
  assumes "connected fd cfd hfd (client_turn fuel fd) c (client_round fuel1 unix_kernel M junk cfd s) p
      (command_round fuel2 unix_kernel helper hfd) q"
    and "types (world c) fd fuel line data" "plain_line line" "is_write line"
    and "offset_and_path u u' (words_of line) = Inr (offset, path)" "0 \<le> offset" "offset < 2 ^ 31"
    and "sess_state s = STATE_LOGGED_IN" "session_wf s" "length junk = 5372"
    and "sandboxable (world q) s" "fresh_fd (world q)" "f = abs_path (in_home (world q) s) path"
    and "writable (in_home (world q) s) f 0x1C0 old m" "plain_mode m"
    and "w = world (snd (run_state (command_round fuel2 unix_kernel helper hfd) q))"
    and "c' = world (snd (run_state (client_turn fuel fd) c))"
  shows "node_at w f = Some (File (written old (nat offset) data) m) \<and>
    (\<forall>g. g \<noteq> f \<longrightarrow> node_at w g = node_at (world q) g) \<and>
    screen c' = screen (world c) @ dialogue line (''[Server]> Success'' @ [CHR 0x0A]) \<and> \<not> waiting_for_response (cflags c')"
proof -
  let ?a = "ok_answer ''Success'' 0 (initial_response (command_code WRITE))"
  have take: "takeable line data" using assms(2) by (simp add: types_def)
  then have dl: "length data < 2 ^ 32" by (auto simp: takeable_def)
  have path: "path \<in> set (words_of line)" by (rule offset_and_path_word [OF assms(5)])
  note asks = write_line [OF assms(3,4) take assms(5,8)]
  have send: "sendable [path] s data"
    using takeable_word [OF take path] dl assms(9) by (simp add: sendable_def)
  define E where "E = (\<lambda>w. node_at w f = Some (File (written old (nat offset) data) m) \<and>
    (\<forall>g. g \<noteq> f \<longrightarrow> node_at w g = node_at (world q) g))"
  have helper: "helper_does fuel2 helper hfd (world q) WRITE [path] s offset data (enc_response ?a) E"
  proof (rule helper_doesI, subst dispatch(2), goal_cases)
    case (2 q1 sc)
    have hfd: "hfd \<in> set (socks (world q1))" using connected_hfd [OF assms(1)] 2 by simp
    show ?case
      by (rule wp_mono [OF HandleHelperWrite_unix [OF _ hfd, where q = f and c = old and m = m]])
        (use 2 assms(6,7,11-15) length_u32(1) [of "length data"] take in \<open>auto simp: E_def takeable_def\<close>)
  qed simp
  have out: "relayed junk (enc_response ?a) = wire_text 0 0 ''Success''" by (rule relayed_ok) (simp_all add: assms(10))
  have msg: "NUL \<notin> set ''Success''" "length ''Success'' < RES_MSG" by simp_all
  note talk = text_conversation [where E = E, OF assms(1,2) asks send helper out msg]
  show ?thesis
    using talk(1,4,5) unfolding assms(16,17) [symmetric] E_def by auto
qed

lemma demo_number: "atoi ''7'' = 7"
  by code_simp

theorem write_end_to_end_witness:
  "node_at (world (snd (run_state (command_round 9 unix_kernel demo_helper 4)
     (demo_q demo_world (wire_request WRITE [''f''] (session_of ''bob'') 7 ''XY''))))) [''srv'', ''bob'', ''f'']
   = Some (File ''hello  XY'' 0x180)"
proof -
  let ?l = "''write -offset=7 f''" and ?s = "session_of ''bob''"
  have l: "plain_line ?l" "is_write ?l" "takeable ?l ''XY''" "words_of ?l = [''write'', ''-offset=7'', ''f'']"
    "CHR 0x0A \<notin> set ?l" "?l \<noteq> ''exit''" "if is_write ?l then length ''XY'' < 9 else ''XY'' = []"
    by (simp_all add: plain_line_def is_write_def has_prefix_def takeable_def words_of_def)
  have o: "offset_and_path [] [] (words_of ?l) = Inr (7, ''f'')"
    by (simp add: l(4) offset_and_path_def OFFSET_PREFIX_def has_prefix_def) (simp add: demo_number)
  note asks = write_line [OF l(1-3) o session_of(1), where reg = "init_registry 0" and cfd = 5 and junk = "replicate 5372 NUL"
      and fuel = 9 and M = unix_shm]
  note con = demo_connected [OF l(3,5-7) asks refl refl refl refl refl, where ?fuel2.0 = 9 and helper = demo_helper]
  show ?thesis
    using write_end_to_end [OF con [OF four] l(1,2) o _ _ session_of(1,2) _ _ _ refl _ _ refl refl, where old = "''hello''" and m = "0x180"]
    by (simp add: writable_def written_def replicate2)
qed

section \<open>Reading a file\<close>

text \<open>C8. The whole way of a read.  A user types a line with \<open>read\<close>, an offset or none and a path; then the
  user is shown exactly the at most 4096 bytes of the file in the home from the offset on, or that
  there are none, whatever the pieces of the connections; the tree is as it was and the client
  takes the next command.  What a longer file has behind these 4096 bytes is not sent, although the
  comment on the command promises the content of the file.\<close>

theorem read_end_to_end:
  assumes "connected fd cfd hfd (client_turn fuel fd) c (client_round fuel1 unix_kernel M junk cfd s) p
      (command_round fuel2 unix_kernel helper hfd) q"
    and "types (world c) fd fuel line []" "length (words_of line) \<le> MAXARGS" "hd (words_of line) = ''read''"
    and "offset_and_path u u' (words_of line) = Inr (offset, path)" "0 \<le> offset" "offset \<le> int (length content)"
    and "offset < 2 ^ 31" "sess_state s = STATE_LOGGED_IN" "session_wf s" "length junk = 5372"
    and "sandboxable (world q) s" "fresh_fd (world q)"
    and "node_at (world q) (abs_path (in_home (world q) s) path) = Some (File content m)" "plain_mode m"
    and "b = take 4096 (drop (nat offset) content)"
    and "w = world (snd (run_state (command_round fuel2 unix_kernel helper hfd) q))"
    and "c' = world (snd (run_state (client_turn fuel fd) c))"
  shows "screen c' = screen (world c) @ dialogue line (if b = [] then ''[Server]> File is empty'' @ [CHR 0x0A]
      else ''[Server]> Content:'' @ CHR 0x0A # b @ [CHR 0x0A]) \<and>
    \<not> waiting_for_response (cflags c') \<and> fs w = fs (world q)"
proof -
  let ?a = "ok_answer ''Success'' (of_nat (length b)) (initial_response (command_code READ))"
  have take: "takeable line []" using assms(2) by (simp add: types_def)
  have path: "path \<in> set (words_of line)" by (rule offset_and_path_word [OF assms(5)])
  note asks = read_line [OF take assms(3-5,9)]
  have send: "sendable [path] s []"
    using takeable_word [OF take path] assms(10) by (simp add: sendable_def)
  have helper: "helper_does fuel2 helper hfd (world q) READ [path] s offset [] (enc_response ?a @ b) (\<lambda>w. fs w = fs (world q))"
  proof (rule helper_doesI, subst dispatch(1), goal_cases)
    case (2 q1 sc)
    have hfd: "hfd \<in> set (socks (world q1))" using connected_hfd [OF assms(1)] 2 by simp
    show ?case
      by (rule wp_mono [OF HandleHelperRead_unix [OF _ hfd, where c = content and m = m]])
        (use 2 assms(6-8,12-16) in \<open>auto simp: Let_def\<close>)
  qed simp
  have b: "length b < 2 ^ 32 - 1" using assms(16) by simp
  have sh: "shown x (make_header READCMD 0 (length b) 0) (b @ [NUL]) = (if b = [] then ''[Server]> File is empty'' @ [CHR 0x0A]
      else ''[Server]> Content:'' @ CHR 0x0A # b @ [CHR 0x0A])" if "b \<noteq> []" for x
    using that length_u32(1) [OF b] of_nat_u32_pos [of "length b"] b by (simp add: shown_def)
  have e: "NUL \<notin> set ''File is empty''" "length ''File is empty'' < RES_MSG" by simp_all
  have wf: "response_wf ?a" "res_status ?a = 0" "res_payload_len ?a = of_nat (length b)" by simp_all
  have ty: "READCMD \<noteq> DOWNLOAD_RES" "READCMD \<noteq> UPLOAD_RES" by simp_all
  note talk = data_conversation [OF assms(1,2) asks send helper wf(1,2) assms(11) wf(3) b ty e sh]
  show ?thesis using talk unfolding assms(17,18) by simp
qed

theorem read_end_to_end_witness:
  "\<exists>c. screen (world (snd (run_state (client_turn 9 3) c)))
    = dialogue ''read f'' (''[Server]> Content:'' @ CHR 0x0A # ''hello'' @ [CHR 0x0A])"
proof -
  let ?l = "''read f''"
  have l: "takeable ?l []" "words_of ?l = [''read'', ''f'']" "length (words_of ?l) \<le> MAXARGS" "hd (words_of ?l) = ''read''"
    "CHR 0x0A \<notin> set ?l" "?l \<noteq> ''exit''" "if is_write ?l then length ([] :: bytes) < 9 else [] = []"
    "offset_and_path [] [] (words_of ?l) = Inr (0, ''f'')"
    by (simp_all add: takeable_def words_of_def offset_and_path_def)
  note asks = read_line [OF l(1,3,4,8) session_of(1) [of "''bob''"], where reg = "init_registry 0" and cfd = 5 and
      junk = "replicate 5372 NUL" and fuel = 9 and M = unix_shm]
  note con = demo_connected [OF l(1,5-7) asks refl refl refl refl refl four, where ?fuel2.0 = 9 and helper = demo_helper]
  show ?thesis
    by (rule exI, subst read_end_to_end [where content = "''hello''" and m = "0x180", OF con l(3,4,8) _ _ _ session_of(1,2) _ _ _ _ _ refl refl refl, THEN conjunct1])
      simp_all
qed

section \<open>Listing a directory\<close>

text \<open>C13. The whole way of a listing.  A user types \<open>ls\<close> and a path; then the user is shown one line for
  every entry of that directory, in the order of the directory, with the permissions, the first 55
  characters of the name and the size the entry has in the tree, or that the directory is empty;
  the tree is as it was and the client takes the next command.\<close>

theorem listing_end_to_end:
  assumes "connected fd cfd hfd (client_turn fuel fd) c (client_round fuel1 unix_kernel M junk cfd s) p
      (command_round fuel2 unix_kernel helper hfd) q"
    and "types (world c) fd fuel line []" "words_of line = [''ls'', path]"
    and "sess_state s = STATE_LOGGED_IN" "session_wf s" "length junk = 5372"
    and "is_dir (world q) (abs_path (world q) (rootDir helper))" "is_dir (world q) (list_dir (world q) (rootDir helper) s)"
    and "fresh_fd (world q)" "w0 = in_root (world q) (rootDir helper) s" "d = abs_path w0 path" "is_dir (world q) d"
    and "listable w0 path" "names = children w0 d" "length names + 2 < fuel2"
    and "files = map (\<lambda>n. (n, node_stat (the (node_at (world q) (d @ [n]))))) names"
    and "\<forall>f\<in>set files. NUL \<notin> set (fst f) \<and> st_size (snd f) < 2 ^ 63"
    and "w = world (snd (run_state (command_round fuel2 unix_kernel helper hfd) q))"
    and "c' = world (snd (run_state (client_turn fuel fd) c))"
  shows "screen c' = screen (world c) @ dialogue line (if names = [] then ''[Server]> Directory is empty'' @ [CHR 0x0A]
      else concat (map file_line files)) \<and>
    \<not> waiting_for_response (cflags c') \<and> fs w = fs (world q)"
proof -
  let ?es = "map (listed w0 d) names"
  define b where "b = concat (map enc_entry ?es)"
  define a where "a = set_count (length ?es) (copy_msg ''Success'' ((initial_response (command_code LS))\<lparr>res_status := 0\<rparr>))"
  have take: "takeable line []" using assms(2) by (simp add: types_def)
  have path: "path \<in> set (words_of line)" by (simp add: assms(3))
  have line: "line_command fuel1 M junk cfd line [] s = handleLs unix_kernel junk cfd [''ls'', path] s"
    by (rule fixed_line(1) [OF take assms(3)]) simp_all
  have asks: "asks_helper (shared (world p)) (shared (world p)) cfd (wire_request LS [path] s 0 [])
      (data_reply LSRES ''Directory is empty'' junk) (\<lambda>_. Returned s) (line_command fuel1 M junk cfd line [] s)"
    unfolding line by (rule handleLs_asks [OF assms(4)])
  have send: "sendable [path] s []"
    using takeable_word [OF take path] assms(5) by (simp add: sendable_def)
  have small: "length names \<le> 1024" using assms(11,13,14) by (simp add: listable_def)
  have helper: "helper_does fuel2 helper hfd (world q) LS [path] s 0 [] (enc_response a @ b) (\<lambda>w. fs w = fs (world q))"
  proof (rule helper_doesI, subst dispatch(9), goal_cases)
    case (2 q1 sc)
    have hfd: "hfd \<in> set (socks (world q1))" using connected_hfd [OF assms(1)] 2 by simp
    show ?case
      by (rule wp_mono [OF handleHelperLs_unix [OF _ _ hfd, where ?w0.0 = "w0\<lparr>sock_in := (sock_in (world q))(hfd := []), sched := sc\<rparr>" and q = d]])
        (use 2 assms(7-15) in \<open>auto simp: Let_def a_def b_def\<close>)
  qed simp
  have files: "b = concat (map (\<lambda>f. enc_entry (make_entry (fst f) (snd f))) files)" "length files = length names"
    unfolding b_def assms(16) by (simp_all add: comp_def listed_def assms(10))
  have ok: "\<forall>f\<in>set files. NUL \<notin> set (fst f) \<and> - (2 ^ 63) \<le> st_size (snd f) \<and> st_size (snd f) < 2 ^ 63"
    using assms(17) unfolding assms(16) by (auto simp: node_stat_def split: node.split)
  have lb1: "length b = 80 * length names"
    using length_entries [of "map (\<lambda>f. make_entry (fst f) (snd f)) files"] ok files make_entry_wf
    by (auto simp: comp_def)
  then have lb: "length b = 80 * length names" "b = [] \<longleftrightarrow> names = []" by auto
  have sh: "shown x (make_header LSRES 0 (length b) 0) (b @ [NUL]) = (if names = [] then ''[Server]> Directory is empty'' @ [CHR 0x0A]
      else concat (map file_line files))" if "b \<noteq> []" for x
    using listing_reaches_user [OF _ files(1) ok] small files(2) that lb(2) by simp
  have e: "NUL \<notin> set ''Directory is empty''" "length ''Directory is empty'' < RES_MSG" by simp_all
  have wf: "response_wf a" "res_status a = 0" "res_payload_len a = of_nat (length b)"
    using lb(1) by (simp_all add: a_def set_count_def copy_msg_def response_wf_def initial_response_def length_strncpy mult.commute)
  have ty: "LSRES \<noteq> DOWNLOAD_RES" "LSRES \<noteq> UPLOAD_RES" "length b < 2 ^ 32 - 1" using lb(1) small by simp_all
  note talk = data_conversation [OF assms(1,2) asks send helper wf(1,2) assms(6) wf(3) ty(3,1,2) e sh]
  show ?thesis using talk lb(2) unfolding assms(18,19) by simp
qed

lemma demo_listing:
  "list_dir demo_world ''/srv'' (session_of ''bob'') = [''srv'', ''bob'']"
  "abs_path (in_root demo_world ''/srv'' (session_of ''bob'')) ''.'' = [''srv'', ''bob'']"
  "children (in_root demo_world ''/srv'' (session_of ''bob'')) [''srv'', ''bob''] = [''d'', ''f'']"
  "abs_path demo_world ''/srv'' = [''srv'']" "node_at demo_world [''srv'', ''bob'', ''d''] = Some (Dir 0x1C0)"
  by (simp_all add: list_dir_def in_root_def root_of_def abs_path_def has_prefix_def children_def node_at_def)

lemma demo_listable: "listable (in_root demo_world ''/srv'' (session_of ''bob'')) ''.''"
  by (simp add: listable_def nameable_def demo_listing plain_name_def)

theorem listing_end_to_end_witness:
  "\<exists>c. screen (world (snd (run_state (client_turn 9 3) c))) = dialogue ''ls .''
     (file_line (''d'', \<lparr>st_mode = 0x41C0, st_size = 0\<rparr>) @ file_line (''f'', \<lparr>st_mode = 0x8180, st_size = 5\<rparr>))"
proof -
  let ?l = "''ls .''" and ?s = "session_of ''bob''"
  have l: "takeable ?l []" "words_of ?l = [''ls'', ''.'']" "CHR 0x0A \<notin> set ?l" "?l \<noteq> ''exit''"
    "if is_write ?l then length ([] :: bytes) < 9 else [] = []"
    by (simp_all add: takeable_def words_of_def)
  have "line_command 9 unix_shm (replicate 5372 NUL) 5 ?l [] ?s = handleLs unix_kernel (replicate 5372 NUL) 5 [''ls'', ''.''] ?s"
    by (rule fixed_line(1) [OF l(1,2)]) simp_all
  note asks = handleLs_asks [OF session_of(1) [of "''bob''"], where reg = "init_registry 0" and cfd = 5 and path = "''.''" and c = "''ls''" and
      junk = "replicate 5372 NUL", folded this]
  note con = demo_connected [OF l(1,3-5) asks refl refl refl refl refl four, where ?fuel2.0 = 9 and helper = demo_helper]
  show ?thesis
    apply (rule exI, subst listing_end_to_end [OF con l(2) session_of(1,2) _ _ _ _ refl refl _ _ refl _ refl _ refl refl, THEN conjunct1])
                apply (simp_all add: demo_listing demo_listable node_stat_def)
    done
qed

section \<open>Changing the directory\<close>

lemma drop_response: "response_wf a \<Longrightarrow> drop 1268 (enc_response a) = res_data a"
  by (simp add: enc_response_def response_wf_def)

lemma in_home_workdir:
  assumes "NUL \<in> set (sess_home s)" "\<forall>n\<in>set names. plain_name n \<and> NUL \<notin> set n" "length (join_slash names) < ABS_PATH"
    and "root = uroot (in_home w s)" "is_dir w (root @ names)" "sandboxable w s"
  shows "in_home w (set_workdir (join_slash names) s) = (in_home w s)\<lparr>ucwd := names\<rparr>"
    "sandboxable w (set_workdir (join_slash names) s)" "session_workdir (set_workdir (join_slash names) s) = join_slash names"
proof -
  have n: "NUL \<notin> set (join_slash names)" using assms(2) by (induction names rule: join_slash.induct) auto
  show wd: "session_workdir (set_workdir (join_slash names) s) = join_slash names"
    using assms(3) n by (simp add: session_workdir_def set_workdir_def c_str_strncpy [where m = "[]", simplified])
  have "session_home (set_workdir x s) = session_home s" for x
    using assms(1) by (auto simp: session_home_def set_workdir_def c_str_def takeWhile_append)
  then have hr: "home_root w (set_workdir x s) = home_root w s" "session_home (set_workdir x s) = session_home s" for x
    by (simp_all add: home_root_def)
  have r: "uroot (home_root w s) = root" by (simp add: assms(4) in_home_def)
  have "abs_path (home_root w s) (join_slash names) = root @ names"
    using abs_path_join_slash [of names "home_root w s"] assms(2) r by simp
  note ab = this
  show "in_home w (set_workdir (join_slash names) s) = (in_home w s)\<lparr>ucwd := names\<rparr>"
    unfolding in_home_def hr wd ab r by simp
  have "is_dir (home_root w s) q = is_dir w q" for q by (simp add: is_dir_def home_root_def node_at_def)
  then show "sandboxable w (set_workdir (join_slash names) s)"
    using assms(5,6) unfolding sandboxable_def hr wd ab by simp
qed

text \<open>The helper's answer to a change of directory.\<close>

definition cd_answer :: "fs_path \<Rightarrow> helper_response" where
  "cd_answer names = (set_cwd (join_slash names) (set_msg ''Directory changed'' ((initial_response (command_code CD))\<lparr>res_status := 0\<rparr>)))
     \<lparr>res_payload_len := of_nat (length (cd_cwd (set_cwd (join_slash names)
        (set_msg ''Directory changed'' ((initial_response (command_code CD))\<lparr>res_status := 0\<rparr>)))) + 1)\<rparr>"

lemma cd_answer:
  assumes "\<forall>n\<in>set names. plain_name n \<and> NUL \<notin> set n" "length (join_slash names) < ABS_PATH"
  shows "response_wf (cd_answer names)" "res_status (cd_answer names) = 0"
    "c_str (drop 1268 (enc_response (cd_answer names))) = join_slash names" "NUL \<notin> set (join_slash names)"
proof -
  show n: "NUL \<notin> set (join_slash names)" using assms(1) by (induction names rule: join_slash.induct) auto
  show wf: "response_wf (cd_answer names)" "res_status (cd_answer names) = 0"
    by (simp_all add: cd_answer_def response_wf_def set_cwd_def set_msg_def initial_response_def length_snprintf)
  show "c_str (drop 1268 (enc_response (cd_answer names))) = join_slash names"
    using n assms(2) unfolding drop_response [OF wf(1)] by (simp add: cd_answer_def set_cwd_def c_str_snprintf0)
qed

lemma helper_changes_directory:
  assumes "hfd \<in> set (socks w)" "sandboxable w s" "d = abs_path (in_home w s) path" "is_dir w d" "d = uroot (in_home w s) @ names"
  shows "helper_does fuel helper hfd w CD [path] s 0 [] (enc_response (cd_answer names)) (\<lambda>_. True)"
proof (rule helper_doesI, subst dispatch(8), goal_cases)
  case (2 q1 sc)
  have hfd: "hfd \<in> set (socks (world q1))" using assms(1) 2 by simp
  have dn: "drop (length (uroot (in_home w s))) d = names" using assms(5) by simp
  show ?case
    by (rule wp_mono [OF ChangeDirectory_unix [OF _ hfd, where d = d and s = "join_slash names"]])
      (use 2 assms(2-4) dn in \<open>auto simp: Let_def cd_answer_def cwd_string_def\<close>)
qed simp

text \<open>C16. The whole way of a change of directory, and the next command.  A user types \<open>cd\<close> and the path of a
  directory of the home; then the user reads where the session is now, the handler keeps that in
  the session, and the next request of this session is carried out in exactly that directory: the
  sandbox the helper enters for it has the same root and that working directory.\<close>

theorem cd_end_to_end:
  assumes "connected fd cfd hfd (client_turn fuel fd) c (client_round fuel1 unix_kernel M junk cfd s) p
      (command_round fuel2 unix_kernel helper hfd) q"
    and "types (world c) fd fuel line []" "words_of line = [''cd'', path]"
    and "sess_state s = STATE_LOGGED_IN" "session_wf s" "length junk = 5372" "NUL \<in> set (sess_home s)"
    and "sandboxable (world q) s" "d = abs_path (in_home (world q) s) path" "is_dir (world q) d"
    and "d = uroot (in_home (world q) s) @ names" "\<forall>n\<in>set names. plain_name n \<and> NUL \<notin> set n"
    and "length (join_slash names) < ABS_PATH" "s' = set_workdir (join_slash names) s"
    and "c' = world (snd (run_state (client_turn fuel fd) c))"
  shows "fst (run_state (client_round fuel1 unix_kernel M junk cfd s) p) = Returned (Continue s') \<and>
    sandboxable (world q) s' \<and> in_home (world q) s' = (in_home (world q) s)\<lparr>ucwd := names\<rparr> \<and>
    abs_path (in_home (world q) s') ''.'' = d \<and>
    screen c' = screen (world c) @ dialogue line (''[Server]> Current workDir: '' @ join_slash names @ [CHR 0x0A])"
proof -
  note home = in_home_workdir [OF assms(7,12,13) refl assms(10) [unfolded assms(11)] assms(8)]
  note a = cd_answer [OF assms(12,13)]
  have take: "takeable line []" using assms(2) by (simp add: types_def)
  have path: "path \<in> set (words_of line)" by (simp add: assms(3))
  let ?ans = "\<lambda>inp. case answer_of inp junk of (st, res) \<Rightarrow>
        if st = 0 then wire_text 0 0 (take 1255 (''Current workDir: '' @ session_workdir (set_workdir (c_str (drop 1268 res)) s)))
        else wire_text (- 1) 0 (res_text res)"
  have line: "line_command fuel1 M junk cfd line [] s = handleCd unix_kernel junk cfd [''cd'', path] s"
    by (rule fixed_line(2) [OF take assms(3)]) simp_all
  note asks = handleCd_asks [OF assms(4), of "shared (world p)" cfd path junk "''cd''", folded line]
  have send: "sendable [path] s []"
    using takeable_word [OF take path] assms(5) by (simp add: sendable_def)
  have msg: "NUL \<notin> set (''Current workDir: '' @ join_slash names)" "length (''Current workDir: '' @ join_slash names) < RES_MSG"
    using a(4) assms(13) by auto
  note ans = answer_of_response [OF a(1) assms(6), of "[]", unfolded append_Nil2 a(2)]
  have out: "?ans (enc_response (cd_answer names)) = wire_text 0 0 (''Current workDir: '' @ join_slash names)"
    unfolding ans prod.case a(3) home(3) using msg(2) by simp
  have dot: "abs_path ((in_home (world q) s)\<lparr>ucwd := names\<rparr>) ''.'' = d"
    unfolding abs_path_dot assms(11) by simp
  note talk = text_conversation(2,4) [OF assms(1,2) asks send
      helper_changes_directory [OF connected_hfd [OF assms(1)] assms(8-11)] out msg]
  show ?thesis
    using talk unfolding assms(14,15) home(1) ans prod.case a(3) dot
    by (simp add: continue_with_def home(2))
qed

theorem cd_end_to_end_witness:
  "\<exists>c. screen (world (snd (run_state (client_turn 9 3) c)))
    = dialogue ''cd d'' (''[Server]> Current workDir: /d'' @ [CHR 0x0A])"
proof -
  let ?l = "''cd d''" and ?s = "session_of ''bob''"
  have l: "takeable ?l []" "words_of ?l = [''cd'', ''d'']" "CHR 0x0A \<notin> set ?l" "?l \<noteq> ''exit''"
    "if is_write ?l then length ([] :: bytes) < 9 else [] = []"
    by (simp_all add: takeable_def words_of_def)
  have "line_command 9 unix_shm (replicate 5372 NUL) 5 ?l [] ?s = handleCd unix_kernel (replicate 5372 NUL) 5 [''cd'', ''d''] ?s"
    by (rule fixed_line(2) [OF l(1,2)]) simp_all
  note asks = handleCd_asks [OF session_of(1) [of "''bob''"], where reg = "init_registry 0" and cfd = 5 and path = "''d''" and c = "''cd''" and
      junk = "replicate 5372 NUL", folded this]
  note con = demo_connected [OF l(1,3-5) asks refl refl refl refl refl four, where ?fuel2.0 = 9 and helper = demo_helper]
  have "uroot (in_home demo_world demo_session) = abs_path demo_world ''/srv/bob''"
    by (simp add: in_home_def home_root_def)
  then have home: "NUL \<in> set (sess_home ?s)" "uroot (in_home demo_world demo_session) = [''srv'', ''bob'']"
    by (simp_all add: session_of_def demo_session_def strncpy_def abs_path_def has_prefix_def)
  show ?thesis
    by (rule exI, subst cd_end_to_end [where names = "[''d'']", OF con l(2) session_of(1,2) _ home(1) _ refl _ _ _ _ refl refl, THEN conjunct2, THEN conjunct2, THEN conjunct2, THEN conjunct2])
      (simp_all add: home(2) plain_name_def)
qed

section \<open>Transferring a file to another user\<close>

text \<open>C9. The whole way of a transfer.  A handler has entered the request of one user to send a file to
  another in the shared table, under an id, and the receiver has been told.  The receiver types
  \<open>accept\<close>, a directory and that id; then the helper has copied the sender's file, byte for byte,
  into that directory of the receiver, no other file has changed, the receiver reads that the
  transfer was successful, and the request is gone from the table.\<close>

theorem transfer_end_to_end:
  assumes "registry_ok r" "ids_ok r" "sint (global_id_counter r) < 2 ^ 31 - 1"
    and "create_request sender recv file r = Returned (i, r1)" "i \<noteq> - 1"
    and "NUL \<notin> set sender" "NUL \<notin> set recv" "NUL \<notin> set file" "length sender \<le> 19" "length recv \<le> 19"
    and "check_requests recv r1 = (ns, shared (world p))"
    and "connected fd cfd hfd (client_turn fuel fd) c (client_round fuel1 unix_kernel unix_shm junk cfd s) p
      (command_round fuel2 unix_kernel helper hfd) q"
    and "types (world c) fd fuel line []" "words_of line = [''accept'', dir, show_int i]"
    and "sess_state s = STATE_LOGGED_IN" "session_user s = recv" "length junk = 5372"
    and "fresh_fd (world q)" "next_fd (world q) + 1 \<notin> set (socks (world q))" "\<not> strstr dir ''..''" "\<not> strstr file ''..''"
    and "src = abs_path (world q) (transfer_src (rootDir helper) sender file)"
    and "dest = abs_path (world q) (transfer_dest (rootDir helper) recv dir file)"
    and "node_at (world q) src = Some (File content m)" "src \<noteq> dest" "writable (world q) dest 0x1A4 old dm"
    and "map_of (users (world q)) recv = Some u" "length content < fuel2"
    and "w = world (snd (run_state (command_round fuel2 unix_kernel helper hfd) q))"
    and "c' = world (snd (run_state (client_turn fuel fd) c))"
    and "p' = world (snd (run_state (client_round fuel1 unix_kernel unix_shm junk cfd s) p))"
    and "length line < 256"
  shows "node_at w dest = Some (File content dm) \<and>
    (\<forall>g. g \<noteq> dest \<longrightarrow> node_at w g = node_at (world q) g) \<and>
    screen c' = screen (world c) @ dialogue line (''[Server]> Transfer successful'' @ [CHR 0x0A]) \<and>
    book (shared p') i = None"
proof -
  obtain found r3 where acc: "accept_request recv i (shared (world p)) = (found, r3)" by fastforce
  obtain t where t: "found = Some t" "sender_name t = sender" "file_name t = file" "book r3 i = None"
      "length file < FILENAME_SIZE" "- (2 ^ 31) \<le> i" "i < 2 ^ 31"
    by (rule accept_after_request [OF assms(1-11) acc])
  let ?argv = "[sender, file, recv, dir]"
    and ?a = "ok_answer ''Transfer successful'' (res_payload_len (initial_response (command_code TRANSFER)))
        (initial_response (command_code TRANSFER))"
  have take: "takeable line []" using assms(13) by (simp add: types_def)
  have path: "dir \<in> set (words_of line)" by (simp add: assms(14))
  have line: "line_command fuel1 unix_shm junk cfd line [] s
      = handleAcceptTransfer unix_kernel unix_shm junk cfd [''accept'', dir, show_int i] s"
    by (rule fixed_line(4) [OF take assms(14)]) simp_all
  have a: "accept_request (session_user s) (atoi (show_int i)) (shared (world p)) = (Some t, r3)"
    using acc t(1) by (simp add: assms(16) atoi_show_int [OF t(6,7)])
  have asks: "asks_helper (shared (world p)) r3 cfd (wire_request TRANSFER ?argv zero_session 0 []) (relayed junk) (\<lambda>_. Returned s)
      (line_command fuel1 unix_shm junk cfd line [] s)"
    unfolding line using handleAccept_asks [OF assms(15) a] unfolding t(2,3) assms(16) .
  have send: "sendable ?argv zero_session []"
    using takeable_word [OF take path] words_of_bound [OF path] assms(6-10,32) t(5) by (simp add: sendable_def session_wf_def zero_session_def)
  define E where "E = (\<lambda>w. node_at w dest = Some (File content dm) \<and> (\<forall>g. g \<noteq> dest \<longrightarrow> node_at w g = node_at (world q) g))"
  have helper: "helper_does fuel2 helper hfd (world q) TRANSFER ?argv zero_session 0 [] (enc_response ?a) E"
  proof (rule helper_doesI, subst dispatch(12), goal_cases)
    case (2 q1 sc)
    have hfd: "hfd \<in> set (socks (world q1))" using connected_hfd [OF assms(12)] 2 by simp
    show ?case
      by (rule wp_mono [OF HandleHelperTransfer_unix [OF hfd, where src = src and dest = dest and c = content and m = m
              and old = old and dm = dm and u = u]])
        (use 2 assms(18-28) in \<open>auto simp: E_def\<close>)
  qed simp
  have msg: "NUL \<notin> set ''Transfer successful''" "length ''Transfer successful'' < RES_MSG" by simp_all
  have out: "relayed junk (enc_response ?a) = wire_text 0 0 ''Transfer successful''" by (rule relayed_ok [OF assms(17) msg])
  note talk = text_conversation [where E = E, OF assms(12,13) asks send helper out msg]
  show ?thesis
    using talk(1,3,4) t(4) unfolding assms(29-31) E_def by auto
qed

lemma demo_transfer:
  obtains r1 where "create_request ''bob'' ''ann'' ''f'' (init_registry 0) = Returned (1, r1)"
  by (rule that) (simp add: create_request_def init_registry_def free_request_def numeral_eq_Suc)

lemma shared_nodes [simp]:
  "node_at shared_world [''srv'', ''bob'', ''f''] = Some (File ''hello'' 0x180)" "node_at shared_world [''srv'', ''ann'', ''f''] = None"
  "is_dir shared_world [''srv'', ''ann'']" "fresh_fd shared_world" "socks shared_world = [4]" "next_fd shared_world = 5"
  "umask shared_world = 0x12"
  "map_of (users shared_world) ''ann'' = Some \<lparr>pw_name = ''ann'', pw_uid = 7, pw_gid = 8, pw_dir = ''/srv/ann''\<rparr>"
  by (simp_all add: shared_world_def is_dir_def node_at_def fresh_fd_def fs_set_def demo_world_def)

theorem transfer_end_to_end_witness:
  "\<exists>c. screen (world (snd (run_state (client_turn 9 3) c)))
    = dialogue ''accept . 1'' (''[Server]> Transfer successful'' @ [CHR 0x0A])"
proof -
  let ?l = "''accept . 1''" and ?s = "session_of ''ann''"
  have l: "takeable ?l []" "words_of ?l = [''accept'', ''.'', ''1'']" "CHR 0x0A \<notin> set ?l" "?l \<noteq> ''exit''"
    "if is_write ?l then length ([] :: bytes) < 9 else [] = []" "length ?l < 256"
    by (simp_all add: takeable_def words_of_def)
  have n: "show_int 1 = ''1''" by code_simp
  obtain r1 where r1: "create_request ''bob'' ''ann'' ''f'' (init_registry 0) = Returned (1, r1)"
    by (rule demo_transfer)
  obtain ns r2 where r2: "check_requests ''ann'' r1 = (ns, r2)" by fastforce
  obtain found r3 where acc: "accept_request ''ann'' 1 r2 = (found, r3)" by fastforce
  obtain t where t: "found = Some t"
    by (rule accept_after_request [OF registry_ok_init ids_ok_init _ r1 _ _ _ _ _ _ r2 acc]) (simp_all add: init_registry_def)
  have "line_command 9 unix_shm (replicate 5372 NUL) 5 ?l [] ?s
      = handleAcceptTransfer unix_kernel unix_shm (replicate 5372 NUL) 5 [''accept'', ''.'', show_int 1] ?s"
    unfolding n by (rule fixed_line(4) [OF l(1,2)]) simp_all
  note asks = handleAccept_asks [OF session_of(1) [of "''ann''"], where reg = r2 and t = t and reg' = r3 and i = "show_int 1" and cfd = 5 and
      dir = "''.''" and c = "''accept''" and junk = "replicate 5372 NUL", folded this]
  have a: "accept_request (session_user ?s) (atoi (show_int 1)) r2 = (Some t, r3)"
    using acc t by (simp add: atoi_show_int)
  note con = demo_connected [OF l(1,3-5) asks [OF a] refl refl refl refl refl, where ?fuel2.0 = 9 and helper = demo_helper and w = shared_world]
  have w: "words_of ?l = [''accept'', ''.'', show_int 1]" unfolding n by (rule l(2))
  have two: "\<not> strstr ''.'' ''..''" "\<not> strstr ''f'' ''..''" by code_simp+
  show ?thesis
    apply (rule exI, subst transfer_end_to_end [where content = "''hello''" and m = "0x180" and old = "[]" and dm = "0x1A4",
        OF registry_ok_init ids_ok_init _ r1 _ _ _ _ _ _ _ con w session_of(1) _ _ _ _ two refl refl _ _ _ _ _ refl refl refl l(6),
        THEN conjunct2, THEN conjunct2, THEN conjunct1])
                   apply (simp_all add: r2 shared_world_paths init_registry_def writable_def)
    done
qed

end
