(* ===== verification/Data_Connection.thy ===== *)
theory Data_Connection
  imports End_To_End
begin

text \<open>
  Downloads and uploads on the concrete kernel: the thread of the client, the forked
  child of the handler, and the streams between them and the helper.  The data
  connection ends at the client's socket 6 and at the child's socket 7; the child's
  connection to the helper is its socket 4.
\<close>

section \<open>Messages under the lock of the socket\<close>

definition wire_message :: "msg_type \<Rightarrow> int \<Rightarrow> string \<Rightarrow> int \<Rightarrow> bytes" where
  "wire_message type st msg bg = enc_msg_header (make_header type st (length msg + 1) bg) @ msg @ [NUL]"

lemma wp_unix_locked:
  assumes "cfd \<in> set (socks (world p))"
    and "\<And>p' n sc. world p' = (said cfd (wire_message type st msg bg) (world p))\<lparr>sched := sc\<rparr> \<Longrightarrow> Q n p'"
  shows "wp (sendProtocolMsgLocked unix_kernel cfd type st msg bg) Q p"
proof -
  have len: "\<not> int (length x) < 0" for x :: bytes by simp
  show ?thesis
    unfolding sendProtocolMsgLocked_def acquire_socket_lock_def release_socket_lock_def sendProtocolMsgBg_def
    apply (simp add: wp_simps cong: step_congs)
    apply (rule wp_unix_say)
     apply (simp add: assms(1))
    apply (simp only: len if_False wp_bind)
    apply (rule wp_unix_say)
     apply (simp add: assms(1))
    apply (simp add: wp_simps)
    apply (rule assms(2))
    apply (simp add: wire_message_def)
    done
qed

section \<open>From one socket to another\<close>

text \<open>\<open>k\<close> bytes of what a socket still holds have been read.\<close>

lemma wp_sock_piece:
  assumes "src \<in> set (socks (world p))" "0 < n"
    and "\<And>p' r k sc. k \<le> length (sock_in (world p) src) \<Longrightarrow> k \<le> n \<Longrightarrow> k \<noteq> 0 \<Longrightarrow> rv r = int k \<Longrightarrow>
      take k (out r) = take k (sock_in (world p) src) \<Longrightarrow> world p' = (heard src k (world p))\<lparr>sched := sc\<rparr> \<Longrightarrow> Q r p'"
    and "\<And>p' r sc. sock_in (world p) src = [] \<Longrightarrow> rv r = 0 \<Longrightarrow> world p' = (world p)\<lparr>sched := sc\<rparr> \<Longrightarrow> Q r p'"
  shows "wp (sys unix_kernel (FdC (Read src n))) Q p"
proof (rule wp_sock_read [OF assms(1)])
  fix p1 :: "unix proc" and r :: sysres and k sc
  let ?in = "sock_in (world p) src"
  assume k: "k \<le> length ?in" "k \<le> n" "k = 0 \<longrightarrow> n = 0 \<or> ?in = []" and r: "rv r = int k" "out r = take k ?in"
    and 1: "world p1 = (world p)\<lparr>sock_in := (sock_in (world p))(src := drop k ?in), sched := sc\<rparr>"
  show "Q r p1"
  proof (cases "k = 0")
    case True
    with k(3) assms(2) have e: "?in = []" by simp
    then have "(sock_in (world p))(src := []) = sock_in (world p)" by (simp add: fun_upd_idem)
    then show ?thesis using assms(4) [OF e _, of r p1 sc] r(1) 1 True e by simp
  next
    case False
    then show ?thesis using k(1,2) r 1 by (intro assms(3)) (auto simp: heard_def)
  qed
qed

lemma wp_relay_bytes:
  assumes "src \<in> set (socks (world p))" "dst \<in> set (socks (world p))" "todo \<le> length (sock_in (world p) src)"
    and "\<And>p' sc. world p' = (heard src todo (said dst (take todo (sock_in (world p) src)) (world p)))\<lparr>sched := sc\<rparr> \<Longrightarrow> Q () p'"
  shows "wp (relay_bytes unix_kernel src dst todo) Q p"
  using assms
proof (induction todo arbitrary: p rule: less_induct)
  case (less todo)
  let ?in = "sock_in (world p) src"
  have ge: "\<not> int x < 0" for x by simp
  show ?case
  proof (cases "todo = 0")
    case True
    have "Q () p" by (rule less.prems(4) [where sc = "sched (world p)"]) (simp add: True said_def heard_def)
    then show ?thesis by (simp add: relay_bytes.simps True wp_return)
  next
    case False
    then have pos: "0 < min todo 16384" by simp
    show ?thesis
      unfolding relay_bytes.simps [of unix_kernel src dst todo] if_not_P [OF False] wp_bind
    proof (rule wp_sock_piece [OF less.prems(1) pos], goal_cases)
      case (1 p1 r k sc)
      have go: "\<not> rv r \<le> 0" "take (nat (rv r)) (out r) = take k ?in" "nat (rv r) = k" using 1 by auto
      have k: "k \<le> todo" using 1(2) by simp
      show ?case
        unfolding if_not_P [OF go(1)] go(2) wp_bind
      proof (rule wp_unix_say, goal_cases)
        case (2 p2 sc2)
        show ?case
          unfolding if_not_P [OF ge] go(3)
        proof (rule less.IH, goal_cases)
          case (5 p3 sc3)
          have t: "take k ?in @ take (todo - k) (drop k ?in) = take todo ?in"
            using k by (simp add: take_add [of k "todo - k", symmetric])
          have "world p3 = (heard src todo (said dst (take todo ?in) (world p)))\<lparr>sched := sc3\<rparr>"
            using 5 k unfolding 2 1(6) t [symmetric] by (simp add: heard_def said_def)
          then show ?case by (rule less.prems(4))
        qed (use 2 1 less.prems(1-3) k in auto)
      qed (use 1 less.prems(2) in simp)
    next
      case (2 p1 r sc)
      then show ?case using less.prems(3) False by simp
    qed
  qed
qed

lemma wp_copy_sockets:
  assumes "src \<in> set (socks (world p))" "dst \<in> set (socks (world p))" "0 < len" "length (sock_in (world p) src) < fuel"
    and "\<And>p' sc. world p' = (heard src (length (sock_in (world p) src)) (said dst (sock_in (world p) src) (world p)))\<lparr>sched := sc\<rparr> \<Longrightarrow>
      Q True p'"
  shows "wp (copy_stream fuel unix_kernel src dst len) Q p"
  using assms
proof (induction fuel arbitrary: p)
  case (Suc fuel)
  let ?in = "sock_in (world p) src"
  have ge: "\<not> int x < 0" for x by simp
  show ?case
    unfolding copy_stream.simps wp_bind
  proof (rule wp_sock_piece [OF Suc.prems(1,3)], goal_cases)
    case (1 p1 r k sc)
    have go: "\<not> rv r \<le> 0" "take (nat (rv r)) (out r) = take k ?in" using 1 by auto
    show ?case
      unfolding if_not_P [OF go(1)] go(2) wp_bind
    proof (rule wp_unix_say, goal_cases)
      case (2 p2 sc2)
      show ?case
        unfolding if_not_P [OF ge]
      proof (rule Suc.IH, goal_cases)
        case (5 p3 sc3)
        have "world p3 = (heard src (length ?in) (said dst ?in (world p)))\<lparr>sched := sc3\<rparr>"
          using 5 1(1) unfolding 2 1(6) by (simp add: heard_def said_def)
        then show ?case by (rule Suc.prems(5))
      qed (use 2 1 Suc.prems(1-4) in auto)
    qed (use 1 Suc.prems(2) in simp)
  next
    case (2 p1 r sc)
    then have "world p1 = (heard src (length ?in) (said dst ?in (world p)))\<lparr>sched := sc\<rparr>"
      by (simp add: heard_def said_def fun_upd_idem)
    then show ?case using 2 Suc.prems(5) by (simp add: wp_return)
  qed
qed simp

text \<open>Whatever the source holds, and whether or not it ends early, only \<open>dst\<close> is sent to.\<close>

definition grown :: "int \<Rightarrow> nat \<Rightarrow> unix \<Rightarrow> unix \<Rightarrow> bool" where
  "grown dst n w w' \<longleftrightarrow> socks w' = socks w \<and>
     (\<exists>bs. length bs \<le> n \<and> sock_out w' = (sock_out w)(dst := sock_out w dst @ bs))"

lemma grown_said:
  "grown dst (n - k) (said dst bs (heard src k w)\<lparr>sched := sc\<rparr>) w' \<Longrightarrow> length bs \<le> k \<Longrightarrow> k \<le> n \<Longrightarrow> grown dst n w w'"
  unfolding grown_def by clarsimp (rule_tac x = "bs @ bsa" in exI, simp)

lemma grown_none: "grown dst n w (w\<lparr>sched := sc\<rparr>)"
  by (auto simp: grown_def intro!: exI [of _ "[]"])

lemma wp_copy_any:
  assumes "src \<in> set (socks (world p))" "dst \<in> set (socks (world p))" "0 < len"
  shows "wp (copy_stream fuel unix_kernel src dst len) (\<lambda>r p'. grown dst (length (sock_in (world p) src)) (world p) (world p')) p"
  using assms
proof (induction fuel arbitrary: p)
  case 0
  then show ?case using grown_none [of dst _ "world p" "sched (world p)"] by (simp add: wp_return)
next
  case (Suc fuel)
  have ge: "\<not> int x < 0" for x by simp
  show ?case
    unfolding copy_stream.simps wp_bind
  proof (rule wp_sock_piece [OF Suc.prems(1,3)], goal_cases)
    case (1 p1 r k sc)
    have go: "\<not> rv r \<le> 0" using 1 by auto
    show ?case
      unfolding if_not_P [OF go] wp_bind
    proof (rule wp_unix_say, goal_cases)
      case (2 p2 sc2)
      show ?case
        unfolding if_not_P [OF ge]
        by (rule wp_mono, rule Suc.IH) (use 2 1 Suc.prems in \<open>auto intro: grown_said\<close>)
    qed (use 1 Suc.prems(2) in simp)
  qed (simp add: wp_return grown_none)
qed

lemma wp_relay_any:
  assumes "src \<in> set (socks (world p))" "dst \<in> set (socks (world p))"
  shows "wp (relay_bytes unix_kernel src dst todo) (\<lambda>r p'. grown dst (length (sock_in (world p) src)) (world p) (world p')) p"
  using assms
proof (induction todo arbitrary: p rule: less_induct)
  case (less todo)
  have ge: "\<not> int x < 0" for x by simp
  show ?case
  proof (cases "todo = 0")
    case True
    then show ?thesis using grown_none [of dst _ "world p" "sched (world p)"] by (simp add: relay_bytes.simps wp_return)
  next
    case False
    then have pos: "0 < min todo 16384" by simp
    show ?thesis
      unfolding relay_bytes.simps [of unix_kernel src dst todo] if_not_P [OF False] wp_bind
    proof (rule wp_sock_piece [OF less.prems(1) pos], goal_cases)
      case (1 p1 r k sc)
      have go: "\<not> rv r \<le> 0" using 1 by auto
      show ?case
        unfolding if_not_P [OF go] wp_bind
      proof (rule wp_unix_say, goal_cases)
        case (2 p2 sc2)
        show ?case
          unfolding if_not_P [OF ge]
          by (rule wp_mono, rule less.IH) (use 2 1 less.prems False in \<open>auto intro: grown_said\<close>)
      qed (use 1 less.prems(2) in simp)
    qed (simp add: wp_return grown_none)
  qed
qed

section \<open>The client's loops\<close>

lemma wp_at_stdio:
  assumes "at_file w0 fp q c m pos (world p)"
  shows "(\<And>p'. at_file w0 fp q (overwrite c pos bs) m (pos + length bs) (world p') \<Longrightarrow> Q (int (length bs)) p') \<Longrightarrow>
       wp (call unix_kernel (StdioC (Fwrite fp bs))) Q p"
    "(\<And>p'. others_same q w0 (world p') \<Longrightarrow> node_at (world p') q = Some (File c m) \<Longrightarrow> socks (world p') = socks w0 \<Longrightarrow>
         sock_out (world p') = sock_out w0 \<Longrightarrow> screen (world p') = screen w0 \<Longrightarrow> cflags (world p') = cflags w0 \<Longrightarrow> Q 0 p') \<Longrightarrow>
       wp (call unix_kernel (StdioC (Fclose fp))) Q p"
  using assms by (auto intro!: wp_unix_callI simp: at_file_def others_same_def not_less)

lemma wp_at_fread:
  assumes "at_source w0 fp q c m pos (world p)"
    and "\<And>p' r. at_source w0 fp q c m (pos + length (take n (drop pos c))) (world p') \<Longrightarrow>
           sock_out (world p') = sock_out (world p) \<Longrightarrow>
           rv r = int (length (take n (drop pos c))) \<Longrightarrow> out r = take n (drop pos c) \<Longrightarrow> Q r p'"
  shows "wp (sys unix_kernel (StdioC (Fread fp n))) Q p"
  apply (rule wp_unix_sysI)
  apply (rule assms(2))
  using assms(1) by (auto simp: at_source_def Let_def)

lemma wp_download_loop:
  assumes "at_file w0 fp q c m (length c) (world p)" "fd \<in> set (socks w0)" "length (sock_in w0 fd) < fuel"
    and "\<And>p'. at_file (w0\<lparr>sock_in := (sock_in w0)(fd := [])\<rparr>) fp q (c @ sock_in w0 fd) m
           (length (c @ sock_in w0 fd)) (world p') \<Longrightarrow> Q True p'"
  shows "wp (download_loop fuel unix_kernel bg path fp fd) Q p"
  using assms
proof (induction fuel arbitrary: p c w0)
  case (Suc fuel)
  let ?in = "sock_in w0 fd"
  have w: "fd \<in> set (socks (world p))" "sock_in (world p) = sock_in w0"
    using Suc.prems(1,2) by (auto simp: at_file_def)
  have big: "(0 :: nat) < 16384" by simp
  show ?case
    unfolding download_loop.simps wp_bind
  proof (rule wp_sock_piece [OF w(1) big], unfold w(2), goal_cases)
    case (1 p1 r k sc)
    let ?w1 = "w0\<lparr>sock_in := (sock_in w0)(fd := drop k ?in)\<rparr>"
    have at: "at_file ?w1 fp q c m (length c) (world p1)"
      using Suc.prems(1) by (auto simp: at_file_def others_same_def 1(6) w(2))
    have go: "\<not> rv r < 0" "rv r \<noteq> 0" "take (nat (rv r)) (out r) = take k ?in" "\<not> int (length (take k ?in)) < rv r" using 1 by auto
    have next_round: "wp (download_loop fuel unix_kernel bg path fp fd) Q p2"
      if 2: "at_file ?w1 fp q (overwrite c (length c) (take k ?in)) m (length c + length (take k ?in)) (world p2)" for p2
    proof (rule Suc.IH)
      show "at_file ?w1 fp q (c @ take k ?in) m (length (c @ take k ?in)) (world p2)" using 2 by simp
      show "fd \<in> set (socks ?w1)" "length (sock_in ?w1 fd) < fuel" using Suc.prems(2,3) 1 by simp_all
      fix p3 :: "unix proc"
      assume "at_file (?w1\<lparr>sock_in := (sock_in ?w1)(fd := [])\<rparr>) fp q ((c @ take k ?in) @ sock_in ?w1 fd) m
        (length ((c @ take k ?in) @ sock_in ?w1 fd)) (world p3)"
      moreover have "(c @ take k ?in) @ sock_in ?w1 fd = c @ ?in" by simp
      ultimately show "Q True p3" by (intro Suc.prems(4)) (simp add: fun_upd_def cong: if_cong)
    qed
    show ?case
      unfolding if_not_P [OF go(1)] if_not_P [OF go(2)] go(3) wp_bind
      by (rule wp_at_stdio(1) [OF at], unfold if_not_P [OF go(4)], rule next_round)
  next
    case (2 p1 r sc)
    have "at_file (w0\<lparr>sock_in := (sock_in w0)(fd := [])\<rparr>) fp q (c @ ?in) m (length (c @ ?in)) (world p1)"
      using Suc.prems(1) 2 by (auto simp: at_file_def others_same_def fun_upd_idem)
    then have "Q True p1" by (rule Suc.prems(4))
    then show ?case using 2(2) by (simp add: wp_return)
  qed
qed simp

lemma wp_upload_loop:
  assumes "at_source w0 fp q c m pos (world p)" "fd \<in> set (socks w0)" "length c - pos < fuel"
    and "\<And>p' k. at_source w0 fp q c m k (world p') \<Longrightarrow>
           sock_out (world p') fd = sock_out (world p) fd @ drop pos c \<Longrightarrow> Q True p'"
  shows "wp (upload_loop fuel unix_kernel bg fp fd) Q p"
  using assms(1,3,4)
proof (induction fuel arbitrary: p pos)
  case (Suc fuel)
  let ?b = "take 16384 (drop pos c)"
  have ge: "\<not> int x < 0" for x by simp
  show ?case
    unfolding upload_loop.simps wp_bind
  proof (rule wp_at_fread [OF Suc.prems(1)], goal_cases)
    case (1 p1 r)
    show ?case
    proof (cases "?b = []")
      case True
      then have "drop pos c = []" by auto
      then show ?thesis using 1 True by (auto simp: prog_simps intro!: Suc.prems(3))
    next
      case False
      have more: "length c - (pos + length ?b) < fuel" using Suc.prems(2) False by auto
      have split: "?b @ drop (pos + length ?b) c = drop pos c"
        by (metis add.commute append_take_drop_id drop_drop length_take min_def nat_le_linear take_all)
      have go: "\<not> rv r \<le> 0" "take (nat (rv r)) (out r) = ?b" using 1(3,4) False by (auto simp only: nat_int take_all order_refl) auto
      show ?thesis
        unfolding if_not_P [OF go(1)] go(2) wp_bind
      proof (rule wp_unix_writeAll, goal_cases)
        case (2 p2 sc)
        show ?case
          unfolding if_not_P [OF ge]
        proof (rule Suc.IH [OF _ more], goal_cases)
          case (2 p3 k)
          then show ?case using split 1(2) \<open>world p2 = _\<close> by (intro Suc.prems(3)) auto
        qed (use 1(1) 2 in simp)
      qed (use 1(1) assms(2) in \<open>simp add: at_source_def\<close>)
    qed
  qed
qed simp

section \<open>The threads of the client\<close>

lemma wp_unix_connect_server:
  assumes "\<And>p'. world p' = world p \<Longrightarrow> Q 6 p'"
  shows "wp (connectToServer unix_kernel ip port) Q p"
  unfolding connectToServer_def by (auto simp: wp_simps intro!: assms)

lemma node_at_cflags [simp]: "node_at (w\<lparr>cflags := f\<rparr>) q = node_at w q"
  by (simp add: node_at_def)

lemma backgroundDownloadFunc_unix:
  assumes "6 \<in> set (socks (world c))" "fresh_fd (world c)" "dest = abs_path (world c) path"
    and "writable (world c) dest 0x1B6 old m" "length (sock_in (world c) 6) < fuel"
  shows "wp (backgroundDownloadFunc fuel unix_kernel unix_flags ip port path bg)
    (\<lambda>r c'. r = Returned () \<and> node_at (world c') dest = Some (File (sock_in (world c) 6) m) \<and>
       (\<forall>g. g \<noteq> dest \<longrightarrow> node_at (world c') g = node_at (world c) g) \<and>
       sock_out (world c') = sock_out (world c) \<and>
       screen (world c') = screen (world c) \<and> cflags (world c') = bg_done (cflags (world c))) c"
proof -
  have fp: "0 \<le> next_fd (world c)" "\<not> next_fd (world c) < 0" using assms(2) by (auto simp: fresh_fd_def)
  have open_dest: "wp (call unix_kernel (StdioC (Fopen path ''wb''))) Q c1"
    if "world c1 = world c" "\<And>c2. at_file (world c) (next_fd (world c)) dest [] m 0 (world c2) \<Longrightarrow> Q (next_fd (world c)) c2" for Q c1
    using assms(2,4) that
    by (intro wp_unix_callI) (auto simp: assms(3) writable_def open_at_def at_file_def others_same_def fresh_fd_def)
  show ?thesis
    unfolding backgroundDownloadFunc_def wp_bind
    apply (rule wp_unix_connect_server)
    apply (simp add: wp_bind cong: step_congs)
    apply (rule open_dest, assumption)
    apply (simp add: fp wp_bind cong: step_congs)
    apply (rule wp_download_loop [where ?w0.0 = "world c" and c = "[]" and q = dest and m = m])
       apply simp
      apply (simp add: assms(1))
     apply (simp add: assms(5))
    apply (simp add: transfer_cleanup_def fp wp_bind cong: step_congs)
    apply (rule wp_at_stdio(2), assumption)
    apply (simp add: wp_simps assms(1) others_same_def)
    done
qed

lemma backgroundUploadFunc_unix:
  assumes "6 \<in> set (socks (world c))" "fresh_fd (world c)" "node_at (world c) (abs_path (world c) path) = Some (File content m)"
    and "length content < fuel"
  shows "wp (backgroundUploadFunc fuel unix_kernel unix_flags ip port path bg)
    (\<lambda>r c'. r = Returned () \<and> sock_out (world c') 6 = sock_out (world c) 6 @ content \<and> fs (world c') = fs (world c) \<and>
       screen (world c') = screen (world c) \<and> cflags (world c') = bg_done (cflags (world c))) c"
proof -
  let ?q = "abs_path (world c) path"
  have fp: "0 \<le> next_fd (world c)" "\<not> next_fd (world c) < 0" using assms(2) by (auto simp: fresh_fd_def)
  have open_source: "wp (call unix_kernel (StdioC (Fopen path ''rb''))) Q c1"
    if "world c1 = world c" "\<And>c2. at_source (world c) (next_fd (world c)) ?q content m 0 (world c2) \<Longrightarrow>
      sock_out (world c2) = sock_out (world c) \<Longrightarrow> Q (next_fd (world c)) c2" for Q c1
    using assms(2,3) that by (intro wp_unix_callI) (auto simp: open_at_def at_source_def fresh_fd_def)
  show ?thesis
    unfolding backgroundUploadFunc_def wp_bind
    apply (rule wp_unix_connect_server)
    apply (simp add: wp_bind cong: step_congs)
    apply (rule open_source, assumption)
    apply (simp add: fp wp_bind cong: step_congs)
    apply (rule wp_upload_loop [where ?w0.0 = "world c" and c = content and q = ?q and m = m and pos = 0])
       apply simp
      apply (simp add: assms(1))
     apply (simp add: assms(4))
    apply (simp add: transfer_cleanup_def fp wp_bind cong: step_congs)
    apply (rule wp_unix_callI)
    apply (auto simp: wp_simps assms(1) at_source_def)
    done
qed

section \<open>The child of the handler\<close>

definition concluded :: "string \<Rightarrow> string \<Rightarrow> string \<Rightarrow> string" where
  "concluded what a b = take 127 (what @ SPC # a @ SPC # b @ '' concluded'')"

lemma wp_unix_accept_data:
  assumes "\<And>p'. world p' = world p \<Longrightarrow> Q 7 p'"
  shows "wp (call unix_kernel (NetC (Accept l))) Q p"
  by (rule wp_unix_callI) (simp add: assms)

lemma wp_unix_close_sock:
  assumes "fd \<in> set (socks (world p))" "\<And>p'. world p' = world p \<Longrightarrow> Q 0 p'"
  shows "wp (call unix_kernel (FdC (Close fd))) Q p"
  by (rule wp_unix_callI) (simp_all add: assms)

lemma download_child_unix:
  assumes "set [cfd, 4, 6, 7] \<subseteq> set (socks (world p))" "distinct [cfd, 4, 7]"
    and "sock_in (world p) 4 = enc_response a @ content" "response_wf a" "res_status a = 0"
    and "res_payload_len a = of_nat (length content)" "length content < 2 ^ 32" "length junk = 5372"
  shows "wp (download_child unix_kernel junk cfd bg argv s 6)
    (\<lambda>r p'. r = Exited \<and> sock_out (world p') 4 = sock_out (world p) 4 @ wire_request DOWNLOAD [argv ! 1] s 0 [] \<and>
       sock_out (world p') 7 = sock_out (world p) 7 @ content \<and>
       sock_out (world p') cfd = sock_out (world p) cfd @ wire_message TEXT 0 (concluded ''download'' (argv ! 1) (argv ! 2)) bg) p"
proof -
  have n: "unat (of_nat (length content) :: u32) = length content" by (rule unat_of_nat_u32) (use assms(7) in simp)
  have d: "drop 5372 (sock_in (world p) 4) = content" using response_codec.frame [OF assms(4)] assms(3) by simp
  have ans: "world p1 = world p \<Longrightarrow> answer_of (sock_in (world p1) 4) junk = (0, enc_response a)" for p1
    using answer_of_response [OF assms(4,8), of content] assms(3,5) by simp
  have neg: "\<not> (7 :: int) < 0" by simp
  show ?thesis
    unfolding download_child_def wp_bind
    apply (rule wp_unix_accept_data)
    apply (simp only: wp_bind neg if_False)
    apply (rule wp_unix_close_sock)
    using assms(1) apply simp
    apply (simp only: wp_bind)
    apply (rule wp_unix_connect)
    apply (simp only: wp_bind)
    apply (rule wp_unix_request [where data = "[]"])
    using assms(1) apply simp
     apply (simp add: data_given_def)
    apply (simp only: ans assms(5,6) response_codec.dec_enc [OF assms(4)] n wp_bind prod.case if_True simp_thms)
    apply (rule wp_relay_bytes)
    using assms(1) apply simp
    using assms(1) apply simp
     apply (simp add: d)
    apply (simp only: wp_bind)
    apply (rule wp_unix_close_sock)
    using assms(1) apply simp
    apply (simp only: wp_bind)
    apply (rule wp_unix_locked)
    using assms(1) apply simp
    apply (simp only: wp_bind)
    apply (rule wp_unix_close_sock)
    using assms(1) apply simp
    using assms(2) d apply (auto simp: wp_return concluded_def)
    done
qed

lemma upload_child_unix:
  assumes "set [cfd, 4, 6, 7] \<subseteq> set (socks (world p))" "distinct [cfd, 4, 7]"
    and "sock_in (world p) 4 = enc_response a" "response_wf a" "res_status a = 0"
    and "length (sock_in (world p) 7) < fuel" "length junk = 5372"
  shows "wp (upload_child fuel unix_kernel junk cfd bg argv s 6)
    (\<lambda>r p'. r = Exited \<and>
       sock_out (world p') 4 = sock_out (world p) 4 @ wire_request UPLOAD [argv ! 2] s 0 [] @ sock_in (world p) 7 \<and>
       sock_out (world p') cfd = sock_out (world p) cfd @ wire_message TEXT 0 (concluded ''upload'' (argv ! 2) (argv ! 1)) bg) p"
proof -
  have ans: "world p1 = world p \<Longrightarrow> answer_of (sock_in (world p1) 4) junk = (0, enc_response a)" for p1
    using answer_of_response [OF assms(4,7), of "[]"] assms(3,5) by simp
  have neg: "\<not> (7 :: int) < 0" by simp
  show ?thesis
    unfolding upload_child_def wp_bind
    apply (rule wp_unix_accept_data)
    apply (rule wp_unix_close_sock)
    using assms(1) apply simp
    apply (simp only: wp_bind neg if_False)
    apply (rule wp_unix_connect)
    apply (simp only: wp_bind)
    apply (rule wp_unix_request [where data = "[]"])
    using assms(1) apply simp
     apply (simp add: data_given_def)
    apply (simp only: ans assms(5) wp_bind prod.case if_True simp_thms)
    apply (rule wp_copy_sockets)
    using assms(1) apply simp
    using assms(1) apply simp
      apply simp
    using assms(2,6) apply simp
    apply (simp only: wp_bind simp_thms if_False)
    apply (rule wp_unix_close_sock)
    using assms(1) apply simp
    apply (simp only: wp_bind)
    apply (rule wp_unix_locked)
    using assms(1) apply simp
    apply (simp only: wp_bind)
    apply (rule wp_unix_close_sock)
    using assms(1) apply simp
    using assms(2) apply (auto simp: wp_return concluded_def)
    done
qed

text \<open>The child asks the helper before it knows the answer.\<close>

lemma wp_unix_failed_child:
  assumes "set [cfd, 4, 7] \<subseteq> set (socks (world p))" "distinct [cfd, 4, 7]" "sock_out (world p) 4 = x"
  shows "wp (call unix_kernel (FdC (Close 7)) \<bind> (\<lambda>_. sendProtocolMsgLocked unix_kernel cfd TEXT st msg bg \<bind>
      (\<lambda>_. call unix_kernel (FdC (Close 4)) \<bind> (\<lambda>_. State_Monad.return Exited)))) (\<lambda>r p'. sock_out (world p') 4 = x) p"
  unfolding wp_bind
  apply (rule wp_unix_close_sock)
  using assms(1) apply simp
  apply (rule wp_unix_locked)
  using assms(1) apply simp
  apply (rule wp_unix_close_sock)
  using assms apply (auto simp: wp_return)
  done

lemma download_child_asks:
  assumes "set [cfd, 4, 6, 7] \<subseteq> set (socks (world p))" "distinct [cfd, 4, 7]"
  shows "wp (download_child unix_kernel junk cfd bg argv s 6)
    (\<lambda>r p'. sock_out (world p') 4 = sock_out (world p) 4 @ wire_request DOWNLOAD [argv ! 1] s 0 []) p"
proof -
  have neg: "\<not> (7 :: int) < 0" by simp
  show ?thesis
    unfolding download_child_def wp_bind
    apply (rule wp_unix_accept_data)
    apply (simp only: wp_bind neg if_False)
    apply (rule wp_unix_close_sock)
    using assms(1) apply simp
    apply (simp only: wp_bind)
    apply (rule wp_unix_connect)
    apply (simp only: wp_bind)
    apply (rule wp_unix_request [where data = "[]"])
    using assms(1) apply simp
     apply (simp add: data_given_def)
    subgoal for p1 p2 p3 p4 sc
      apply (cases "answer_of (sock_in (world p3) 4) junk")
      apply (simp only: prod.case wp_if)
      apply (split if_split, intro conjI impI)
       apply (subst wp_bind)
       apply (rule wp_mono, rule wp_relay_any)
      using assms(1) apply simp
      using assms(1) apply simp
       apply (rule wp_unix_failed_child)
      using assms apply (auto simp: grown_def)[3]
      apply (rule wp_unix_failed_child)
      using assms apply auto
      done
    done
qed

lemma upload_child_asks:
  assumes "set [cfd, 4, 6, 7] \<subseteq> set (socks (world p))" "distinct [cfd, 4, 7]"
  shows "wp (upload_child fuel unix_kernel junk cfd bg argv s 6)
    (\<lambda>r p'. \<exists>rest. length rest \<le> length (sock_in (world p) 7) \<and> sock_out (world p') 4 = sock_out (world p) 4 @ wire_request UPLOAD [argv ! 2] s 0 [] @ rest) p"
proof -
  have neg: "\<not> (7 :: int) < 0" by simp
  have fin: "wp (if \<not> ended then State_Monad.return Running else call unix_kernel (FdC (Close 7)) \<bind> (\<lambda>_.
      sendProtocolMsgLocked unix_kernel cfd TEXT st msg bg \<bind>
      (\<lambda>_. call unix_kernel (FdC (Close 4)) \<bind> (\<lambda>_. State_Monad.return Exited))))
      (\<lambda>r p'. \<exists>rest. length rest \<le> length (sock_in (world p) 7) \<and> sock_out (world p') 4 = sock_out (world p) 4 @ wire_request UPLOAD [argv ! 2] s 0 [] @ rest) p1"
    if "\<exists>rest. length rest \<le> length (sock_in (world p) 7) \<and> sock_out (world p1) 4 = sock_out (world p) 4 @ wire_request UPLOAD [argv ! 2] s 0 [] @ rest"
      "socks (world p1) = socks (world p)" for ended st msg p1
  proof (cases ended)
    case True
    then show ?thesis
      using that assms by simp (rule wp_mono, rule wp_unix_failed_child, auto)
  next
    case False
    then show ?thesis using that by (auto simp: wp_return)
  qed
  show ?thesis
    unfolding upload_child_def wp_bind
    apply (rule wp_unix_accept_data)
    apply (rule wp_unix_close_sock)
    using assms(1) apply simp
    apply (simp only: wp_bind neg if_False)
    apply (rule wp_unix_connect)
    apply (simp only: wp_bind)
    apply (rule wp_unix_request [where data = "[]"])
    using assms(1) apply simp
     apply (simp add: data_given_def)
    subgoal for p1 p2 p3 p4 sc
      apply (cases "answer_of (sock_in (world p3) 4) junk")
      apply (simp only: prod.case wp_if)
      apply (split if_split, intro conjI impI)
       apply (subst wp_bind)
       apply (rule wp_mono, rule wp_copy_any)
      using assms(1) apply simp
      using assms(1) apply simp
        apply simp
       apply (rule fin)
        apply (fastforce simp: grown_def)
       apply (simp add: grown_def)
      apply (rule fin [of _ True, simplified])
       apply auto
      done
    done
qed

section \<open>The handler forks\<close>

text \<open>The parent tells the client the port and goes on; the child serves the connection.\<close>

lemma with_data_port_parent:
  assumes "cfd \<in> set (socks (world p))" "6 \<in> set (socks (world p))" "0 < fork_ret (world p)"
  shows "wp (with_data_port unix_kernel cfd bg type path s child)
    (\<lambda>r p'. r = Returned s \<and> sock_out (world p') cfd = sock_out (world p) cfd @
       wire_message type 0 (port_info (data_port (world p)) path) 0) p"
  unfolding with_data_port_def wp_bind
  using assms
  apply (simp add: wp_simps Let_def cong: step_congs)
  apply (rule wp_unix_locked)
   apply simp
  apply (simp only: wp_bind)
  apply (rule wp_unix_close_sock)
   apply simp
  apply (simp add: wp_return)
  done

lemma with_data_port_child:
  assumes "fork_ret (world p) = 0"
    and "\<And>p'. world p' = world p \<Longrightarrow> wp (child 6) Q p'"
  shows "wp (with_data_port unix_kernel cfd bg type path s child) Q p"
  unfolding with_data_port_def release_socket_lock_def wp_bind
  using assms(1)
  apply (simp add: wp_simps Let_def cong: step_congs)
  apply (rule assms(2))
  apply simp
  done

text \<open>A round of the session, up to the command.\<close>

lemma wp_unix_line_round:
  assumes "cfd \<in> set (socks (world p))" "\<not> sigflag (world p)" "takeable line data"
    and "sock_in (world p) cfd = request_bytes line data"
    and "\<And>p1 sc. world p1 = (heard cfd (length (request_bytes line data)) (world p))\<lparr>sched := sc\<rparr> \<Longrightarrow>
      wp (line_command fuel M junk cfd line data s) (\<lambda>r. Q (continue_with r)) p1"
  shows "wp (client_round fuel unix_kernel M junk cfd s) Q p"
proof -
  obtain hdr payload where b: "build_request line data = (hdr, payload)" by fastforce
  have inp: "sock_in (world p) cfd = enc_msg_header hdr @ payload @ []" using assms(4) b by (simp add: request_bytes_def)
  have len: "length (request_bytes line data) = 16 + length payload"
    using header_codec.enc_width [of hdr] b by (simp add: request_bytes_def)
  show ?thesis
    by (rule wp_unix_client_round [OF assms(1-3) b inp]) (use assms(5) in \<open>simp add: len line_command_def b\<close>)
qed

end
