(* ===== verification/Data_Way.thy ===== *)
theory Data_Way
  imports Whole_Way Data_Connection
begin

text \<open>
  Downloads and uploads from end to end: the client's two threads and its transfer
  thread, the handler and its forked child, and the helper.
\<close>

section \<open>Five processes\<close>

text \<open>
  The child of a handler differs from its parent in what \<open>fork\<close> returns.  The client's
  socket \<open>fd\<close> ends at \<open>cfd\<close> of parent and child; the child answers when the data has
  passed, after the parent.  The data connection joins the client's socket 6 to the
  child's 7, and the child's 4 ends at the helper's \<open>hfd\<close>.  The transfer thread starts
  in a state \<open>t\<close> of its own, as the user may change files while the command is on its way.
\<close>

definition child_of :: "unix proc \<Rightarrow> unix proc" where
  "child_of p = p\<lparr>world := (world p)\<lparr>fork_ret := 0\<rparr>\<rparr>"

lemma child_of [simp]: "world (child_of p) = (world p)\<lparr>fork_ret := 0\<rparr>"
  by (simp add: child_of_def)

definition data_connected ::
  "int \<Rightarrow> int \<Rightarrow> int \<Rightarrow> (unix, 'a) sysprog \<Rightarrow> unix proc \<Rightarrow> (unix, 'b) sysprog \<Rightarrow> unix proc \<Rightarrow>
   (unix, 'c) sysprog \<Rightarrow> unix proc \<Rightarrow> (unix, 'd) sysprog \<Rightarrow> unix proc \<Rightarrow> bool" where
  "data_connected fd cfd hfd mc c mt t ms p mh q \<longleftrightarrow>
     set [cfd, 4, 6, 7] \<subseteq> set (socks (world p)) \<and> distinct [cfd, 4, 7] \<and> \<not> sigflag (world p) \<and> 0 < fork_ret (world p) \<and>
     6 \<in> set (socks (world t)) \<and> hfd \<in> set (socks (world q)) \<and>
     sock_in (world p) cfd = new_bytes fd mc c \<and>
     sock_in (world c) fd = new_bytes cfd ms p @ new_bytes cfd ms (child_of p) \<and>
     sock_in (world t) 6 = new_bytes 7 ms (child_of p) \<and> sock_in (world p) 7 = new_bytes 6 mt t \<and>
     sock_in (world q) hfd = new_bytes 4 ms (child_of p) \<and> sock_in (world p) 4 = new_bytes hfd mh q"

text \<open>A port and a path that fit the message which announces them.\<close>

definition announceable :: "int \<Rightarrow> string \<Rightarrow> bool" where
  "announceable port path \<longleftrightarrow> 0 \<le> port \<and> port < 65536 \<and> path \<noteq> [] \<and> (\<forall>c\<in>set path. \<not> isspace c \<and> c \<noteq> NUL) \<and>
     length (show_int port) + length path \<le> 52"

text \<open>A handler that has a line to take, and sockets for what follows.\<close>

definition line_waits :: "unix \<Rightarrow> int \<Rightarrow> string \<Rightarrow> bool" where
  "line_waits w cfd line \<longleftrightarrow> set [cfd, 4, 6, 7] \<subseteq> set (socks w) \<and> distinct [cfd, 4, 7] \<and> \<not> sigflag w \<and>
     takeable line [] \<and> sock_in w cfd = request_bytes line []"

lemma connected_line:
  assumes "data_connected fd cfd hfd (client_turn fuel fd) c mt t ms p mh q" "types (world c) fd fuel line []"
  shows "line_waits (world p) cfd line"
  using assms client_turn_sends [OF assms(2)] by (simp add: data_connected_def line_waits_def types_def)

lemma parent_round:
  assumes "line_waits (world p) cfd line" "0 < fork_ret (world p)"
    and "line_command fuel1 M junk cfd line [] s = with_data_port unix_kernel cfd bg type path s child"
  shows "new_bytes cfd (client_round fuel1 unix_kernel M junk cfd s) p = wire_message type 0 (port_info (data_port (world p)) path) 0"
proof (rule new_bytesI, rule wp_unix_line_round)
  note waits = assms(1) [unfolded line_waits_def]
  show "cfd \<in> set (socks (world p))" "\<not> sigflag (world p)" "takeable line []" "sock_in (world p) cfd = request_bytes line []"
    using waits by simp_all
  fix p1 :: "unix proc" and sc
  assume 1: "world p1 = (heard cfd (length (request_bytes line [])) (world p))\<lparr>sched := sc\<rparr>"
  show "wp (line_command fuel1 M junk cfd line [] s)
      (\<lambda>r p'. sock_out (world p') cfd = sock_out (world p) cfd @ wire_message type 0 (port_info (data_port (world p)) path) 0) p1"
    unfolding assms(3)
    by (rule wp_mono, rule with_data_port_parent) (use 1 waits assms(2) in simp_all)
qed

lemma child_round:
  assumes "line_waits (world p) cfd line"
    and "line_command fuel1 M junk cfd line [] s = with_data_port unix_kernel cfd bg type path s child"
    and "\<And>p1. socks (world p1) = socks (world p) \<Longrightarrow> sock_in (world p1) 4 = sock_in (world p) 4 \<Longrightarrow>
      sock_in (world p1) 7 = sock_in (world p) 7 \<Longrightarrow> sock_out (world p1) = sock_out (world p) \<Longrightarrow> wp (child 6) (\<lambda>r. Q) p1"
  shows "wp (client_round fuel1 unix_kernel M junk cfd s) (\<lambda>r. Q) (child_of p)"
proof (rule wp_unix_line_round)
  note waits = assms(1) [unfolded line_waits_def]
  show "cfd \<in> set (socks (world (child_of p)))" "\<not> sigflag (world (child_of p))" "takeable line []"
    "sock_in (world (child_of p)) cfd = request_bytes line []" using waits by simp_all
  fix p1 :: "unix proc" and sc
  assume 1: "world p1 = (heard cfd (length (request_bytes line [])) (world (child_of p)))\<lparr>sched := sc\<rparr>"
  show "wp (line_command fuel1 M junk cfd line [] s) (\<lambda>r. Q) p1"
    unfolding assms(2) by (rule with_data_port_child) (use 1 waits in \<open>auto intro!: assms(3)\<close>)
qed

text \<open>What the client makes of the two messages.\<close>

lemma wire_message_sized: "length msg < 2 ^ 31 \<Longrightarrow> sized (make_header type st (length msg + 1) bg) (msg @ [NUL])"
  by (simp add: sized_def)

lemma client_is_told:
  assumes "types (world c) fd fuel line []" "announceable port path" "type = DOWNLOAD_RES \<or> type = UPLOAD_RES"
    and "sock_in (world c) fd = wire_message type 0 (port_info port path) 0 @ wire_message TEXT 0 msg 0"
    and "NUL \<notin> set msg" "length msg < 2 ^ 31"
    and "c1 = snd (run_state (client_turn fuel fd) c)" "c2 = snd (run_state (read_round unix_kernel unix_flags fd) c1)"
  shows "started (world c1) = started (world c) @ [(type = UPLOAD_RES, port, path, 0)]"
    "screen (world c2) = screen (world c) @ dialogue line [] @ clear_line @ ''[Server]> '' @ msg @ [CHR 0x0A]"
    "\<not> waiting_for_response (cflags (world c2))"
proof -
  define h b h2 b2 where "h = make_header type 0 (length (port_info port path) + 1) 0" and "b = port_info port path @ [NUL]"
    and "h2 = make_header TEXT 0 (length msg + 1) 0" and "b2 = msg @ [NUL]"
  note defs = this
  note a = assms(2) [unfolded announceable_def]
  have inp: "sock_in (world c) fd = enc_msg_header h @ b @ enc_msg_header h2 @ b2"
    unfolding assms(4) wire_message_def defs by simp
  have "length (port_info port path) < 2 ^ 31" by (simp add: port_info_def)
  then have sz: "sized h b" "sized h2 b2" unfolding defs using assms(6) by (blast intro: wire_message_sized)+
  have t: "transfer_of h (b @ [NUL]) = Some (Thread_create (type = UPLOAD_RES) port path 0)"
    using data_port_roundtrip [of port path type 0] a assms(3) unfolding defs by simp
  have p: "parse_data_port (c_str (b @ [NUL])) = Some (port, path)"
    using t by (auto simp: transfer_of_def split: if_splits)
  have short: "\<not> path_overruns h (b @ [NUL])" "\<not> path_overruns h2 (b2 @ [NUL])"
    using a by (simp_all add: path_overruns_def p) (simp add: is_data_type_def defs)
  have "is_data_type (hdr_type h)" using assms(3) by (auto simp: is_data_type_def defs)
  then have quiet: "shown x h (b @ [NUL]) = []" for x
    using t assms(3) by (auto simp: shown_def transfer_of_def defs)
  have told: "shown x h2 (b2 @ [NUL]) = ''[Server]> '' @ msg @ [CHR 0x0A]" "\<not> waiting_for_response (answer_flags h2 f)" for x f
    using message_shown [OF assms(5), of 0] by (simp_all add: defs(3,4))
  have first: "wp (client_turn fuel fd) (\<lambda>r c'. screen (world c') = screen (world c) @ dialogue line [] \<and>
      fd \<in> set (socks (world c')) \<and> sock_in (world c') fd = enc_msg_header h2 @ b2 @ [] \<and>
      started (world c') = started (world c) @ [(type = UPLOAD_RES, port, path, 0)]) c"
  proof (rule wp_client_turn [OF assms(1)], goal_cases)
    case (1 c')
    show ?case
      by (rule wp_unix_read_message [OF _ _ sz(1) short(1), where rest = "enc_msg_header h2 @ b2"])
        (use 1 inp in \<open>simp_all add: quiet t threads_of_def dialogue_def\<close>)
  qed
  then show "started (world c1) = started (world c) @ [(type = UPLOAD_RES, port, path, 0)]"
    by (simp add: wp_run assms(7))
  have 1: "fd \<in> set (socks (world c1))" "sock_in (world c1) fd = enc_msg_header h2 @ b2 @ []"
      "screen (world c1) = screen (world c) @ dialogue line []"
    using first by (simp_all add: wp_run assms(7))
  have "wp (read_round unix_kernel unix_flags fd) (\<lambda>r c'.
      screen (world c') = screen (world c) @ dialogue line [] @ clear_line @ ''[Server]> '' @ msg @ [CHR 0x0A] \<and>
      \<not> waiting_for_response (cflags (world c'))) c1"
    by (rule wp_unix_read_message [OF 1(1,2) sz(2) short(2)])
      (use 1(3) in \<open>simp add: told\<close>)
  then show "screen (world c2) = screen (world c) @ dialogue line [] @ clear_line @ ''[Server]> '' @ msg @ [CHR 0x0A]"
    "\<not> waiting_for_response (cflags (world c2))"
    by (simp_all add: wp_run assms(8))
qed

section \<open>Such processes exist\<close>

definition data_p :: "string \<Rightarrow> bytes \<Rightarrow> (unix, 'a) sysprog \<Rightarrow> unix proc \<Rightarrow> unix proc" where
  "data_p line up mh q = fresh_proc (demo_world\<lparr>socks := [4, 5, 6, 7], fork_ret := 9, data_port := 8080,
     sock_in := (\<lambda>x. if x = 5 then request_bytes line [] else if x = 4 then new_bytes 4 mh q else up)\<rparr>) 0"

definition data_t :: "(unix, 'a) sysprog \<Rightarrow> unix proc \<Rightarrow> unix proc" where
  "data_t ms p = fresh_proc (demo_world\<lparr>socks := [6], sock_in := (\<lambda>x. new_bytes 7 ms (child_of p))\<rparr>) 0"

definition data_c :: "string \<Rightarrow> (unix, 'a) sysprog \<Rightarrow> unix proc \<Rightarrow> unix proc" where
  "data_c line ms p = fresh_proc (demo_world\<lparr>socks := [0, 3], tty := [line @ [CHR 0x0A]],
     sock_in := (\<lambda>x. new_bytes 5 ms p @ new_bytes 5 ms (child_of p))\<rparr>) 0"

lemma data_waits: "takeable line [] \<Longrightarrow> line_waits (world (data_p line up mh q)) 5 line"
  by (simp add: line_waits_def data_p_def fresh_proc_def demo_world_def)

lemma data_connected_demo:
  assumes "takeable line []" "CHR 0x0A \<notin> set line" "line \<noteq> ''exit''" "\<not> is_write line"
    and "new_bytes 4 ms (child_of (data_p line up mh q)) = req" "new_bytes 6 mt (data_t ms (data_p line up mh q)) = up"
    and "q = demo_q demo_world req" "p = data_p line up mh q" "t = data_t ms p" "c = data_c line ms p"
  shows "data_connected 3 5 4 (client_turn fuel 3) c mt t ms p mh q" "types (world c) 3 fuel line []"
proof -
  show t: "types (world c) 3 fuel line []"
    using assms(1-4) strip_newline_line [of line]
    by (auto simp: assms(10) types_def data_c_def fresh_proc_def takeable_def)
  show "data_connected 3 5 4 (client_turn fuel 3) c mt t ms p mh q"
    using client_turn_sends [OF t] assms(5,6) unfolding assms(8-10)
    by (simp add: data_connected_def data_p_def data_t_def data_c_def fresh_proc_def demo_world_def assms(7) demo_q_def)
qed

section \<open>Downloading a file\<close>

lemma words_of_download:
  assumes "types w fd fuel line []" "words_of line = [a, b, c]" "NUL \<notin> set what"
  shows "NUL \<notin> set b" "length b < 2 ^ 32 - 1" "NUL \<notin> set c" "length c < 2 ^ 32 - 1" "NUL \<notin> set (concluded what b c)" "NUL \<notin> set (concluded what c b)"
proof -
  have take: "takeable line []" using assms(1) by (simp add: types_def)
  have w: "b \<in> set (words_of line)" "c \<in> set (words_of line)" by (simp_all add: assms(2))
  show n: "NUL \<notin> set b" "length b < 2 ^ 32 - 1" "NUL \<notin> set c" "length c < 2 ^ 32 - 1"
    using takeable_word [OF take w(1)] takeable_word [OF take w(2)] by blast+
  show "NUL \<notin> set (concluded what b c)" "NUL \<notin> set (concluded what c b)"
    using n(1,3) assms(3) by (auto simp: concluded_def dest!: in_set_takeD)
qed

lemma download_command:
  assumes "takeable line []" "words_of line = [''download'', spath, cpath]" "sess_state s = STATE_LOGGED_IN"
  shows "line_command fuel M junk cfd line [] s = with_data_port unix_kernel cfd 0 DOWNLOAD_RES cpath s
    (download_child unix_kernel junk cfd 0 [''download'', spath, cpath] s)"
  using fixed_line(5) [OF assms(1,2)] assms(3) by (simp add: handleDownload_def is_background_command_def)

text \<open>The server's part: the bytes of the file on the data connection, and the two messages.\<close>

lemma download_served:
  assumes "data_connected fd cfd hfd (client_turn fuel fd) c mt t
      (client_round fuel1 unix_kernel M junk cfd s) p (command_round fuel2 unix_kernel helper hfd) q"
    and "types (world c) fd fuel line []" "words_of line = [''download'', spath, cpath]"
    and "sess_state s = STATE_LOGGED_IN" "session_wf s" "length junk = 5372"
    and "sandboxable (world q) s" "fresh_fd (world q)"
    and "node_at (world q) (abs_path (in_home (world q) s) spath) = Some (File content m)" "plain_mode m"
    and "length content < 2 ^ 32" "length content < fuel2"
  shows "sock_in (world t) 6 = content"
    "sock_in (world c) fd = wire_message DOWNLOAD_RES 0 (port_info (data_port (world p)) cpath) 0 @
      wire_message TEXT 0 (concluded ''download'' spath cpath) 0"
    "fs (world (snd (run_state (command_round fuel2 unix_kernel helper hfd) q))) = fs (world q)"
proof -
  let ?ms = "client_round fuel1 unix_kernel M junk cfd s" and ?argv = "[''download'', spath, cpath]"
    and ?a = "ok_answer ''Success'' (of_nat (length content)) (initial_response (command_code DOWNLOAD))"
  note con = assms(1) [unfolded data_connected_def]
  have take: "takeable line []" using assms(2) by (simp add: types_def)
  have n: "NUL \<notin> set ''download''" by simp
  note w = words_of_download [OF assms(2,3) n]
  note line = download_command [OF take assms(3,4), of fuel1 M junk cfd]
  note waits = connected_line [OF assms(1,2)]
  note child = child_round [OF waits line]
  have req: "new_bytes 4 ?ms (child_of p) = wire_request DOWNLOAD [spath] s 0 []"
    by (rule new_bytesI, rule child, rule wp_mono, rule download_child_asks) (use con in auto)
  then have in2: "sock_in (world q) hfd = wire_request DOWNLOAD [spath] s 0 [] @ []" using con by simp
  have hfd: "hfd \<in> set (socks (world q))" using con by simp
  have send: "sendable [spath] s []" using w(1,2) assms(5) by (simp add: sendable_def)
  have h: "wp (command_round fuel2 unix_kernel helper hfd) (\<lambda>r q'. sock_out (world q') hfd = sock_out (world q) hfd @ enc_response ?a @ content \<and>
      fs (world q') = fs (world q)) q"
  proof (rule wp_unix_command_round [OF hfd send in2], subst dispatch(3), goal_cases)
    case (2 q1 sc)
    show ?case
      by (rule wp_mono [OF HandleHelperDownload_unix [OF _ _ _ _ assms(10,12)]]) (use 2 hfd assms(7-9) in \<open>auto simp: Let_def\<close>)
  qed simp
  have "new_bytes hfd (command_round fuel2 unix_kernel helper hfd) q = enc_response ?a @ content"
    by (rule new_bytesI, rule wp_mono [OF h]) simp
  then have in4: "sock_in (world p) 4 = enc_response ?a @ content" using con by simp
  have out: "wp ?ms (\<lambda>r p'. sock_out (world p') 7 = sock_out (world p) 7 @ content \<and>
      sock_out (world p') cfd = sock_out (world p) cfd @ wire_message TEXT 0 (concluded ''download'' spath cpath) 0) (child_of p)"
    by (rule child, rule wp_mono, rule download_child_unix [where a = ?a and content = content])
      (use con in4 assms(6,11) in auto)
  have "new_bytes 7 ?ms (child_of p) = content"
    by (rule new_bytesI, rule wp_mono [OF out]) simp
  then show "sock_in (world t) 6 = content" using con by simp
  have said: "new_bytes cfd ?ms (child_of p) = wire_message TEXT 0 (concluded ''download'' spath cpath) 0"
    by (rule new_bytesI, rule wp_mono [OF out]) simp
  show "sock_in (world c) fd = wire_message DOWNLOAD_RES 0 (port_info (data_port (world p)) cpath) 0 @
      wire_message TEXT 0 (concluded ''download'' spath cpath) 0"
    using con parent_round [OF waits _ line] said by simp
  show "fs (world (snd (run_state (command_round fuel2 unix_kernel helper hfd) q))) = fs (world q)"
    using h by (simp add: wp_run)
qed

text \<open>C14. The whole way of a download.  A user types \<open>download\<close>, the path of a file of the home and a path of
  the own.  Then the handler's parent announces the port its child listens on and the client starts
  one thread that downloads from that port to that path; what the thread leaves there is exactly,
  byte for byte, the file of the server, whatever pieces the three connections cut it into, and no
  other file of the client has changed; the tree of the server is as it was; and the user is told
  that the download is concluded.\<close>

theorem download_end_to_end:
  assumes "data_connected fd cfd hfd (client_turn fuel fd) c (backgroundDownloadFunc fuel3 unix_kernel unix_flags ip port cpath False) t
      (client_round fuel1 unix_kernel M junk cfd s) p (command_round fuel2 unix_kernel helper hfd) q"
    and "types (world c) fd fuel line []" "words_of line = [''download'', spath, cpath]"
    and "port = data_port (world p)" "announceable port cpath"
    and "sess_state s = STATE_LOGGED_IN" "session_wf s" "length junk = 5372"
    and "sandboxable (world q) s" "fresh_fd (world q)"
    and "node_at (world q) (abs_path (in_home (world q) s) spath) = Some (File content m)" "plain_mode m"
    and "length content < 2 ^ 32" "length content < fuel2" "length content < fuel3"
    and "fresh_fd (world t)" "dest = abs_path (world t) cpath" "writable (world t) dest 0x1B6 old dm"
    and "w = world (snd (run_state (command_round fuel2 unix_kernel helper hfd) q))"
    and "t' = world (snd (run_state (backgroundDownloadFunc fuel3 unix_kernel unix_flags ip port cpath False) t))"
    and "c1 = snd (run_state (client_turn fuel fd) c)" "c2 = snd (run_state (read_round unix_kernel unix_flags fd) c1)"
  shows "started (world c1) = started (world c) @ [(False, port, cpath, 0)] \<and>
    node_at t' dest = Some (File content dm) \<and> (\<forall>g. g \<noteq> dest \<longrightarrow> node_at t' g = node_at (world t) g) \<and>
    fs w = fs (world q) \<and>
    screen (world c2) = screen (world c) @ dialogue line [] @ clear_line @
      ''[Server]> '' @ take 127 (''download '' @ spath @ SPC # cpath @ '' concluded'') @ [CHR 0x0A]"
proof -
  note con = assms(1) [unfolded data_connected_def]
  note served = download_served [OF assms(1-3,6-14)]
  have n: "NUL \<notin> set ''download''" by simp
  note client = client_is_told [OF assms(2,5) _ served(2) [folded assms(4)] words_of_download(5) [OF assms(2,3) n] _ assms(21,22)]
  have "node_at t' dest = Some (File content dm) \<and> (\<forall>g. g \<noteq> dest \<longrightarrow> node_at t' g = node_at (world t) g)"
    using backgroundDownloadFunc_unix [OF _ assms(16-18), of fuel3 ip port False] con assms(15)
    unfolding served(1) assms(20) by (simp add: wp_run)
  then show ?thesis
    using client served(3) unfolding assms(19) by (simp add: concluded_def)
qed

lemma data_nodes [simp]:
  "node_at (world (data_t ms p)) g = node_at demo_world g" "fresh_fd (world (data_t ms p))" "is_dir (world (data_t ms p)) []"
  "abs_path (world (data_t ms p)) x = abs_path demo_world x" "socks (world (data_t ms p)) = [6]"
  "sock_in (world (data_t ms p)) 6 = new_bytes 7 ms (child_of p)"
  by (simp_all add: data_t_def fresh_proc_def demo_world_def node_at_def fresh_fd_def abs_path_def is_dir_def)

lemma demo_paths_client:
  "abs_path demo_world ''g'' = [''g'']" "abs_path demo_world ''srv/bob/f'' = [''srv'', ''bob'', ''f'']"
  "node_at demo_world [''g''] = None" "announceable 8080 ''g''" "announceable 8080 ''srv/bob/f''"
  by (simp_all add: abs_path_def has_prefix_def demo_world_def node_at_def announceable_def isspace_def show_int_def show_nat.simps)

lemma data_worlds [simp]: "data_port (world (data_p line up mh q)) = 8080" "umask (world (data_t ms p)) = 0x12"
  by (simp_all add: data_p_def data_t_def fresh_proc_def)

theorem download_end_to_end_witness:
  "\<exists>n t. node_at (world (snd (run_state (backgroundDownloadFunc n unix_kernel unix_flags ''127.0.0.1'' 8080 ''g'' False) t))) [''g'']
     = Some (File ''hello'' 0x1A4)"
proof -
  let ?l = "''download f g''" and ?s = "session_of ''bob''" and ?mh = "command_round 9 unix_kernel demo_helper 4"
    and ?ms = "client_round 9 unix_kernel unix_shm (replicate 5372 NUL) 5 (session_of ''bob'')"
  let ?req = "wire_request DOWNLOAD [''f''] ?s 0 []"
  let ?p = "data_p ?l [] ?mh (demo_q demo_world ?req)"
  let ?n = "9 + length (new_bytes 7 ?ms (child_of ?p))"
  let ?mt = "backgroundDownloadFunc ?n unix_kernel unix_flags ''127.0.0.1'' 8080 ''g'' False"
  have l: "takeable ?l []" "words_of ?l = [''download'', ''f'', ''g'']" "CHR 0x0A \<notin> set ?l" "?l \<noteq> ''exit''" "\<not> is_write ?l"
    by (simp_all add: takeable_def words_of_def is_write_def has_prefix_def)
  have req: "new_bytes 4 ?ms (child_of ?p) = ?req"
    by (rule new_bytesI, rule child_round [OF data_waits [OF l(1)] download_command [OF l(1,2) session_of(1)]],
        rule wp_mono, rule download_child_asks) (auto simp: data_p_def fresh_proc_def)
  have quiet: "new_bytes 6 ?mt (data_t ?ms ?p) = []"
    by (rule new_bytesI, rule wp_mono, rule backgroundDownloadFunc_unix [OF _ _ refl, where old = "[]" and m = "0x1A4"])
      (simp_all add: writable_def demo_paths_client)
  note con = data_connected_demo [OF l(1,3-5) req quiet refl refl refl refl]
  have dest: "[''g''] = abs_path (world (data_t ?ms ?p)) ''g''" by (simp add: demo_paths_client)
  show ?thesis
    by (rule exI, rule exI, subst download_end_to_end [where content = "''hello''" and m = "0x180" and old = "[]" and dm = "0x1A4",
          OF con l(2) _ _ session_of(1,2) _ _ _ _ _ _ _ _ _ dest _ refl refl refl refl, THEN conjunct2, THEN conjunct1])
      (simp_all add: demo_paths_client writable_def)
qed

section \<open>Uploading a file\<close>

text \<open>The helper answers before it reads the data, and then stores all that comes.\<close>

lemma upload_helper:
  assumes "hfd \<in> set (socks (world q))" "sendable [path] s []"
    and "sock_in (world q) hfd = wire_request UPLOAD [path] s 0 [] @ rest" "length rest < fuel"
    and "sandboxable (world q) s" "fresh_fd (world q)" "dest = abs_path (in_home (world q) s) path"
    and "writable (in_home (world q) s) dest 0x180 old m"
  shows "wp (command_round fuel unix_kernel helper hfd) (\<lambda>r q'. sock_out (world q') hfd = sock_out (world q) hfd @
      enc_response (ok_answer ''Success'' 0 (initial_response (command_code UPLOAD))) \<and>
      node_at (world q') dest = Some (File rest m) \<and> (\<forall>g. g \<noteq> dest \<longrightarrow> node_at (world q') g = node_at (world q) g)) q"
proof (rule wp_unix_command_round [OF assms(1-3)], subst dispatch(4), goal_cases)
  case (2 q1 sc)
  show ?case
    by (rule wp_mono [OF HandleHelperUpload_unix [where q = dest and c = old and m = m]]) (use 2 assms in auto)
qed simp

lemma upload_command:
  assumes "takeable line []" "words_of line = [''upload'', cpath, spath]" "sess_state s = STATE_LOGGED_IN"
  shows "line_command fuel M junk cfd line [] s = with_data_port unix_kernel cfd 0 UPLOAD_RES cpath s
    (upload_child fuel unix_kernel junk cfd 0 [''upload'', cpath, spath] s)"
  using fixed_line(6) [OF assms(1,2)] assms(3) by (simp add: handleUpload_def is_background_command_def)

lemma upload_served:
  assumes "data_connected fd cfd hfd (client_turn fuel fd) c mt t
      (client_round fuel1 unix_kernel M junk cfd s) p (command_round fuel2 unix_kernel helper hfd) q"
    and "types (world c) fd fuel line []" "words_of line = [''upload'', cpath, spath]"
    and "sess_state s = STATE_LOGGED_IN" "session_wf s" "length junk = 5372"
    and "sandboxable (world q) s" "fresh_fd (world q)" "dest = abs_path (in_home (world q) s) spath"
    and "writable (in_home (world q) s) dest 0x180 old m" "new_bytes 6 mt t = content"
    and "length content < fuel1" "length content < fuel2"
    and "w = world (snd (run_state (command_round fuel2 unix_kernel helper hfd) q))"
  shows "node_at w dest = Some (File content m) \<and> (\<forall>g. g \<noteq> dest \<longrightarrow> node_at w g = node_at (world q) g)"
    "sock_in (world c) fd = wire_message UPLOAD_RES 0 (port_info (data_port (world p)) cpath) 0 @
      wire_message TEXT 0 (concluded ''upload'' spath cpath) 0"
proof -
  let ?ms = "client_round fuel1 unix_kernel M junk cfd s" and ?argv = "[''upload'', cpath, spath]"
    and ?mh = "command_round fuel2 unix_kernel helper hfd"
    and ?a = "ok_answer ''Success'' 0 (initial_response (command_code UPLOAD))"
  note con = assms(1) [unfolded data_connected_def]
  have take: "takeable line []" using assms(2) by (simp add: types_def)
  have n: "NUL \<notin> set ''upload''" by simp
  note w = words_of_download [OF assms(2,3) n]
  note line = upload_command [OF take assms(3,4), of fuel1 M junk cfd]
  note waits = connected_line [OF assms(1,2)]
  note child = child_round [OF waits line]
  have hfd: "hfd \<in> set (socks (world q))" using con by simp
  have send: "sendable [spath] s []" using w(3,4) assms(5) by (simp add: sendable_def)
  note h = upload_helper [OF hfd send _ _ assms(7-10)]
  have in7: "sock_in (world p) 7 = content" using con assms(11) by simp
  have "wp ?ms (\<lambda>r p'. \<exists>rest. length rest \<le> length content \<and>
      sock_out (world p') 4 = sock_out (world p) 4 @ wire_request UPLOAD [spath] s 0 [] @ rest) (child_of p)"
    by (rule child, rule wp_mono, rule upload_child_asks) (use con in7 in auto)
  then obtain rest where rest: "length rest \<le> length content" "new_bytes 4 ?ms (child_of p) = wire_request UPLOAD [spath] s 0 [] @ rest"
    by (auto simp: wp_run new_bytes_def)
  then have in2: "sock_in (world q) hfd = wire_request UPLOAD [spath] s 0 [] @ rest" using con by simp
  have "new_bytes hfd ?mh q = enc_response ?a"
    by (rule new_bytesI, rule wp_mono [OF h [OF in2]]) (use rest(1) assms(13) in auto)
  then have in4: "sock_in (world p) 4 = enc_response ?a" using con by simp
  have out: "wp ?ms (\<lambda>r p'. sock_out (world p') 4 = sock_out (world p) 4 @ wire_request UPLOAD [spath] s 0 [] @ content \<and>
      sock_out (world p') cfd = sock_out (world p) cfd @ wire_message TEXT 0 (concluded ''upload'' spath cpath) 0) (child_of p)"
    by (rule child, rule wp_mono, rule upload_child_unix [where a = ?a])
      (use con in4 in7 assms(6,12) in auto)
  have "new_bytes 4 ?ms (child_of p) = wire_request UPLOAD [spath] s 0 [] @ content"
    by (rule new_bytesI, rule wp_mono [OF out]) simp
  then have all: "sock_in (world q) hfd = wire_request UPLOAD [spath] s 0 [] @ content" using con by simp
  show "node_at w dest = Some (File content m) \<and> (\<forall>g. g \<noteq> dest \<longrightarrow> node_at w g = node_at (world q) g)"
    using h [OF all assms(13)] unfolding assms(14) by (simp add: wp_run)
  have said: "new_bytes cfd ?ms (child_of p) = wire_message TEXT 0 (concluded ''upload'' spath cpath) 0"
    by (rule new_bytesI, rule wp_mono [OF out]) simp
  show "sock_in (world c) fd = wire_message UPLOAD_RES 0 (port_info (data_port (world p)) cpath) 0 @
      wire_message TEXT 0 (concluded ''upload'' spath cpath) 0"
    using con parent_round [OF waits _ line] said by simp
qed

text \<open>C15. The whole way of an upload.  A user types \<open>upload\<close>, the path of an own file and a path in the home.
  Then the client starts one thread that uploads from that path to the port the handler's child
  listens on, and the file in the home is exactly, byte for byte, the file of the user: what it
  held before is gone, a missing file is created, and no other file of the server has changed;
  the files of the user are as they were, and the user is told that the upload is concluded.\<close>

theorem upload_end_to_end:
  assumes "data_connected fd cfd hfd (client_turn fuel fd) c (backgroundUploadFunc fuel3 unix_kernel unix_flags ip port cpath False) t
      (client_round fuel1 unix_kernel M junk cfd s) p (command_round fuel2 unix_kernel helper hfd) q"
    and "types (world c) fd fuel line []" "words_of line = [''upload'', cpath, spath]"
    and "port = data_port (world p)" "announceable port cpath"
    and "sess_state s = STATE_LOGGED_IN" "session_wf s" "length junk = 5372"
    and "sandboxable (world q) s" "fresh_fd (world q)" "dest = abs_path (in_home (world q) s) spath"
    and "writable (in_home (world q) s) dest 0x180 old m"
    and "fresh_fd (world t)" "node_at (world t) (abs_path (world t) cpath) = Some (File content cm)"
    and "length content < fuel1" "length content < fuel2" "length content < fuel3"
    and "w = world (snd (run_state (command_round fuel2 unix_kernel helper hfd) q))"
    and "t' = world (snd (run_state (backgroundUploadFunc fuel3 unix_kernel unix_flags ip port cpath False) t))"
    and "c1 = snd (run_state (client_turn fuel fd) c)" "c2 = snd (run_state (read_round unix_kernel unix_flags fd) c1)"
  shows "started (world c1) = started (world c) @ [(True, port, cpath, 0)] \<and>
    node_at w dest = Some (File content m) \<and> (\<forall>g. g \<noteq> dest \<longrightarrow> node_at w g = node_at (world q) g) \<and>
    fs t' = fs (world t) \<and>
    screen (world c2) = screen (world c) @ dialogue line [] @ clear_line @
      ''[Server]> '' @ take 127 (''upload '' @ spath @ SPC # cpath @ '' concluded'') @ [CHR 0x0A]"
proof -
  have thread: "wp (backgroundUploadFunc fuel3 unix_kernel unix_flags ip port cpath False)
      (\<lambda>r t'. sock_out (world t') 6 = sock_out (world t) 6 @ content \<and> fs (world t') = fs (world t)) t"
    by (rule wp_mono [OF backgroundUploadFunc_unix [OF _ assms(13,14,17)]]) (use assms(1) [unfolded data_connected_def] in auto)
  have "new_bytes 6 (backgroundUploadFunc fuel3 unix_kernel unix_flags ip port cpath False) t = content"
    by (rule new_bytesI, rule wp_mono [OF thread]) simp
  note served = upload_served [OF assms(1-3,6-12) this assms(15,16,18)]
  have n: "NUL \<notin> set ''upload''" by simp
  note client = client_is_told [OF assms(2,5) _ served(2) [folded assms(4)] words_of_download(6) [OF assms(2,3) n] _ assms(20,21)]
  show ?thesis
    using client served(1) thread unfolding assms(19) by (simp add: concluded_def wp_run)
qed

theorem upload_end_to_end_witness:
  "\<exists>q. node_at (world (snd (run_state (command_round 9 unix_kernel demo_helper 4) q))) [''srv'', ''bob'', ''g'']
     = Some (File ''hello'' 0x180)"
proof -
  let ?l = "''upload srv/bob/f g''" and ?s = "session_of ''bob''" and ?mh = "command_round 9 unix_kernel demo_helper 4"
    and ?ms = "client_round 9 unix_kernel unix_shm (replicate 5372 NUL) 5 (session_of ''bob'')"
    and ?mt = "backgroundUploadFunc 9 unix_kernel unix_flags ''127.0.0.1'' 8080 ''srv/bob/f'' False"
  let ?req = "wire_request UPLOAD [''g''] ?s 0 [] @ ''hello''"
  let ?q = "demo_q demo_world ?req"
  let ?p = "data_p ?l ''hello'' ?mh ?q" and ?a = "ok_answer ''Success'' 0 (initial_response (command_code UPLOAD))"
  have l: "takeable ?l []" "words_of ?l = [''upload'', ''srv/bob/f'', ''g'']" "CHR 0x0A \<notin> set ?l" "?l \<noteq> ''exit''" "\<not> is_write ?l"
    by (simp_all add: takeable_def words_of_def is_write_def has_prefix_def)
  have dest: "writable (in_home (world ?q) ?s) [''srv'', ''bob'', ''g''] 0x180 [] 0x180"
    "[''srv'', ''bob'', ''g''] = abs_path (in_home (world ?q) ?s) ''g''"
    using demo_nodes(5) by (simp_all add: writable_def is_dir_def)
  have send: "sendable [''g''] ?s []" by (simp add: sendable_def)
  have "new_bytes 4 ?mh ?q = enc_response ?a"
    by (rule new_bytesI, rule wp_mono, rule upload_helper [OF _ send _ _ _ _ dest(2,1), where rest = "''hello''"]) (simp, simp, simp, simp, simp, auto)
  then have a: "sock_in (world ?p) 4 = enc_response ?a" by (simp add: data_p_def fresh_proc_def)
  have req: "new_bytes 4 ?ms (child_of ?p) = ?req"
    by (rule new_bytesI, rule child_round [OF data_waits [OF l(1)] upload_command [OF l(1,2) session_of(1)]],
        rule wp_mono, rule upload_child_unix [where a = ?a]) (use a in \<open>auto simp: data_p_def fresh_proc_def\<close>)
  have up: "new_bytes 6 ?mt (data_t ?ms ?p) = ''hello''"
    by (rule new_bytesI, rule wp_mono, rule backgroundUploadFunc_unix [where m = "0x180" and content = "''hello''"]) (auto simp: demo_paths_client)
  note con = data_connected_demo [OF l(1,3-5) req up refl refl refl refl]
  show ?thesis
    by (rule exI, subst upload_end_to_end [where content = "''hello''" and m = "0x180" and old = "[]",
          OF con l(2) _ _ session_of(1,2) _ _ _ dest(2,1) _ _ _ _ _ refl refl refl refl, THEN conjunct2, THEN conjunct1])
      (simp_all add: demo_paths_client)
qed

end
