(* ===== verification/Meeting_Way.thy ===== *)
theory Meeting_Way
  imports Whole_Way
begin

text \<open>
  How one user's request reaches another user's screen: the handler of the sender, the
  shared table, the handler of the receiver and the receiver's client.
\<close>

lemma notification_no_nul: "NUL \<notin> set (notification_text n)"
proof -
  have i: "NUL \<notin> set (show_int j)" for j using show_nat_digits by (auto simp: show_int_def)
  have t: "NUL \<notin> set s \<Longrightarrow> NUL \<notin> set (take k s)" for k and s :: string by (meson in_set_takeD)
  obtain r b where n: "n = (r, b)" by fastforce
  show ?thesis
    unfolding notification_text_def n prod.case
    by (rule t) (simp add: sender_name_def receiver_name_def file_name_def c_str_no_nul i)
qed

lemma length_notification: "length (notification_text n) < RES_MSG"
  by (cases n) (simp add: notification_text_def)

text \<open>The thread of the client that reads, \<open>n\<close> messages long.\<close>

primrec reads :: "nat \<Rightarrow> int \<Rightarrow> (unix, unit) sysprog" where
  "reads 0 fd = State_Monad.return ()"
| "reads (Suc n) fd = do { _ \<leftarrow> read_round unix_kernel unix_flags fd; reads n fd }"

definition background_note :: "bool \<Rightarrow> string \<Rightarrow> string" where
  "background_note writing msg = clear_line @ ''[Background]> '' @ msg @ CHR 0x0A #
     (if writing then ''[Client]> (Still recording file content... hit Ctrl+D to finish)'' @ [CHR 0x0A] else prompt)"

lemma wp_reads:
  assumes "fd \<in> set (socks (world c))" "sock_in (world c) fd = concat (map (wire_text 0 1) msgs)"
    and "\<forall>m\<in>set msgs. NUL \<notin> set m \<and> length m < RES_MSG" "writing = is_writing_content (cflags (world c))"
    and "\<And>c'. screen (world c') = screen (world c) @ concat (map (background_note writing) msgs) \<Longrightarrow>
      cflags (world c') = cflags (world c) \<Longrightarrow> Q () c'"
  shows "wp (reads (length msgs) fd) Q c"
  using assms
proof (induction msgs arbitrary: c)
  case Nil
  then show ?case by (simp add: wp_return)
next
  case (Cons m msgs)
  have m: "NUL \<notin> set m" "length m < RES_MSG" using Cons.prems(3) by simp_all
  have sized: "sized (make_header TEXT 0 (length m + 1) 1) (m @ [NUL])" using m(2) by (simp add: sized_def)
  have w: "wire_text 0 1 m = enc_msg_header (make_header TEXT 0 (length m + 1) 1) @ m @ [NUL]" by (simp add: wire_text_def)
  have inp: "sock_in (world c) fd = enc_msg_header (make_header TEXT 0 (length m + 1) 1) @ (m @ [NUL]) @ concat (map (wire_text 0 1) msgs)"
    using Cons.prems(2) w by simp
  have short: "\<not> path_overruns (make_header TEXT 0 (length m + 1) 1) ((m @ [NUL]) @ [NUL])"
    by (simp add: path_overruns_def is_data_type_def)
  have flags: "answer_flags (make_header TEXT 0 (length m + 1) 1) f = f" for f by (simp add: answer_flags_def)
  show ?case
    unfolding list.size add_0_right add_Suc_right reads.simps wp_bind
  proof (rule wp_unix_read_message [OF Cons.prems(1) inp sized short], goal_cases)
    case (1 c1)
    have sc: "screen (world c1) = screen (world c) @ background_note writing m"
      unfolding 1(1) message_shown(1) [OF m(1), of 1, simplified] background_note_def Cons.prems(4)
      using message_shown(1) [OF m(1), of 1] by simp
    have fl: "cflags (world c1) = cflags (world c)" using 1(2) flags by simp
    show ?case
      by (rule Cons.IH) (use 1(4,5) Cons.prems sc fl in auto)
  qed
qed

text \<open>A process that looks into the table and the client it serves.\<close>

lemma notes_shown:
  assumes "sess_state s = STATE_LOGGED_IN" "cfd \<in> set (socks (world p))" "fd \<in> set (socks (world b))"
    and "sock_in (world b) fd = new_bytes cfd (check_for_notifications unix_kernel unix_shm cfd s) p"
    and "notes = map notification_text (fst (check_requests (session_user s) (shared (world p))))"
    and "writing = is_writing_content (cflags (world b))"
  shows "screen (world (snd (run_state (reads (length notes) fd) b))) = screen (world b) @ concat (map (background_note writing) notes)"
proof -
  obtain ns r2 where check: "check_requests (session_user s) (shared (world p)) = (ns, r2)" by fastforce
  obtain p' where "run_state (check_for_notifications unix_kernel unix_shm cfd s) p = ((), p')"
      "sock_out (world p') cfd = sock_out (world p) cfd @ concat (map (\<lambda>n. wire_text 0 1 (notification_text n)) ns)"
    using notifications_reach_client [OF assms(1,2) check] by auto
  then have "sock_in (world b) fd = concat (map (wire_text 0 1) notes)"
    unfolding assms(4,5) by (simp add: new_bytes_def check comp_def)
  moreover have "\<forall>m\<in>set notes. NUL \<notin> set m \<and> length m < RES_MSG"
    unfolding assms(5) using notification_no_nul length_notification by auto
  ultimately have "wp (reads (length notes) fd) (\<lambda>_ c'. screen (world c') = screen (world b) @ concat (map (background_note writing) notes)) b"
    by (rule wp_reads [OF assms(3) _ _ assms(6)])
  then show ?thesis by (simp only: wp_run)
qed

text \<open>A conversation for which the handler needs no helper.\<close>

definition talks :: "int \<Rightarrow> int \<Rightarrow> nat \<Rightarrow> unix proc \<Rightarrow> (unix, 'a) sysprog \<Rightarrow> unix proc \<Rightarrow> bool" where
  "talks fd cfd fuel c ms p \<longleftrightarrow> cfd \<in> set (socks (world p)) \<and> \<not> sigflag (world p) \<and>
     sock_in (world p) cfd = new_bytes fd (client_turn fuel fd) c \<and> sock_in (world c) fd = new_bytes cfd ms p"

lemma short_conversation:
  assumes "talks fd cfd fuel c (client_round fuel1 unix_kernel M junk cfd s) p" "types (world c) fd fuel line data"
    and command: "\<And>p1. shared (world p1) = shared (world p) \<Longrightarrow> cfd \<in> set (socks (world p1)) \<Longrightarrow>
      signals (events p1) = signals (events p) \<Longrightarrow> wp (line_command fuel1 M junk cfd line data s)
        (\<lambda>r p'. sock_out (world p') cfd = sock_out (world p1) cfd @ wire_text st 0 msg \<and> E p') p1"
    and "NUL \<notin> set msg" "length msg < RES_MSG"
  shows "E (snd (run_state (client_round fuel1 unix_kernel M junk cfd s) p))"
    "screen (world (snd (run_state (client_turn fuel fd) c))) = screen (world c) @ dialogue line (''[Server]> '' @ msg @ [CHR 0x0A])"
proof -
  let ?ms = "client_round fuel1 unix_kernel M junk cfd s" and ?mc = "client_turn fuel fd"
  note con = assms(1) [unfolded talks_def]
  obtain hdr payload where b: "build_request line data = (hdr, payload)" by fastforce
  have take: "takeable line data" "fd \<in> set (socks (world c))" using assms(2) by (simp_all add: types_def)
  have inp: "sock_in (world p) cfd = enc_msg_header hdr @ payload @ []"
    using con client_turn_sends [OF assms(2)] b by (simp add: request_bytes_def)
  have cfd: "cfd \<in> set (socks (world p))" "\<not> sigflag (world p)" using con by simp_all
  note cmd = command [unfolded line_command_def b prod.case]
  have round: "wp ?ms (\<lambda>r p'. sock_out (world p') cfd = sock_out (world p) cfd @ wire_text st 0 msg \<and> E p') p"
    by (rule wp_unix_client_round [OF cfd take(1) b inp], rule wp_mono [OF cmd]) (use cfd(1) in auto)
  then show "E (snd (run_state ?ms p))" by (simp add: wp_run)
  have "new_bytes cfd ?ms p = wire_text st 0 msg" by (rule new_bytesI, rule wp_mono [OF round]) simp
  then have in3: "sock_in (world c) fd = enc_msg_header (make_header TEXT st (length msg + 1) 0) @ (msg @ [NUL]) @ []"
    using con by (simp add: wire_text_def)
  have "wp ?mc (\<lambda>r c'. screen (world c') = screen (world c) @ dialogue line (''[Server]> '' @ msg @ [CHR 0x0A])) c"
  proof (rule wp_client_turn [OF assms(2)], goal_cases)
    case (1 c')
    show ?case
      by (rule wp_unix_read_round [of fd c' "make_header TEXT st (length msg + 1) 0" "msg @ [NUL]" "[]"])
        (use 1 in3 plain_text [OF assms(5)] message_shown(1) [OF assms(4), of 0] in \<open>auto simp: dialogue_def\<close>)
  qed
  then show "screen (world (snd (run_state ?mc c))) = screen (world c) @ dialogue line (''[Server]> '' @ msg @ [CHR 0x0A])"
    by (simp add: wp_run)
qed

lemma length_show_int:
  assumes "- (2 ^ 31) \<le> i" "i < 2 ^ 31"
  shows "length (show_int i) \<le> 11"
proof -
  have "nat i < 10 ^ Suc 9" "nat (- i) < 10 ^ Suc 9" using assms by simp_all
  from this [THEN length_show_nat] show ?thesis by (simp add: show_int_def)
qed

text \<open>What the two users are told.\<close>

definition sender_told :: "int \<Rightarrow> string" where
  "sender_told i = ''Transfer request created with ID: '' @ show_int i @ ''. Waiting for recipient...''"

definition receiver_told :: "string \<Rightarrow> string \<Rightarrow> int \<Rightarrow> string" where
  "receiver_told sender file i = ''[NOTIFICATION] User '' @ sender @ '' sent a file: '' @ file @ '' (ID: '' @ show_int i @ '')'' @
     CHR 0x0A # ''   > Accept: accept <dir> '' @ show_int i @ CHR 0x0A # ''   > Reject: reject '' @ show_int i"

lemma asks_receiver:
  assumes "sess_state s = STATE_LOGGED_IN" "cfd \<in> set (socks (world p))"
    and "find_handler dest (shared (world p)) = Some pid" "pid \<noteq> 0"
    and "create_request (session_user s) dest filename (shared (world p)) = Returned (i, r1)" "i \<noteq> - 1" "- (2 ^ 31) \<le> i" "i < 2 ^ 31"
  shows "wp (handleTransferRequest (Suc fuel) unix_kernel unix_shm cfd [c, filename, dest] s)
    (\<lambda>r p'. sock_out (world p') cfd = sock_out (world p) cfd @ wire_text 0 0 (sender_told i) \<and>
       shared (world p') = r1 \<and> signals (events p') = signals (events p) @ [(pid, SIGUSR1)]) p"
proof -
  have "length (sender_told i) \<le> 127" using length_show_int [OF assms(7,8)] by (simp add: sender_told_def)
  then have t: "take 127 (''Transfer request created with ID: '' @ show_int i @ ''. Waiting for recipient...'') = sender_told i"
    unfolding sender_told_def by (rule take_all)
  show ?thesis
    using transfer_request_signals_receiver [OF assms(1-6), of fuel c] unfolding t by (auto simp: wp_run)
qed

text \<open>C10. The whole way of a request between two users.  One user types \<open>transfer_request\<close>, a file and
  the name of a user who is online.  Then the handler sends exactly one signal in this round, to the
  process that serves that user; the sender reads the id of the request; and when the receiver's process looks into the
  shared table, the receiver's client shows, in the background and in the order of the table, one
  note for everything that is new to this user, among them the one that names the sender, the file
  and exactly the commands, with that id, that accept or reject it.\<close>

theorem offer_end_to_end:
  assumes "talks fd cfd fuel c (client_round (Suc fuel1) unix_kernel unix_shm junk cfd s) p"
    and "types (world c) fd fuel line []" "words_of line = [''transfer_request'', file, dest]"
    and "r = shared (world p)" "registry_ok r" "ids_ok r" "sint (global_id_counter r) < 2 ^ 31 - 1"
    and "sess_state s = STATE_LOGGED_IN" "length (session_user s) \<le> 19" "length dest \<le> 19"
    and "find_handler dest r = Some pid" "pid \<noteq> 0"
    and "create_request (session_user s) dest file r = Returned (i, r1)" "i \<noteq> - 1"
    and "p' = snd (run_state (client_round (Suc fuel1) unix_kernel unix_shm junk cfd s) p)"
    and "sess_state sb = STATE_LOGGED_IN" "session_user sb = dest" "shared (world pb) = shared (world p')"
    and "bfd \<in> set (socks (world pb))" "fdb \<in> set (socks (world b))"
    and "sock_in (world b) fdb = new_bytes bfd (check_for_notifications unix_kernel unix_shm bfd sb) pb"
    and "notes = map notification_text (fst (check_requests dest r1))" "writing = is_writing_content (cflags (world b))"
  shows "signals (events p') = signals (events p) @ [(pid, SIGUSR1)] \<and>
    screen (world (snd (run_state (client_turn fuel fd) c))) =
      screen (world c) @ dialogue line (''[Server]> '' @ sender_told i @ [CHR 0x0A]) \<and>
    screen (world (snd (run_state (reads (length notes) fdb) b))) =
      screen (world b) @ concat (map (background_note writing) notes) \<and>
    receiver_told (session_user s) file i \<in> set notes"
proof -
  obtain ns r2 where check: "check_requests dest r1 = (ns, r2)" by fastforce
  obtain found r3 where acc: "accept_request dest i r2 = (found, r3)" by fastforce
  have take: "takeable line []" using assms(2) by (simp add: types_def)
  have nul: "NUL \<notin> set (session_user s)" "NUL \<notin> set dest" "NUL \<notin> set file"
    using takeable_word(1) [OF take] assms(3) by (simp_all add: session_user_def c_str_no_nul)
  obtain t where i: "length file < FILENAME_SIZE" "- (2 ^ 31) \<le> i" "i < 2 ^ 31"
    by (rule accept_after_request [OF assms(5-7,13,14) nul(1,2,3) assms(9,10) check acc])
  have li: "length (show_int i) \<le> 11" by (rule length_show_int [OF i(2,3)])
  have line: "line_command (Suc fuel1) unix_shm junk cfd line [] s
      = handleTransferRequest (Suc fuel1) unix_kernel unix_shm cfd [''transfer_request'', file, dest] s"
    by (rule fixed_line(11) [OF take assms(3)]) simp_all
  have msg: "NUL \<notin> set (sender_told i)" "length (sender_told i) < RES_MSG"
    using show_nat_digits li by (auto simp: sender_told_def show_int_def)
  have asked: "wp (handleTransferRequest (Suc fuel1) unix_kernel unix_shm cfd [''transfer_request'', file, dest] s)
      (\<lambda>r p'. sock_out (world p') cfd = sock_out (world p1) cfd @ wire_text 0 0 (sender_told i) \<and>
         shared (world p') = r1 \<and> signals (events p') = signals (events p) @ [(pid, SIGUSR1)]) p1"
    if "shared (world p1) = shared (world p)" "cfd \<in> set (socks (world p1))" "signals (events p1) = signals (events p)" for p1
    unfolding that(3) [symmetric]
    by (rule asks_receiver [OF assms(8) that(2) _ assms(12) _ assms(14) i(2,3)]) (use assms(4,11,13) that(1) in auto)
  note talk = short_conversation [where E = "\<lambda>p'. shared (world p') = r1 \<and> signals (events p') = signals (events p) @ [(pid, SIGUSR1)]",
      OF assms(1,2) _ msg, of 0, unfolded line]
  have "shared (world p') = r1 \<and> signals (events p') = signals (events p) @ [(pid, SIGUSR1)]"
    unfolding assms(15) by (rule talk(1), rule asked)
  moreover have "screen (world (snd (run_state (client_turn fuel fd) c))) =
        screen (world c) @ dialogue line (''[Server]> '' @ sender_told i @ [CHR 0x0A])"
    by (rule talk(2), rule asked)
  ultimately have alice: "shared (world p') = r1" "signals (events p') = signals (events p) @ [(pid, SIGUSR1)]"
      "screen (world (snd (run_state (client_turn fuel fd) c))) =
        screen (world c) @ dialogue line (''[Server]> '' @ sender_told i @ [CHR 0x0A])"
    by simp_all
  have bob: "screen (world (snd (run_state (reads (length notes) fdb) b))) =
      screen (world b) @ concat (map (background_note writing) notes)"
    by (rule notes_shown [OF assms(16,19,20,21) _ assms(23)]) (simp add: assms(17,18,22) alice(1))
  obtain t where t: "(t, False) \<in> set ns" "tr_id t = i" "sender_name t = session_user s" "file_name t = file"
    by (rule request_is_told [OF assms(5-7,13,14) nul(1,2,3) assms(9,10) check])
  have "notification_text (t, False) = receiver_told (session_user s) file i"
    using li i(1) assms(9) by (simp add: notification_text_def t receiver_told_def)
  then have "receiver_told (session_user s) file i \<in> set notes"
    using t(1) unfolding assms(22) check by force
  then show ?thesis using alice bob by blast
qed

lemma one_online:
  "registry_ok (register_user ''bob'' 4711 (init_registry 0))" "ids_ok (register_user ''bob'' 4711 (init_registry 0))"
  "sint (global_id_counter (register_user ''bob'' 4711 (init_registry 0))) < 2 ^ 31 - 1"
proof -
  have step: "registry_step (init_registry 0) (Login ''bob'' 4711) (register_user ''bob'' 4711 (init_registry 0))" by (rule registry_step.intros)
  show "registry_ok (register_user ''bob'' 4711 (init_registry 0))" "ids_ok (register_user ''bob'' 4711 (init_registry 0))"
      "sint (global_id_counter (register_user ''bob'' 4711 (init_registry 0))) < 2 ^ 31 - 1"
    using registry_ok_step [OF step registry_ok_init] ids_ok_other_step [OF ids_ok_init step]
    by (auto simp: register_user_def init_registry_def split: option.split)
qed

theorem offer_end_to_end_witness:
  "\<exists>b notes. receiver_told ''alice'' ''a.txt'' 1 \<in> set notes \<and>
    screen (world (snd (run_state (reads (length notes) 8) b))) = concat (map (background_note False) notes)"
proof -
  let ?l = "''transfer_request a.txt bob''" and ?r = "register_user ''bob'' 4711 (init_registry 0)"
    and ?ms = "client_round (Suc 9) unix_kernel unix_shm (replicate 5372 NUL) 5 ann_session"
  obtain r1 where r1: "create_request ''alice'' ''bob'' ''a.txt'' ?r = Returned (1, r1)"
    using demo_create_online by blast
  define p where "p = demo_p ?r ?l [] (State_Monad.return ()) (fresh_proc demo_world 0)"
  define c where "c = demo_c ?l [] ?ms p"
  define pb where "pb = fresh_proc (demo_world\<lparr>socks := [7], shared := shared (world (snd (run_state ?ms p)))\<rparr>) 0"
  define b where "b = fresh_proc (demo_world\<lparr>socks := [8], sock_in :=
      (\<lambda>_. new_bytes 7 (check_for_notifications unix_kernel unix_shm 7 (session_of ''bob'')) pb)\<rparr>) 0"
  have l: "takeable ?l []" "CHR 0x0A \<notin> set ?l" "?l \<noteq> ''exit''" "if is_write ?l then length ([] :: bytes) < 9 else [] = []"
      "words_of ?l = [''transfer_request'', ''a.txt'', ''bob'']"
    by (simp_all add: takeable_def words_of_def is_write_def has_prefix_def)
  have t: "types (world c) 3 9 ?l []" unfolding c_def by (rule demo_types [OF l(1-4)])
  have talks: "talks 3 5 9 c ?ms p"
    using client_turn_sends [OF t] by (simp add: talks_def p_def demo_p_def c_def demo_c_def demo_world_def)
  have reg: "shared (world p) = ?r" by (simp add: p_def)
  have e: "world pb = demo_world\<lparr>socks := [7], shared := shared (world (snd (run_state ?ms p)))\<rparr>"
    "world b = demo_world\<lparr>socks := [8], sock_in :=
      (\<lambda>_. new_bytes 7 (check_for_notifications unix_kernel unix_shm 7 (session_of ''bob'')) pb)\<rparr>"
    by (simp_all add: pb_def b_def)
  have f: "screen (world b) = []" "is_writing_content (cflags (world b)) = False"
    by (simp_all add: e demo_world_def initial_flags_def)
  have s: "sess_state (session_of ''bob'') = STATE_LOGGED_IN" "session_user (session_of ''bob'') = ''bob''" by simp_all
  have r1': "create_request (session_user ann_session) ''bob'' ''a.txt'' ?r = Returned (1, r1)" using r1 by simp
  note way = offer_end_to_end [OF talks t l(5) reg [symmetric] one_online ann_session(1) _ _ find_bob _ r1' _ refl s _ _ _ _ refl refl, where pb = pb and bfd = 7 and fdb = 8 and b = b]
  have "screen (world (snd (run_state (reads (length (map notification_text (fst (check_requests ''bob'' r1)))) 8) b)))
        = screen (world b) @ concat (map (background_note False) (map notification_text (fst (check_requests ''bob'' r1)))) \<and>
      receiver_told ''alice'' ''a.txt'' 1 \<in> set (map notification_text (fst (check_requests ''bob'' r1)))"
    using way unfolding f by (simp add: e)
  then show ?thesis unfolding f append_Nil by blast
qed

section \<open>Rejecting a request\<close>

definition rejection_told :: "string \<Rightarrow> string \<Rightarrow> string" where
  "rejection_told recv file = ''[NOTIFICATION] User '' @ recv @ '' REJECTED your transfer: '' @ file"

text \<open>What a rejection does to the table, and what the sender is told next.\<close>

lemma reject_known:
  assumes "registry_ok r" "ids_ok r" "book r i = Some x" "t_to x = user" "reject_request user i r = (res, r')"
  shows "res = (1, t_from x)" "book r' = (book r)(i := None)" "online_users r' = online_users r"
    "rejection_told user (t_file x) \<in> set (map notification_text (fst (check_requests (t_from x) r')))" "0 < i" "i < 2 ^ 31"
proof -
  obtain k where k: "k < length (pending r)" "live (pending r ! k)" "tr_id (pending r ! k) = i" "entry_of (pending r ! k) = x"
    using assms(3) by (auto simp: book_Some [OF assms(2)])
  have slot: "slot_ok (pending r ! k)" using registry_ok_slot [OF assms(1)] k(1) assms(1) by (simp add: registry_ok_def)
  note names = slot_names [OF slot]
  have pos: "0 < i" "i \<le> sint (global_id_counter r)" using assms(2) k(1-3) unfolding ids_ok_def by metis+
  then show "0 < i" "i < 2 ^ 31" using sint_less [of "global_id_counter r"] by simp_all
  have x: "t_from x = sender_name (pending r ! k)" "t_to x = receiver_name (pending r ! k)" "t_file x = file_name (pending r ! k)"
    using k(4) by (auto simp: entry_of_def)
  have len: "length (t_from x) \<le> 19" "length (t_to x) \<le> 19" "length (t_file x) < FILENAME_SIZE"
    unfolding x names using slot length_c_str_nul [of "tr_sender (pending r ! k)"] length_c_str_nul [of "tr_receiver (pending r ! k)"]
      length_c_str_nul [of "tr_filename (pending r ! k)"] by (auto simp: slot_ok_def)
  have hit: "find_index (\<lambda>t. tr_id t = i \<and> tr_status t \<noteq> FREE) (pending r) = Some j \<Longrightarrow> j = k" for j
  proof -
    assume a: "find_index (\<lambda>t. tr_id t = i \<and> tr_status t \<noteq> FREE) (pending r) = Some j"
    have j: "j < length (pending r)" "tr_id (pending r ! j) = i" using find_index_less [OF a] find_index_holds [OF a] by simp_all
    have "live (pending r ! j)" using ids_ok_dead [OF assms(2) j(1)] j(2) pos(1) by auto
    then show "j = k" using assms(2) j k unfolding ids_ok_def by metis
  qed
  have "find_index (\<lambda>t. tr_id t = i \<and> tr_status t \<noteq> FREE) (pending r) \<noteq> None"
    using k by (auto simp: find_index_None live_def dest!: nth_mem)
  then have f: "find_index (\<lambda>t. tr_id t = i \<and> tr_status t \<noteq> FREE) (pending r) = Some k" using hit by blast
  define t where "t = (pending r ! k)\<lparr>tr_status := REJECTED, tr_id := 0\<rparr>"
  have rej: "res = (1, take 19 (t_from x))" "r' = r\<lparr>pending := (pending r)[k := t]\<rparr>"
    using assms(4,5) x(1,2) by (simp_all add: reject_request_def f t_def)
  then show "res = (1, t_from x)" "online_users r' = online_users r" using len(1) by simp_all
  show "book r' = (book r)(i := None)"
    using book_reject [OF assms(1,2), of i user] pos(1) assms(5) rej(1) by auto
  have tslot: "slot_ok t" using slot by (simp add: t_def)
  have t: "sender_name t = t_from x" "receiver_name t = t_to x" "file_name t = t_file x" "tr_status t = REJECTED"
    unfolding x names slot_names [OF tslot] by (simp_all add: t_def)
  have "t \<in> set (pending r')" using k(1) rej(2) by (simp add: set_update_memI)
  then have "(t, True) \<in> set (fst (check_requests (t_from x) r'))" by (simp add: check_requests_told t)
  moreover have "notification_text (t, True) = rejection_told user (t_file x)"
    using len(2,3) assms(4) by (simp add: notification_text_def t rejection_told_def)
  ultimately show "rejection_told user (t_file x) \<in> set (map notification_text (fst (check_requests (t_from x) r')))" by force
qed

lemma wp_unix_look:
  assumes "\<And>p'. world p' = world p \<Longrightarrow> events p' = events p \<Longrightarrow> Q (f (shared (world p))) p'"
  shows "wp (on_registry unix_shm (\<lambda>r. (f r, r))) Q p"
  using assms by (simp add: wp_def on_registry_def unix_shm_def)

lemma tells_sender:
  assumes "sess_state s = STATE_LOGGED_IN" "cfd \<in> set (socks (world p))"
    and "reject_request (session_user s) (atoi w) (shared (world p)) = ((1, sender), r')"
    and "find_handler sender r' = Some pid"
  shows "wp (handleRejectTransfer unix_kernel unix_shm cfd [c, w] s)
    (\<lambda>r p'. sock_out (world p') cfd = sock_out (world p) cfd @ wire_text 0 0 ''Transfer rejected.'' \<and>
       shared (world p') = r' \<and> signals (events p') = signals (events p) @ [(pid, SIGUSR1)]) p"
proof -
  have nth: "length [c, w] = 2" "[c, w] ! 1 = w" by simp_all
  show ?thesis
    unfolding handleRejectTransfer_def nth
    apply (simp only: assms(1) simp_thms if_False wp_bind)
    apply (rule wp_calm [OF calm_programs(1)])
    apply (rule wp_unix_critical, rule impI)
    apply (simp only: assms(3) fst_conv snd_conv prod.case if_True simp_thms wp_bind)
    apply (rule wp_calm [OF calm_programs(4)])
    apply (rule wp_unix_text)
     apply (simp add: assms(2))
    apply (rule impI, simp only: wp_bind)
    apply (simp add: wp_def [of "call unix_kernel (MemC SemWait)"] run_call wp_bind)
    apply (rule wp_unix_look)
    apply (simp add: assms(4) wp_def run_call signals_def)
    done
qed

text \<open>C11. The whole way of a rejection.  The user to whom an open request of the table is addressed types
  \<open>reject\<close> and its id.  Then this request, and no other, is out of the book of open requests, the user
  reads that it was rejected, the process that serves the sender gets the signal, the only one that is
  sent, and when it looks
  into the table, the sender's client shows one note for everything that is new to the sender, among
  them the one that names the receiver and the file.\<close>

theorem reject_end_to_end:
  assumes "talks fd cfd fuel c (client_round fuel1 unix_kernel unix_shm junk cfd s) p"
    and "types (world c) fd fuel line []" "words_of line = [''reject'', show_int i]"
    and "r = shared (world p)" "registry_ok r" "ids_ok r" "sess_state s = STATE_LOGGED_IN"
    and "book r i = Some x" "t_to x = session_user s" "find_handler (t_from x) r = Some pid"
    and "p' = snd (run_state (client_round fuel1 unix_kernel unix_shm junk cfd s) p)" "r' = shared (world p')"
    and "sess_state sb = STATE_LOGGED_IN" "session_user sb = t_from x" "shared (world pb) = r'"
    and "bfd \<in> set (socks (world pb))" "fdb \<in> set (socks (world b))"
    and "sock_in (world b) fdb = new_bytes bfd (check_for_notifications unix_kernel unix_shm bfd sb) pb"
    and "notes = map notification_text (fst (check_requests (t_from x) r'))" "writing = is_writing_content (cflags (world b))"
  shows "book r' = (book r)(i := None) \<and> signals (events p') = signals (events p) @ [(pid, SIGUSR1)] \<and>
    screen (world (snd (run_state (client_turn fuel fd) c))) = screen (world c) @ dialogue line (''[Server]> Transfer rejected.'' @ [CHR 0x0A]) \<and>
    screen (world (snd (run_state (reads (length notes) fdb) b))) = screen (world b) @ concat (map (background_note writing) notes) \<and>
    rejection_told (session_user s) (t_file x) \<in> set notes"
proof -
  obtain res r1 where rej: "reject_request (session_user s) i r = (res, r1)" by fastforce
  note known = reject_known [OF assms(5,6,8,9) rej]
  have take: "takeable line []" using assms(2) by (simp add: types_def)
  have line: "line_command fuel1 unix_shm junk cfd line [] s = handleRejectTransfer unix_kernel unix_shm cfd [''reject'', show_int i] s"
    by (rule fixed_line(12) [OF take assms(3)]) simp_all
  have a: "reject_request (session_user s) (atoi (show_int i)) r = ((1, t_from x), r1)"
    using rej known(1,5,6) by (simp add: atoi_show_int)
  have h: "find_handler (t_from x) r1 = Some pid" using assms(10) known(3) by (simp add: find_handler_def)
  have msg: "NUL \<notin> set ''Transfer rejected.''" "length ''Transfer rejected.'' < RES_MSG" by simp_all
  have told: "wp (handleRejectTransfer unix_kernel unix_shm cfd [''reject'', show_int i] s)
      (\<lambda>r p'. sock_out (world p') cfd = sock_out (world p1) cfd @ wire_text 0 0 ''Transfer rejected.'' \<and>
         shared (world p') = r1 \<and> signals (events p') = signals (events p) @ [(pid, SIGUSR1)]) p1"
    if "shared (world p1) = shared (world p)" "cfd \<in> set (socks (world p1))" "signals (events p1) = signals (events p)" for p1
    unfolding that(3) [symmetric]
    by (rule tells_sender [OF assms(7) that(2) _ h]) (use a assms(4) that(1) in simp)
  note talk = short_conversation [where E = "\<lambda>p'. shared (world p') = r1 \<and> signals (events p') = signals (events p) @ [(pid, SIGUSR1)]",
      OF assms(1,2) _ msg, of 0, unfolded line]
  have "shared (world p') = r1 \<and> signals (events p') = signals (events p) @ [(pid, SIGUSR1)]"
    unfolding assms(11) by (rule talk(1), rule told)
  moreover have "screen (world (snd (run_state (client_turn fuel fd) c))) =
        screen (world c) @ dialogue line (''[Server]> Transfer rejected.'' @ [CHR 0x0A])"
    by (rule trans, rule talk(2), rule told) simp_all
  ultimately have bob: "shared (world p') = r1" "signals (events p') = signals (events p) @ [(pid, SIGUSR1)]"
      "screen (world (snd (run_state (client_turn fuel fd) c))) =
        screen (world c) @ dialogue line (''[Server]> Transfer rejected.'' @ [CHR 0x0A])"
    by simp_all
  have "screen (world (snd (run_state (reads (length notes) fdb) b))) = screen (world b) @ concat (map (background_note writing) notes)"
    by (rule notes_shown [OF assms(13,16,17,18) _ assms(20)]) (simp add: assms(14,15,19))
  then show ?thesis using bob known(2,4) assms(12,19) by simp
qed

theorem reject_end_to_end_witness:
  "\<exists>b notes. rejection_told ''alice'' ''a.txt'' \<in> set notes \<and>
    screen (world (snd (run_state (reads (length notes) 8) b))) = concat (map (background_note False) notes)"
proof -
  let ?l = "''reject 1''" and ?r = "register_user ''bob'' 4711 (init_registry 0)"
    and ?ms = "client_round 9 unix_kernel unix_shm (replicate 5372 NUL) 5 ann_session"
    and ?x = "\<lparr>t_from = ''bob'', t_to = ''alice'', t_file = ''a.txt'', t_told = False\<rparr>"
  have "\<exists>r'. create_request ''bob'' ''alice'' ''a.txt'' ?r = Returned (1, r')"
    by (simp add: create_request_def init_registry_def free_request_def register_user_def numeral_eq_Suc free_entry_def)
  then obtain r1 where r1: "create_request ''bob'' ''alice'' ''a.txt'' ?r = Returned (1, r1)" by blast
  have "0 \<le> sint (global_id_counter ?r)" using one_online(2) by (simp add: ids_ok_def)
  then have ne: "r1 \<noteq> ?r" using create_full_iff [OF _ one_online(3) r1] by simp
  have bk: "book r1 1 = Some ?x" using book_create [OF one_online r1 ne] by simp
  have step: "registry_step ?r (Request ''bob'' ''alice'' ''a.txt'' 1) r1" by (rule registry_step.intros(5) [OF r1])
  have ok: "registry_ok r1" "ids_ok r1"
    using registry_ok_step [OF step one_online(1)] ids_ok_create [OF one_online(2) r1 one_online(3)] by auto
  have h: "find_handler ''bob'' r1 = Some 4711"
    using find_bob users_step [OF step] by (simp add: find_handler_def)
  define p where "p = demo_p r1 ?l [] (State_Monad.return ()) (fresh_proc demo_world 0)"
  define c where "c = demo_c ?l [] ?ms p"
  define pb where "pb = fresh_proc (demo_world\<lparr>socks := [7], shared := shared (world (snd (run_state ?ms p)))\<rparr>) 0"
  define b where "b = fresh_proc (demo_world\<lparr>socks := [8], sock_in :=
      (\<lambda>_. new_bytes 7 (check_for_notifications unix_kernel unix_shm 7 (session_of ''bob'')) pb)\<rparr>) 0"
  have n: "show_int 1 = ''1''" by code_simp
  have l: "takeable ?l []" "CHR 0x0A \<notin> set ?l" "?l \<noteq> ''exit''" "if is_write ?l then length ([] :: bytes) < 9 else [] = []"
      "words_of ?l = [''reject'', show_int 1]"
    unfolding n by (simp_all add: takeable_def words_of_def is_write_def has_prefix_def)
  have t: "types (world c) 3 9 ?l []" unfolding c_def by (rule demo_types [OF l(1-4)])
  have talks: "talks 3 5 9 c ?ms p"
    using client_turn_sends [OF t] by (simp add: talks_def p_def demo_p_def c_def demo_c_def demo_world_def)
  have reg: "shared (world p) = r1" by (simp add: p_def)
  have e: "world pb = demo_world\<lparr>socks := [7], shared := shared (world (snd (run_state ?ms p)))\<rparr>"
    "world b = demo_world\<lparr>socks := [8], sock_in :=
      (\<lambda>_. new_bytes 7 (check_for_notifications unix_kernel unix_shm 7 (session_of ''bob'')) pb)\<rparr>"
    by (simp_all add: pb_def b_def)
  have f: "screen (world b) = []" "is_writing_content (cflags (world b)) = False"
    by (simp_all add: e demo_world_def initial_flags_def)
  have s: "sess_state (session_of ''bob'') = STATE_LOGGED_IN" "session_user (session_of ''bob'') = t_from ?x"
    "t_to ?x = session_user ann_session" "find_handler (t_from ?x) r1 = Some 4711" using h by simp_all
  define told where "told = map notification_text (fst (check_requests (t_from ?x) (shared (world (snd (run_state ?ms p))))))"
  have "screen (world (snd (run_state (reads (length told) 8) b)))
        = screen (world b) @ concat (map (background_note (is_writing_content (cflags (world b)))) told) \<and>
      rejection_told (session_user ann_session) (t_file ?x) \<in> set told"
    using reject_end_to_end [OF talks t l(5) reg [symmetric] ok ann_session(1) bk s(3,4) refl refl s(1,2) _ _ _ _ told_def refl,
        where pb = pb and bfd = 7 and fdb = 8 and b = b] by (simp add: e)
  then show ?thesis unfolding f append_Nil by auto
qed

end
