(* ===== verification/Tree_Way.thy ===== *)
theory Tree_Way
  imports Whole_Way
begin

text \<open>
  The whole way of the commands that the handler only passes on, from the line the user types
  to the tree and back to the screen: moving, deleting and creating files and changing their
  modes; and of a login.
\<close>

section \<open>Commands that are passed on\<close>

lemma split_length: "(\<Sum>w\<leftarrow>split_on_space s. Suc (length w)) = Suc (length s)"
  by (induction s) (auto split: list.split)

lemma length_pack_args: "length (pack_args argv) = (\<Sum>w\<leftarrow>argv. Suc (length w))"
  by (induction argv) (simp_all add: pack_args_def)

lemma sendable_words:
  assumes "takeable line []" "words_of line = c # args" "length args \<le> MAXARGS" "session_wf s"
  shows "sendable args s []"
proof -
  have "(\<Sum>w\<leftarrow>words_of line. Suc (length w)) \<le> Suc (length line)"
    using sum_list_filter_le_nat [of "\<lambda>w. Suc (length w)" "\<lambda>w. w \<noteq> []" "split_on_space line"] split_length [of line]
    by (simp add: words_of_def)
  then have "length (pack_args args) < 2 ^ 32"
    using assms(1,2) by (simp add: length_pack_args takeable_def)
  moreover have "NUL \<notin> set a" if "a \<in> set args" for a
    by (rule takeable_word(1) [OF assms(1)]) (use that assms(2) in simp)
  ultimately show ?thesis using assms(3,4) by (simp add: sendable_def)
qed

lemma passed_on_way:
  assumes "connected fd cfd hfd (client_turn fuel fd) c (client_round fuel1 unix_kernel M junk cfd s) p
      (command_round fuel2 unix_kernel helper hfd) q"
    and "types (world c) fd fuel line []" "words_of line = cmd # args" "length args \<le> MAXARGS"
    and "line_command fuel1 M junk cfd line [] s = relay unix_kernel junk cfd hc args (Some s) s"
    and "session_wf s" "length junk = 5372"
    and "helper_does fuel2 helper hfd (world q) hc args s 0 [] (enc_response a) E"
    and "response_wf a" "res_text (enc_response a) = msg" "NUL \<notin> set msg" "length msg < RES_MSG"
  shows "E (world (snd (run_state (command_round fuel2 unix_kernel helper hfd) q))) \<and>
    screen (world (snd (run_state (client_turn fuel fd) c))) = screen (world c) @ dialogue line (''[Server]> '' @ msg @ [CHR 0x0A])"
proof -
  have take: "takeable line []" using assms(2) by (simp add: types_def)
  have asks: "asks_helper (shared (world p)) (shared (world p)) cfd (wire_request hc args s 0 []) (relayed junk) (\<lambda>_. Returned s)
      (line_command fuel1 M junk cfd line [] s)"
    using relay_asks [of _ cfd hc args "Some s"] unfolding assms(5) by simp
  have out: "relayed junk (enc_response a) = wire_text (res_status a) 0 msg"
    unfolding relayed_response [OF assms(9,7)] assms(10) by (rule refl)
  note talk = text_conversation [where E = E, OF assms(1,2) asks sendable_words [OF take assms(3,4,6)] assms(8) out assms(11,12)]
  show ?thesis using talk(1,4) by blast
qed

text \<open>The helper's answers.\<close>

lemma ok_text:
  "NUL \<notin> set msg \<Longrightarrow> length msg < RES_MSG \<Longrightarrow> response_wf (ok_answer msg n (initial_response cmd)) \<and>
     res_text (enc_response (ok_answer msg n (initial_response cmd))) = msg"
  by (simp add: res_text_ok ok_answer_wf)

lemma refusal_text:
  assumes "NUL \<notin> set msg" "length msg < RES_MSG"
  shows "response_wf (set_msg msg (initial_response cmd)) \<and> res_text (enc_response (set_msg msg (initial_response cmd))) = msg"
proof
  show "response_wf (set_msg msg (initial_response cmd))"
    by (simp add: response_wf_def set_msg_def initial_response_def length_snprintf)
qed (rule res_text_set [OF assms])

lemma demo_passed_on:
  assumes "takeable line []" "CHR 0x0A \<notin> set line" "line \<noteq> ''exit''" "\<not> is_write line"
    and "line_command 9 unix_shm (replicate 5372 NUL) 5 line [] (session_of ''bob'') =
      relay unix_kernel (replicate 5372 NUL) 5 hc args (Some (session_of ''bob'')) (session_of ''bob'')"
  shows "\<exists>c p. connected 3 5 4 (client_turn 9 3) c
      (client_round 9 unix_kernel unix_shm (replicate 5372 NUL) 5 (session_of ''bob'')) p
      (command_round 9 unix_kernel demo_helper 4) (demo_q demo_world (wire_request hc args (session_of ''bob'') 0 [])) \<and>
    types (world c) 3 9 line []"
proof -
  have w: "if is_write line then length ([] :: bytes) < 9 else [] = []" using assms(4) by simp
  note asks = relay_asks [where reg = "init_registry 0" and cfd = 5 and asked = "Some (session_of ''bob'')" and s = "session_of ''bob''" and
      cmd = hc and args = args and junk = "replicate 5372 NUL", folded assms(5), unfolded asked_as]
  show ?thesis
    using demo_connected [OF assms(1-3) w asks refl refl refl refl refl four, where ?fuel2.0 = 9 and helper = demo_helper] by blast
qed

section \<open>Moving a file\<close>

text \<open>C18. The whole way of a move.  A user types \<open>move\<close>, the path of a file of the home and a directory of it
  that has no entry of that name; then the file is in that directory under its old name, with its contents
  and mode, no longer at its old place, nothing else has changed, and the user reads that it was moved.\<close>

theorem move_end_to_end:
  assumes "connected fd cfd hfd (client_turn fuel fd) c (client_round fuel1 unix_kernel M junk cfd s) p
      (command_round fuel2 unix_kernel helper hfd) q"
    and "types (world c) fd fuel line []" "words_of line = [''move'', path1, path2]"
    and "sess_state s = STATE_LOGGED_IN" "session_wf s" "length junk = 5372"
    and "sandboxable (world q) s" "fresh_fd (world q)" "home = in_home (world q) s"
    and "f = abs_path home path1" "d = abs_path home path2" "t = abs_path home (move_target path1 path2)"
    and "node_at (world q) f = Some (File content m)" "plain_mode m" "leaf (world q) f"
    and "node_at (world q) d = Some (Dir dm)" "plain_mode dm"
    and "node_at (world q) t = None" "t \<noteq> []" "is_dir (world q) (butlast t)"
    and "w = world (snd (run_state (command_round fuel2 unix_kernel helper hfd) q))"
    and "c' = world (snd (run_state (client_turn fuel fd) c))"
  shows "(\<forall>g. node_at w g = (if g = t then Some (File content m) else if g = f then None else node_at (world q) g)) \<and>
    screen c' = screen (world c) @ dialogue line (''[Server]> Moved successfully'' @ [CHR 0x0A])"
proof -
  define a where "a = ok_answer ''Moved successfully'' (res_payload_len (initial_response (command_code MOVE)))
      (initial_response (command_code MOVE))"
  have take: "takeable line []" using assms(2) by (simp add: types_def)
  have line: "line_command fuel1 M junk cfd line [] s = relay unix_kernel junk cfd MOVE [path1, path2] (Some s) s"
    using fixed_line(7) [OF take assms(3)] assms(4) by (simp add: handleMove_def)
  define E where "E = (\<lambda>w. \<forall>g. node_at w g = (if g = t then Some (File content m) else if g = f then None else node_at (world q) g))"
  have helper: "helper_does fuel2 helper hfd (world q) MOVE [path1, path2] s 0 [] (enc_response a) E"
  proof (rule helper_doesI, subst dispatch(6), goal_cases)
    case (2 q1 sc)
    have hfd: "hfd \<in> set (socks (world q1))" using connected_hfd [OF assms(1)] 2 by simp
    show ?case
      by (rule wp_mono [OF HandleHelperMove_unix [OF _ hfd, where q = f and d = d and t = t and c = content and m = m and dm = dm
              and w = "home\<lparr>sock_in := (sock_in (world q))(hfd := []), sched := sc\<rparr>"]])
        (use 2 assms(7-20) in \<open>auto simp: E_def a_def leaf_def\<close>)
  qed simp
  have ok: "response_wf a" "res_text (enc_response a) = ''Moved successfully''" unfolding a_def by (simp_all add: ok_text)
  show ?thesis
    using passed_on_way [OF assms(1-3) _ line assms(5,6) helper ok] unfolding assms(21,22) E_def by simp
qed

theorem move_end_to_end_witness:
  "node_at (world (snd (run_state (command_round 9 unix_kernel demo_helper 4)
     (demo_q demo_world (wire_request MOVE [''f'', ''d''] (session_of ''bob'') 0 []))))) [''srv'', ''bob'', ''d'', ''f'']
   = Some (File ''hello'' 0x180)"
proof -
  let ?l = "''move f d''"
  have l: "takeable ?l []" "words_of ?l = [''move'', ''f'', ''d'']" "CHR 0x0A \<notin> set ?l" "?l \<noteq> ''exit''" "\<not> is_write ?l"
    by (simp_all add: takeable_def words_of_def is_write_def has_prefix_def)
  have "line_command 9 unix_shm (replicate 5372 NUL) 5 ?l [] (session_of ''bob'')
      = relay unix_kernel (replicate 5372 NUL) 5 MOVE [''f'', ''d''] (Some (session_of ''bob'')) (session_of ''bob'')"
    using fixed_line(7) [OF l(1,2)] by (simp add: handleMove_def)
  from demo_passed_on [OF l(1,3-5) this] obtain c p where con: "connected 3 5 4 (client_turn 9 3) c
      (client_round 9 unix_kernel unix_shm (replicate 5372 NUL) 5 (session_of ''bob'')) p
      (command_round 9 unix_kernel demo_helper 4) (demo_q demo_world (wire_request MOVE [''f'', ''d''] (session_of ''bob'') 0 []))"
      and t: "types (world c) 3 9 ?l []" by blast
  show ?thesis
    by (subst move_end_to_end [where content = "''hello''" and m = "0x180" and dm = "0x1C0", OF con t l(2) session_of(1,2) _ _ _ refl refl refl refl
          _ _ _ _ _ _ _ _ refl refl, THEN conjunct1, rule_format])
      (simp_all add: demo_target leaf_def is_dir_def node_at_def)
qed

section \<open>Deleting a file\<close>

lemma helper_deletes:
  assumes "hfd \<in> set (socks w)" "sandboxable w s" "fresh_fd w" "f = abs_path (in_home w s) path"
    and "node_at w f = (if there then Some (File content m) else None)" "plain_mode m"
    and "res = initial_response (command_code DELETE)"
  shows "helper_does fuel helper hfd w DELETE [path] s 0 []
    (enc_response (if there then ok_answer ''Deleted successfully'' (res_payload_len res) res
      else set_msg (''Delete failed: '' @ strerror ENOENT) res))
    (\<lambda>w'. \<forall>g. node_at w' g = (if g = f then None else node_at w g))"
proof (rule helper_doesI, subst dispatch(5), goal_cases)
  case (2 q1 sc)
  have hfd: "hfd \<in> set (socks (world q1))" using assms(1) 2 by simp
  show ?case
  proof (cases there)
    case True
    show ?thesis
      by (rule wp_mono [OF HandleHelperDelete_unix [OF _ hfd, where q = f and c = content and m = m]])
        (use 2 True assms(2-7) in auto)
  next
    case False
    have gone: "node_at w f = None" using False assms(5) by simp
    have box: "sandboxable (world q1) s" "node_at (world q1) (abs_path (in_home (world q1) s) path) = None"
      using 2 gone assms(2,4) by simp_all
    have "node_at w1 g = (if g = f then None else node_at w g)" if "fs w1 = fs (world q1)" for w1 g
      using that 2 gone by (simp add: node_at_def)
    then show ?thesis
      using HandleHelperDelete_missing [OF _ hfd, of "request_header DELETE [path] s 0 (of_nat (length []))" path res] box 2 False assms(7)
      by (simp add: wp_run)
  qed
qed simp

text \<open>C17. The whole way of a delete, and of a refusal.  A user types \<open>delete\<close> and a path.  When that is a file
  of the home, exactly this file is gone afterwards and the user reads that it was deleted; when
  nothing is there, the user reads the reason the system gave the helper and the tree is as it was.\<close>

theorem delete_end_to_end:
  assumes "connected fd cfd hfd (client_turn fuel fd) c (client_round fuel1 unix_kernel M junk cfd s) p
      (command_round fuel2 unix_kernel helper hfd) q"
    and "types (world c) fd fuel line []" "words_of line = [''delete'', path]"
    and "sess_state s = STATE_LOGGED_IN" "session_wf s" "length junk = 5372"
    and "sandboxable (world q) s" "fresh_fd (world q)" "f = abs_path (in_home (world q) s) path"
    and "node_at (world q) f = (if there then Some (File content m) else None)" "plain_mode m"
    and "w = world (snd (run_state (command_round fuel2 unix_kernel helper hfd) q))"
    and "c' = world (snd (run_state (client_turn fuel fd) c))"
  shows "(\<forall>g. node_at w g = (if g = f then None else node_at (world q) g)) \<and>
    screen c' = screen (world c) @ dialogue line ((if there then ''[Server]> Deleted successfully''
      else ''[Server]> Delete failed: No such file or directory'') @ [CHR 0x0A])"
proof -
  let ?res = "initial_response (command_code DELETE)"
  let ?msg = "if there then ''Deleted successfully'' else ''Delete failed: '' @ strerror ENOENT"
  define a where "a = (if there then ok_answer ''Deleted successfully'' (res_payload_len ?res) ?res
      else set_msg (''Delete failed: '' @ strerror ENOENT) ?res)"
  have take: "takeable line []" using assms(2) by (simp add: types_def)
  have line: "line_command fuel1 M junk cfd line [] s = relay unix_kernel junk cfd DELETE [path] (Some s) s"
    using fixed_line(3) [OF take assms(3)] assms(4) by (simp add: handleDelete_def)
  note helper = helper_deletes [OF connected_hfd [OF assms(1)] assms(7-11) refl, of fuel2 helper, folded a_def]
  have m: "NUL \<notin> set ''Deleted successfully''" "length ''Deleted successfully'' < RES_MSG"
      "NUL \<notin> set (''Delete failed: '' @ strerror ENOENT)" "length (''Delete failed: '' @ strerror ENOENT) < RES_MSG"
    by (simp_all add: strerror_def)
  have ok: "response_wf a" "res_text (enc_response a) = ?msg" "NUL \<notin> set ?msg" "length ?msg < RES_MSG"
    using ok_text [OF m(1,2)] refusal_text [OF m(3,4)] m unfolding a_def by (cases there; simp only: if_True if_False)+
  have said: "''[Server]> '' @ ?msg @ [CHR 0x0A] = (if there then ''[Server]> Deleted successfully''
      else ''[Server]> Delete failed: No such file or directory'') @ [CHR 0x0A]"
    by (cases there) (simp_all add: strerror_def)
  show ?thesis
    using passed_on_way [OF assms(1-3) _ line assms(5,6) helper ok] unfolding assms(12,13) said by simp
qed

theorem delete_end_to_end_witness:
  "node_at (world (snd (run_state (command_round 9 unix_kernel demo_helper 4)
     (demo_q demo_world (wire_request DELETE [''f''] (session_of ''bob'') 0 []))))) [''srv'', ''bob'', ''f''] = None"
proof -
  let ?l = "''delete f''" and ?s = "session_of ''bob''"
  have l: "takeable ?l []" "words_of ?l = [''delete'', ''f'']" "CHR 0x0A \<notin> set ?l" "?l \<noteq> ''exit''"
    "if is_write ?l then length ([] :: bytes) < 9 else [] = []"
    by (simp_all add: takeable_def words_of_def)
  have "line_command 9 unix_shm (replicate 5372 NUL) 5 ?l [] ?s = relay unix_kernel (replicate 5372 NUL) 5 DELETE [''f''] (Some ?s) ?s"
    using fixed_line(3) [OF l(1,2)] by (simp add: handleDelete_def)
  note asks = relay_asks [where reg = "init_registry 0" and cfd = 5 and asked = "Some ?s" and s = ?s and cmd = DELETE and args = "[''f'']" and
      junk = "replicate 5372 NUL", folded this, unfolded asked_as]
  note con = demo_connected [OF l(1,3-5) asks refl refl refl refl refl four, where ?fuel2.0 = 9 and helper = demo_helper]
  show ?thesis
    by (subst delete_end_to_end [where there = True and content = "''hello''" and m = "0x180", OF con l(2) session_of(1,2) _ _ _ refl _ _ refl refl, THEN conjunct1, rule_format])
      simp_all
qed

section \<open>Creating files and directories\<close>

lemma copied_text:
  assumes "NUL \<notin> set msg" "length msg < RES_MSG - 1" "a = copy_msg msg ((initial_response cmd)\<lparr>res_status := 0\<rparr>)"
  shows "response_wf a \<and> res_text (enc_response a) = msg"
proof -
  have m: "res_msg a = strncpy (RES_MSG - 1) msg (res_msg (initial_response cmd))"
    by (simp add: assms(3) copy_msg_def)
  have "res_text (enc_response a) = msg"
    unfolding res_text_response m by (rule c_str_strncpy [OF assms(1,2)])
  then show ?thesis by (simp add: assms(3) copy_msg_def response_wf_def initial_response_def length_strncpy)
qed

definition make_line :: "string \<Rightarrow> string \<Rightarrow> bool \<Rightarrow> string list" where
  "make_line path mode dir = path # mode # (if dir then [''-d''] else [])"

lemma helper_makes:
  assumes "hfd \<in> set (socks (world q1))" "sandboxable (world q1) s"
    and "0 \<le> next_fd (world q1)" "\<forall>x\<in>set (socks (world q1)). x < next_fd (world q1)"
    and "f = abs_path (in_home (world q1) s) path"
    and "if dir then node_at (world q1) f = None \<and> f \<noteq> [] \<and> is_dir (world q1) (butlast f)
      else is_dir (world q1) (abs_path (in_home (world q1) s) ''.'') \<and> writable (world q1) f (octal_mode mode) old m"
    and "res = initial_response (command_code CREATE_FILE)"
    and "a = (if dir then ok_answer ''Directory created successfully'' (res_payload_len res) res
      else copy_msg ''File created succesfully'' (res\<lparr>res_status := 0\<rparr>))"
    and "\<And>q'. sock_out (world q') hfd = sock_out (world q1) hfd @ enc_response a \<Longrightarrow>
      \<forall>g. node_at (world q') g = (if g = f then Some (if dir then Dir (creation_mode (world q1) (octal_mode mode)) else File [] m) else node_at (world q1) g) \<Longrightarrow>
      Q (Returned a) q'"
  shows "wp (handle_request fuel unix_kernel helper hfd (request_header CREATE_FILE (make_line path mode dir) s 0 n)
      (make_line path mode dir) data) Q q1"
proof (cases dir)
  case True
  then have argv: "make_line path mode dir = [path, mode, ''-d'']" by (simp add: make_line_def)
  have req: "decode_command (req_cmd (request_header CREATE_FILE [path, mode, ''-d''] s 0 n)) = Some CREATE_FILE"
      "2 < req_argc (request_header CREATE_FILE [path, mode, ''-d''] s 0 n)" by simp_all
  show ?thesis
    unfolding argv dispatch(10) [OF req] simp_thms
    by (rule wp_mono [OF HandlerHelperCreateFile_unix_dir [OF _ assms(1), where q = f]])
      (use True assms in auto)
next
  case False
  then have argv: "make_line path mode dir = [path, mode]" by (simp add: make_line_def)
  have req: "decode_command (req_cmd (request_header CREATE_FILE [path, mode] s 0 n)) = Some CREATE_FILE"
      "\<not> 2 < req_argc (request_header CREATE_FILE [path, mode] s 0 n)" by simp_all
  show ?thesis
    unfolding argv dispatch(11) [OF req]
    by (rule wp_mono [OF HandlerHelperCreateFile_unix_file [OF _ assms(1), where q = f and c = old and m = m]])
      (use False assms in auto)
qed

text \<open>C19. The whole way of a create.  A user types \<open>create\<close>, a path, a mode in octal digits and perhaps \<open>-d\<close>;
  then there is an empty directory under that path where nothing was before, or an empty file.  The
  directory and a new file have that mode less the bits of the helper's mask; a file that was already
  there loses its contents and keeps its mode.  Nothing else has changed, and the user reads which of
  the two was made.  For a file the resulting mode has to let its owner read and write: the helper
  opens the new file a second time to lock it, which a mode such as 0440 makes the system refuse.\<close>

theorem create_end_to_end:
  assumes "connected fd cfd hfd (client_turn fuel fd) c (client_round fuel1 unix_kernel M junk cfd s) p
      (command_round fuel2 unix_kernel helper hfd) q"
    and "types (world c) fd fuel line []" "words_of line = ''create'' # path # mode # (if dir then [''-d''] else [])"
    and "sess_state s = STATE_LOGGED_IN" "session_wf s" "length junk = 5372"
    and "sandboxable (world q) s" "0 \<le> next_fd (world q)" "\<forall>x\<in>set (socks (world q)). x < next_fd (world q)"
    and "home = in_home (world q) s" "f = abs_path home path"
    and "if dir then node_at (world q) f = None \<and> f \<noteq> [] \<and> is_dir (world q) (butlast f)
      else is_dir (world q) (abs_path home ''.'') \<and> writable (world q) f (octal_mode mode) old m \<and> and m 0x180 = 0x180"
    and "w = world (snd (run_state (command_round fuel2 unix_kernel helper hfd) q))"
    and "c' = world (snd (run_state (client_turn fuel fd) c))"
  shows "(\<forall>g. node_at w g = (if g = f then Some (if dir then Dir (creation_mode (world q) (octal_mode mode)) else File [] m) else node_at (world q) g)) \<and>
    screen c' = screen (world c) @ dialogue line ((if dir then ''[Server]> Directory created successfully''
      else ''[Server]> File created succesfully'') @ [CHR 0x0A])"
proof -
  let ?args = "make_line path mode dir" and ?res = "initial_response (command_code CREATE_FILE)"
  let ?msg = "if dir then ''Directory created successfully'' else ''File created succesfully''"
  define a where "a = (if dir then ok_answer ''Directory created successfully'' (res_payload_len ?res) ?res
      else copy_msg ''File created succesfully'' (?res\<lparr>res_status := 0\<rparr>))"
  have take: "takeable line []" using assms(2) by (simp add: types_def)
  have words: "words_of line = ''create'' # ?args" by (simp add: assms(3) make_line_def)
  have line: "line_command fuel1 M junk cfd line [] s = relay unix_kernel junk cfd CREATE_FILE ?args (Some s) s"
    using fixed_line(8) [OF take words] assms(4) by (cases dir) (simp_all add: handleCreateFile_def make_line_def)
  define E where "E = (\<lambda>w. \<forall>g. node_at w g = (if g = f then Some (if dir then Dir (creation_mode (world q) (octal_mode mode)) else File [] m) else node_at (world q) g))"
  have helper: "helper_does fuel2 helper hfd (world q) CREATE_FILE ?args s 0 [] (enc_response a) E"
  proof (rule helper_doesI, rule helper_makes [where f = f and old = old and m = m and a = a], goal_cases)
    case (1 q1 sc)
    then show ?case using connected_hfd [OF assms(1)] by simp
  next
    case (6 q1 sc)
    then show ?case using assms(10-12) by (auto simp: abs_path_dot split: if_splits)
  qed (use assms(7-11) in \<open>auto simp: a_def E_def\<close>)
  have ok: "response_wf a" "res_text (enc_response a) = ?msg"
    unfolding a_def by (cases dir; simp add: ok_text copied_text [OF _ _ refl])+
  have m: "NUL \<notin> set ?msg" "length ?msg < RES_MSG" by auto
  have n: "length ?args \<le> MAXARGS" by (simp add: make_line_def)
  have said: "''[Server]> '' @ ?msg @ [CHR 0x0A] = (if dir then ''[Server]> Directory created successfully''
      else ''[Server]> File created succesfully'') @ [CHR 0x0A]" by simp
  show ?thesis
    using passed_on_way [OF assms(1,2) words n line assms(5,6) helper ok m] unfolding assms(13,14) E_def said .
qed

theorem create_end_to_end_witness:
  "node_at (world (snd (run_state (command_round 9 unix_kernel demo_helper 4)
     (demo_q demo_world (wire_request CREATE_FILE [''g'', ''750'', ''-d''] (session_of ''bob'') 0 []))))) [''srv'', ''bob'', ''g'']
   = Some (Dir 0x1E8)"
proof -
  let ?l = "''create g 750 -d''"
  have l: "takeable ?l []" "words_of ?l = [''create'', ''g'', ''750'', ''-d'']" "CHR 0x0A \<notin> set ?l" "?l \<noteq> ''exit''" "\<not> is_write ?l"
    by (simp_all add: takeable_def words_of_def is_write_def has_prefix_def)
  have "line_command 9 unix_shm (replicate 5372 NUL) 5 ?l [] (session_of ''bob'')
      = relay unix_kernel (replicate 5372 NUL) 5 CREATE_FILE [''g'', ''750'', ''-d''] (Some (session_of ''bob'')) (session_of ''bob'')"
    using fixed_line(8) [OF l(1,2)] by (simp add: handleCreateFile_def)
  from demo_passed_on [OF l(1,3-5) this] obtain c p where con: "connected 3 5 4 (client_turn 9 3) c
      (client_round 9 unix_kernel unix_shm (replicate 5372 NUL) 5 (session_of ''bob'')) p
      (command_round 9 unix_kernel demo_helper 4) (demo_q demo_world (wire_request CREATE_FILE [''g'', ''750'', ''-d''] (session_of ''bob'') 0 []))"
      and t: "types (world c) 3 9 ?l []" by blast
  show ?thesis
    by (subst create_end_to_end [where dir = True and path = "''g''" and mode = "''750''", OF con t _ session_of(1,2) _ _ _ _ refl refl _ refl refl,
          THEN conjunct1, rule_format])
      (simp_all add: l(2) node_at_def is_dir_def mode_750)
qed

section \<open>Changing modes\<close>

text \<open>C20. The whole way of a chmod.  A user types \<open>chmod\<close>, the path of a file of the home and a mode in octal
  digits; then this file has that mode and its old contents, nothing else has changed, and the user
  reads that the permissions were updated.\<close>

theorem chmod_end_to_end:
  assumes "connected fd cfd hfd (client_turn fuel fd) c (client_round fuel1 unix_kernel M junk cfd s) p
      (command_round fuel2 unix_kernel helper hfd) q"
    and "types (world c) fd fuel line []" "words_of line = [''chmod'', path, mode]"
    and "sess_state s = STATE_LOGGED_IN" "session_wf s" "length junk = 5372"
    and "sandboxable (world q) s" "fresh_fd (world q)" "f = abs_path (in_home (world q) s) path"
    and "node_at (world q) f = Some (File content m)"
    and "w = world (snd (run_state (command_round fuel2 unix_kernel helper hfd) q))"
    and "c' = world (snd (run_state (client_turn fuel fd) c))"
  shows "(\<forall>g. node_at w g = (if g = f then Some (File content (octal_mode mode)) else node_at (world q) g)) \<and>
    screen c' = screen (world c) @ dialogue line (''[Server]> Permissions updated successfully'' @ [CHR 0x0A])"
proof -
  define a where "a = ok_answer ''Permissions updated successfully'' (res_payload_len (initial_response (command_code CHMOD)))
      (initial_response (command_code CHMOD))"
  have take: "takeable line []" using assms(2) by (simp add: types_def)
  have line: "line_command fuel1 M junk cfd line [] s = relay unix_kernel junk cfd CHMOD [path, mode] (Some s) s"
    using fixed_line(9) [OF take assms(3)] assms(4) by (simp add: handleChmod_def)
  define E where "E = (\<lambda>w. \<forall>g. node_at w g = (if g = f then Some (File content (octal_mode mode)) else node_at (world q) g))"
  have helper: "helper_does fuel2 helper hfd (world q) CHMOD [path, mode] s 0 [] (enc_response a) E"
  proof (rule helper_doesI, subst dispatch(7), goal_cases)
    case (2 q1 sc)
    have hfd: "hfd \<in> set (socks (world q1))" using connected_hfd [OF assms(1)] 2 by simp
    show ?case
      by (rule wp_mono [OF HandleHelperChmod_unix [OF _ hfd, where q = f and c = content and m = m]])
        (use 2 assms(7-10) in \<open>auto simp: E_def a_def\<close>)
  qed simp
  have ok: "response_wf a" "res_text (enc_response a) = ''Permissions updated successfully''" unfolding a_def by (simp_all add: ok_text)
  show ?thesis
    using passed_on_way [OF assms(1-3) _ line assms(5,6) helper ok] unfolding assms(11,12) E_def by simp
qed

theorem chmod_end_to_end_witness:
  "node_at (world (snd (run_state (command_round 9 unix_kernel demo_helper 4)
     (demo_q demo_world (wire_request CHMOD [''f'', ''644''] (session_of ''bob'') 0 []))))) [''srv'', ''bob'', ''f'']
   = Some (File ''hello'' 0x1A4)"
proof -
  let ?l = "''chmod f 644''"
  have l: "takeable ?l []" "words_of ?l = [''chmod'', ''f'', ''644'']" "CHR 0x0A \<notin> set ?l" "?l \<noteq> ''exit''" "\<not> is_write ?l"
    by (simp_all add: takeable_def words_of_def is_write_def has_prefix_def)
  have "line_command 9 unix_shm (replicate 5372 NUL) 5 ?l [] (session_of ''bob'')
      = relay unix_kernel (replicate 5372 NUL) 5 CHMOD [''f'', ''644''] (Some (session_of ''bob'')) (session_of ''bob'')"
    using fixed_line(9) [OF l(1,2)] by (simp add: handleChmod_def)
  from demo_passed_on [OF l(1,3-5) this] obtain c p where con: "connected 3 5 4 (client_turn 9 3) c
      (client_round 9 unix_kernel unix_shm (replicate 5372 NUL) 5 (session_of ''bob'')) p
      (command_round 9 unix_kernel demo_helper 4) (demo_q demo_world (wire_request CHMOD [''f'', ''644''] (session_of ''bob'') 0 []))"
      and t: "types (world c) 3 9 ?l []" by blast
  have m: "octal_mode ''644'' = 0x1A4" by code_simp
  show ?thesis
    by (subst chmod_end_to_end [where content = "''hello''" and m = "0x180", OF con t l(2) session_of(1,2) _ _ _ refl _ refl refl,
          THEN conjunct1, rule_format])
      (simp_all add: m)
qed

section \<open>Logging in\<close>

lemma dispatch_login:
  "decode_command (req_cmd hdr) = Some LOGIN \<Longrightarrow> handle_request fuel K helper cfd hdr [u] data =
     handleHelperLogin K cfd (Some u) (initial_response (req_cmd hdr))"
  by (simp add: handle_request_def arg_def)

definition login_answer :: "string \<Rightarrow> passwd option \<Rightarrow> helper_response" where
  "login_answer u known = (case known of
       None \<Rightarrow> set_msg (''User '' @ u @ '' not found'') ((initial_response (command_code LOGIN))\<lparr>res_status := - 1\<rparr>)
     | Some pw \<Rightarrow> set_login pw ((initial_response (command_code LOGIN))\<lparr>res_status := 0\<rparr>))"

lemma handleHelperLogin_unix:
  assumes "cfd \<in> set (socks (world p))" "map_of (users (world p)) u = known"
  shows "wp (handleHelperLogin unix_kernel cfd (Some u) (initial_response (command_code LOGIN))) (\<lambda>r p'.
      sock_out (world p') cfd = sock_out (world p) cfd @ enc_response (login_answer u known)) p"
  unfolding handleHelperLogin_def option.case wp_bind
  apply (rule wp_unix_sysI)
  apply (auto simp: assms login_answer_def respond_def wp_bind wp_return simp del: command_code.simps split: option.split intro!: wp_unix_writeAll)
  done

lemma login_answer_wf: "response_wf (login_answer u known)"
  by (simp add: login_answer_def response_wf_def set_login_def set_msg_def initial_response_def length_snprintf length_strncpy split: option.split)

lemma helper_logs_in:
  assumes "hfd \<in> set (socks w)" "map_of (users w) u = known"
  shows "helper_does fuel helper hfd w LOGIN [u] zero_session 0 [] (enc_response (login_answer u known)) (\<lambda>_. True)"
proof (rule helper_doesI, subst dispatch_login, goal_cases)
  case (2 q1 sc)
  then show ?case using wp_mono [OF handleHelperLogin_unix [of hfd q1 u known]] assms by simp
qed simp

text \<open>What the handler makes of that answer.\<close>

definition login_text :: "string \<Rightarrow> passwd option \<Rightarrow> string" where
  "login_text u known = (if known = None then ''User '' @ u @ '' not found'' else ''Login successful'')"

lemma login_reply:
  assumes "NUL \<notin> set u" "length u \<le> 19" "length junk = 5372" "a = enc_response (login_answer u known)"
  shows "answer_of a junk = ((if known = None then - 1 else 0), a)" "known = None \<Longrightarrow> res_text a = login_text u known"
    "NUL \<notin> set (login_text u known)" "length (login_text u known) < RES_MSG"
proof -
  have "res_status (login_answer u known) = (if known = None then - 1 else 0)"
    by (cases known) (simp_all add: login_answer_def set_msg_def set_login_def)
  then show "answer_of a junk = ((if known = None then - 1 else 0), a)"
    using answer_of_response [OF login_answer_wf assms(3), of u known "[]"] by (simp add: assms(4))
  show "known = None \<Longrightarrow> res_text a = login_text u known"
    using assms(1,2) by (simp add: assms(4) login_text_def login_answer_def res_text_set)
  show "NUL \<notin> set (login_text u known)" "length (login_text u known) < RES_MSG"
    using assms(1,2) by (simp_all add: login_text_def)
qed

text \<open>C6. The whole way of a login.  A user types \<open>login\<close> and a valid name of at most 19 characters.  When the
  system knows the user, the session takes the ids, the home directory and the name of that entry
  and starts in \<open>/\<close>, the handler enters itself under the name in the shared table, where others then
  find it when there was room and the name was not in it, and the user reads that the login was
  successful.  Otherwise the user reads that there is no such user, and session and table stay as they were.\<close>

theorem login_end_to_end:
  assumes "connected fd cfd hfd (client_turn fuel fd) c (client_round fuel1 unix_kernel unix_shm junk cfd s) p
      (command_round fuel2 unix_kernel helper hfd) q"
    and "types (world c) fd fuel line []" "words_of line = [''login'', u]"
    and "sess_state s \<noteq> STATE_LOGGED_IN" "session_wf s" "length junk = 5372"
    and "isUsernameValid u" "length u < MAX_USERNAME_LEN" "map_of (users (world q)) u = known"
    and "\<forall>pw. known = Some pw \<longrightarrow> NUL \<notin> set (pw_dir pw) \<and> length (pw_dir pw) < ABS_PATH"
    and "r = shared (world p)" "pid = my_pid (world p)"
    and "r' = shared (world (snd (run_state (client_round fuel1 unix_kernel unix_shm junk cfd s) p)))"
    and "c' = world (snd (run_state (client_turn fuel fd) c))"
  shows "\<exists>s'. fst (run_state (client_round fuel1 unix_kernel unix_shm junk cfd s) p) = Returned (Continue s') \<and>
    (case known of
       Some pw \<Rightarrow> sess_state s' = STATE_LOGGED_IN \<and> sess_uid s' = pw_uid pw \<and> sess_gid s' = pw_gid pw \<and>
         session_user s' = u \<and> session_home s' = pw_dir pw \<and> session_workdir s' = ''/'' \<and>
         r' = register_user u pid r \<and>
         (find_index (\<lambda>e. is_active e = 0) (online_users r) \<noteq> None \<and>
            (\<forall>e\<in>set (online_users r). is_active e \<noteq> 0 \<longrightarrow> entry_name e \<noteq> u) \<longrightarrow> find_handler u r' = Some pid) \<and>
         screen c' = screen (world c) @ dialogue line (''[Server]> Login successful'' @ [CHR 0x0A])
     | None \<Rightarrow> s' = s \<and> r' = r \<and>
         screen c' = screen (world c) @ dialogue line (''[Server]> User '' @ u @ '' not found'' @ [CHR 0x0A]))"
proof -
  define a where "a = enc_response (login_answer u known)"
  have take: "takeable line []" using assms(2) by (simp add: types_def)
  have u: "NUL \<notin> set u" "length u \<le> 19" using valid_user_no_nul [OF assms(7)] assms(8) by auto
  let ?ans = "\<lambda>inp. case answer_of inp junk of (st, res) \<Rightarrow>
        if st = 0 then wire_text 0 0 ''Login successful'' else wire_text (- 1) 0 (res_text res)"
  have line: "line_command fuel1 unix_shm junk cfd line [] s = handleLogin unix_kernel unix_shm junk cfd [''login'', u] s"
    by (rule fixed_line(10) [OF take assms(3)]) simp_all
  note asks = handleLogin_asks [OF assms(4,7), of r junk cfd "''login''", folded line [unfolded assms(11)], unfolded assms(11)]
  have send: "sendable [u] zero_session []"
    by (rule sendable_words [OF take assms(3)]) (simp_all add: session_wf_def zero_session_def)
  note reply = login_reply [OF u assms(6) a_def]
  have out: "?ans a = wire_text (if known = None then - 1 else 0) 0 (login_text u known)"
    unfolding reply(1) prod.case using reply(2) by (simp add: login_text_def)
  note talk = text_conversation(2,3,4) [OF assms(1,2) asks send
      helper_logs_in [OF connected_hfd [OF assms(1)] assms(9), folded a_def] out reply(3,4)]
  show ?thesis
  proof (cases known)
    case None
    then show ?thesis using talk unfolding assms(11,13,14) by (simp add: reply(1) continue_with_def login_text_def)
  next
    case (Some pw)
    then have aS: "enc_response (set_login pw ((initial_response (command_code LOGIN))\<lparr>res_status := 0\<rparr>)) = a"
      by (simp add: a_def login_answer_def)
    note f = login_fills_session [OF initial_response_wf assms(5,7) _ _ refl, of pw "command_code LOGIN", unfolded aS]
    have r': "r' = register_user u pid r" using talk(2) Some unfolding assms(11-13) by (simp add: reply(1))
    have "find_handler u r' = Some pid"
      if "find_index (\<lambda>e. is_active e = 0) (online_users r) \<noteq> None" "\<forall>e\<in>set (online_users r). is_active e \<noteq> 0 \<longrightarrow> entry_name e \<noteq> u"
      using that u(1) assms(8) unfolding r' by (auto intro: login_is_found)
    then show ?thesis
      using talk(1,3) Some f assms(8,10) r' unfolding assms(14)
      by (auto simp: reply(1) continue_with_def login_text_def)
  qed
qed

theorem login_end_to_end_witness:
  "\<exists>c p. find_handler ''ann'' (shared (world (snd (run_state (client_round 9 unix_kernel unix_shm (replicate 5372 NUL) 5 zero_session) p))))
      = Some (my_pid (world p)) \<and>
    screen (world (snd (run_state (client_turn 9 3) c))) = dialogue ''login ann'' (''[Server]> Login successful'' @ [CHR 0x0A])"
proof -
  let ?l = "''login ann''" and ?u = "\<lparr>pw_name = ''ann'', pw_uid = 7, pw_gid = 8, pw_dir = ''/srv/ann''\<rparr>"
  have l: "takeable ?l []" "words_of ?l = [''login'', ''ann'']" "CHR 0x0A \<notin> set ?l" "?l \<noteq> ''exit''"
    "if is_write ?l then length ([] :: bytes) < 9 else [] = []"
    by (simp_all add: takeable_def words_of_def is_write_def has_prefix_def)
  have z: "sess_state zero_session \<noteq> STATE_LOGGED_IN" "session_wf zero_session" "isUsernameValid ''ann''"
    by (simp_all add: zero_session_def session_wf_def isUsernameValid_iff isalpha_def)
  have "line_command 9 unix_shm (replicate 5372 NUL) 5 ?l [] zero_session
      = handleLogin unix_kernel unix_shm (replicate 5372 NUL) 5 [''login'', ''ann''] zero_session"
    by (rule fixed_line(10) [OF l(1,2)]) simp_all
  note asks = handleLogin_asks [OF z(1,3), where reg = "init_registry 0" and cfd = 5 and c = "''login''" and
      junk = "replicate 5372 NUL", folded this]
  note con = demo_connected [OF l(1,3-5) asks refl refl refl refl refl four, where ?fuel2.0 = 9 and helper = demo_helper]
  have free: "find_index (\<lambda>e. is_active e = 0) (online_users (init_registry 0)) \<noteq> None"
      "\<forall>e\<in>set (online_users (init_registry 0)). is_active e \<noteq> 0 \<longrightarrow> entry_name e \<noteq> ''ann''"
    by (simp_all add: init_registry_def free_entry_def numeral_eq_Suc)
  show ?thesis
    using login_end_to_end [OF con l(2) z(1,2) _ z(3) _ _ _ refl refl refl refl, where known = "Some ?u"] free by auto
qed

end
