(* ===== verification/Session_Life.thy ===== *)
theory Session_Life
  imports Tree_Way
begin

text \<open>
  The whole life of a handler process: a client logs in and goes away.
\<close>

lemma wp_unix_login:
  assumes "cfd \<in> set (socks (world p))" "4 \<in> set (socks (world p))" "cfd \<noteq> 4"
    and "sess_state s \<noteq> STATE_LOGGED_IN" "isUsernameValid u" "answer_of (sock_in (world p) 4) junk = (0, ans)"
    and "\<And>p'. shared (world p') = register_user u (my_pid (world p)) (shared (world p)) \<Longrightarrow>
      socks (world p') = socks (world p) \<Longrightarrow> sock_in (world p') cfd = sock_in (world p) cfd \<Longrightarrow>
      sigflag (world p') = sigflag (world p) \<Longrightarrow> my_pid (world p') = my_pid (world p) \<Longrightarrow> Q (Returned (logged_in u ans s)) p'"
  shows "wp (handleLogin unix_kernel unix_shm junk cfd [c, u] s) Q p"
proof -
  have nth: "length [c, u] = 2" "[c, u] ! 1 = u" by simp_all
  show ?thesis
    unfolding handleLogin_def nth sendHelperRequest_RW list.sel wp_bind
    apply (simp only: assms(4,5) simp_thms if_False wp_bind)
    apply (rule wp_unix_connect)
    apply (simp add: wp_bind cong: step_congs)
    apply (rule wp_unix_request [where data = "[]"])
      apply (use assms(2) in simp)
     apply (simp add: data_given_def)
    apply (simp add: assms(6) wp_bind)
    apply (rule wp_unix_callI)
    apply (simp add: wp_bind)
    apply (rule wp_unix_critical)
    apply (simp add: wp_bind)
    apply (rule wp_unix_reply_close)
      apply (use assms(1,2) in simp_all)
    apply (rule assms(7))
    apply (use assms(3) in simp_all)
    done
qed

lemma wp_unix_gone:
  assumes "cfd \<in> set (socks (world p))" "sock_in (world p) cfd = []" "\<not> sigflag (world p)"
    and "\<And>p'. shared (world p') = shared (world p) \<Longrightarrow> socks (world p') = socks (world p) \<Longrightarrow> my_pid (world p') = my_pid (world p) \<Longrightarrow>
      Q (Returned (Break s)) p'"
  shows "wp (client_round fuel unix_kernel M junk cfd s) Q p"
  unfolding client_round_def wp_bind
  apply (rule wp_unix_callI)
  apply (simp add: assms(3) wp_return wp_bind cong: step_congs)
  apply (rule wp_unix_hear_any)
   apply (simp add: assms(1))
  apply (simp add: assms(2) wp_return assms(4))
  done

lemma wp_unix_end_session:
  assumes "sess_state s = STATE_LOGGED_IN"
    and "\<And>p'. shared (world p') = unregister_user (my_pid (world p)) (cleanup_user_requests (session_user s) (shared (world p))) \<Longrightarrow> Q () p'"
  shows "wp (end_session unix_kernel unix_shm cfd s) Q p"
  unfolding end_session_def wp_bind assms(1) simp_thms if_True
  apply (rule wp_unix_critical)
  apply (simp only: wp_bind)?
  apply (rule wp_unix_callI)
  apply (simp only: wp_bind)?
  apply (rule wp_unix_critical)
  apply (simp only: wp_bind)?
  apply (rule wp_unix_callI)
  apply (simp only: wp_return)
  apply (rule assms(2), simp)
  done

text \<open>The loop of a client that logs in and goes away.\<close>

lemma wp_unix_login_and_gone:
  assumes "cfd \<in> set (socks (world p))" "4 \<in> set (socks (world p))" "cfd \<noteq> 4" "\<not> sigflag (world p)"
    and "takeable line []" "words_of line = [''login'', u]" "sock_in (world p) cfd = request_bytes line []"
    and "sess_state s \<noteq> STATE_LOGGED_IN" "isUsernameValid u" "answer_of (sock_in (world p) 4) junk = (0, ans)"
    and "\<And>p'. shared (world p') = register_user u (my_pid (world p)) (shared (world p)) \<Longrightarrow>
      my_pid (world p') = my_pid (world p) \<Longrightarrow> Q (Returned (logged_in u ans s)) p'"
  shows "wp (client_loop (Suc (Suc fuel)) unix_kernel unix_shm junk cfd s) Q p"
proof -
  obtain hdr payload where b: "build_request line [] = (hdr, payload)" by fastforce
  have inp: "sock_in (world p) cfd = enc_msg_header hdr @ payload @ []" using assms(7) b by (simp add: request_bytes_def)
  have line: "line_command f unix_shm junk cfd line [] s = handleLogin unix_kernel unix_shm junk cfd [''login'', u] s" for f
    by (rule fixed_line(10) [OF assms(5,6)]) simp_all
  have cmd: "run_command f unix_kernel unix_shm junk cfd (tokenizeCommand (payload @ [NUL])) (payloadLength hdr) s
      = handleLogin unix_kernel unix_shm junk cfd [''login'', u] s" for f
    using line [of f] by (simp add: line_command_def b)
  show ?thesis
    unfolding client_loop.simps wp_bind
    apply (rule wp_unix_client_round [OF assms(1,4,5) b inp])
    apply (unfold cmd, rule wp_unix_login [where ans = ans])
          apply (use assms(1-4,7-10) inp header_codec.enc_width [of hdr] in simp_all)[6]
    apply (simp add: continue_with_def wp_bind)
    apply (rule wp_unix_gone)
       apply (use assms(1-4) inp header_codec.enc_width [of hdr] in simp_all)[3]
    apply (simp add: wp_return, rule assms(11); use assms(3) in simp)
    done
qed

lemma filter_update: "k < length xs \<Longrightarrow> P (xs ! k) = P x \<Longrightarrow> \<not> P x \<Longrightarrow> filter P (xs[k := x]) = filter P xs"
  by (induction xs arbitrary: k) (auto split: nat.split)

abbreviation active :: "SharedRegistry \<Rightarrow> UserEntry list" where
  "active r \<equiv> filter (\<lambda>e. is_active e \<noteq> 0) (online_users r)"

lemma unregister_inactive:
  assumes "\<forall>e\<in>set (online_users r). handler_pid e = pid \<longrightarrow> is_active e = 0"
  shows "active (unregister_user pid r) = active r"
proof (cases "find_index (\<lambda>e. handler_pid e = pid) (online_users r)")
  case (Some k)
  then have "k < length (online_users r)" "handler_pid (online_users r ! k) = pid"
    using find_index_less [OF Some] find_index_holds [OF Some] by simp_all
  then show ?thesis using assms nth_mem [of k "online_users r"] by (simp add: unregister_user_def Some filter_update)
qed (simp add: unregister_user_def)

lemma online_users_cleanup: "online_users (cleanup_user_requests u r) = online_users r"
  by (simp add: cleanup_user_requests_def)

lemma unregister_users: "online_users r1 = online_users r2 \<Longrightarrow> online_users (unregister_user pid r1) = online_users (unregister_user pid r2)"
  by (simp add: unregister_user_def split: option.split)

lemma login_and_leave:
  assumes "\<forall>e\<in>set (online_users r). is_active e \<noteq> 0 \<longrightarrow> handler_pid e \<noteq> pid"
    and "r' = unregister_user pid (cleanup_user_requests u (register_user u pid r))"
  shows "active r' = active r"
proof -
  have users: "online_users r' = online_users (unregister_user pid (register_user u pid r))"
    unfolding assms(2) by (rule unregister_users [OF online_users_cleanup])
  show ?thesis
  proof (cases "find_index (\<lambda>e. is_active e = 0) (online_users r)")
    case None
    then have "register_user u pid r = r" by (simp add: register_user_def)
    then show ?thesis unfolding users using unregister_inactive [of r pid] assms(1) by auto
  next
    case (Some k)
    define e where "e = \<lparr>ue_username = strncpy MAX_USERNAME_LEN u (ue_username (online_users r ! k)), handler_pid = pid, is_active = 1\<rparr>"
    have k: "k < length (online_users r)" "is_active (online_users r ! k) = 0" "\<forall>j<k. is_active (online_users r ! j) \<noteq> 0"
      using Some by (simp_all add: find_index_Some)
    have reg: "online_users (register_user u pid r) = (online_users r)[k := e]"
      by (simp add: register_user_def Some e_def)
    have "find_index (\<lambda>e. handler_pid e = pid) ((online_users r)[k := e]) = Some k"
      unfolding find_index_Some using k assms(1) by (auto simp: e_def)
    then have "online_users (unregister_user pid (register_user u pid r)) = (online_users r)[k := e\<lparr>is_active := 0\<rparr>]"
      using k(1) by (simp add: unregister_user_def reg)
    then show ?thesis unfolding users using k by (simp add: filter_update)
  qed
qed

text \<open>C12. A session leaves no trace in the shared tables.  The life of a handler whose client logs in, with a
  name the helper knows, and then closes the connection: the process returns, the users that are
  online are exactly those that were online before, in the same entries, and of the open requests of the table
  those addressed to this user are gone and all others are as they were.\<close>

theorem session_leaves_no_trace:
  assumes "cfd \<in> set (socks (world p))" "4 \<in> set (socks (world p))" "cfd \<noteq> 4" "\<not> sigflag (world p)"
    and "takeable line []" "words_of line = [''login'', u]" "sock_in (world p) cfd = request_bytes line []"
    and "isUsernameValid u" "length u < MAX_USERNAME_LEN" "NUL \<notin> set (pw_dir pw)" "length (pw_dir pw) < ABS_PATH"
    and "sock_in (world p) 4 = enc_response (login_answer u (Some pw))" "length junk = 5372"
    and "r = shared (world p)" "registry_ok r" "ids_ok r"
    and "\<forall>e\<in>set (online_users r). is_active e \<noteq> 0 \<longrightarrow> handler_pid e \<noteq> my_pid (world p)"
    and "end = run_state (handleClient (Suc (Suc fuel)) unix_kernel unix_shm junk cfd) p" "r' = shared (world (snd end))"
  shows "fst end = Returned () \<and> active r' = active r \<and>
    (\<forall>i. book r' i = (case book r i of None \<Rightarrow> None | Some x \<Rightarrow> if t_to x = u then None else Some x))"
proof -
  define r2 where "r2 = unregister_user (my_pid (world p)) (cleanup_user_requests u (register_user u (my_pid (world p)) r))"
  define ans where "ans = enc_response (login_answer u (Some pw))"
  define s2 where "s2 = logged_in u ans zero_session"
  have z: "sess_state zero_session \<noteq> STATE_LOGGED_IN" "session_wf zero_session" by (simp_all add: zero_session_def session_wf_def)
  have u: "NUL \<notin> set u" "length u \<le> 19" using valid_user_no_nul [OF assms(8)] assms(9) by auto
  have a: "answer_of (sock_in (world p) 4) junk = (0, ans)"
    using login_reply(1) [OF u assms(13) ans_def] by (simp add: assms(12) ans_def)
  have s2: "sess_state s2 = STATE_LOGGED_IN" "session_user s2 = u"
    using login_fills_session [OF initial_response_wf z(2) assms(8,10,11) refl, of "command_code LOGIN"] assms(9)
    by (simp_all add: s2_def ans_def login_answer_def)
  have "wp (handleClient (Suc (Suc fuel)) unix_kernel unix_shm junk cfd) (\<lambda>r p'. r = Returned () \<and> shared (world p') = r2) p"
    unfolding handleClient_def setup_signal_handling_def wp_bind
    apply (rule wp_unix_callI)
    apply (simp add: wp_bind wp_return del: client_loop.simps cong: step_congs)
    apply (rule wp_unix_login_and_gone [OF _ _ assms(3) _ assms(5,6) _ z(1) assms(8)])
         apply (use assms(1,2,4,7) a in simp_all)[5]
    apply (simp add: wp_bind s2_def [symmetric])
    apply (rule wp_unix_end_session [OF s2(1)])
    apply (simp add: wp_return r2_def s2(2) assms(14))
    done
  then have e: "fst end = Returned ()" "r' = r2" unfolding assms(18,19) by (simp_all add: wp_run)
  have "pending r2 = pending (cleanup_user_requests u r)"
    by (simp add: r2_def unregister_user_def register_user_def cleanup_user_requests_def split: option.split)
  then have "book r2 = book (cleanup_user_requests u r)"
    by (simp add: book_def fun_eq_iff)
  then show ?thesis
    using e login_and_leave [OF assms(17) r2_def] book_cleanup [OF assms(15,16), of u] by (simp add: book_drop_receiver_def)
qed

theorem session_leaves_no_trace_witness:
  "\<exists>p. shared (world p) = register_user ''bob'' 41 (init_registry 0) \<and>
     active (shared (world (snd (run_state (handleClient 2 unix_kernel unix_shm (replicate 5372 NUL) 5) p)))) =
       active (register_user ''bob'' 41 (init_registry 0))"
proof -
  let ?l = "''login ann''" and ?u = "\<lparr>pw_name = ''ann'', pw_uid = 7, pw_gid = 8, pw_dir = ''/srv/ann''\<rparr>"
    and ?r = "register_user ''bob'' 41 (init_registry 0)"
  define p where "p = fresh_proc (demo_world\<lparr>socks := [4, 5], shared := ?r,
    sock_in := (\<lambda>x. if x = 5 then request_bytes ?l [] else enc_response (login_answer ''ann'' (Some ?u)))\<rparr>) 0"
  have l: "takeable ?l []" "words_of ?l = [''login'', ''ann'']" by (simp_all add: takeable_def words_of_def)
  have u: "isUsernameValid ''ann''" by (simp add: isUsernameValid_iff isalpha_def)
  have w: "cfd \<in> {4, 5} \<Longrightarrow> cfd \<in> set (socks (world p))" "\<not> sigflag (world p)" "sock_in (world p) 5 = request_bytes ?l []"
      "sock_in (world p) 4 = enc_response (login_answer ''ann'' (Some ?u))" "shared (world p) = ?r" "my_pid (world p) = 100" for cfd
    by (auto simp: p_def demo_world_def)
  have step: "registry_step (init_registry 0) (Login ''bob'' 41) ?r" by (rule registry_step.intros)
  have r: "registry_ok ?r" "ids_ok ?r"
    using registry_ok_step [OF step registry_ok_init] ids_ok_other_step [OF ids_ok_init step] by auto
  have o: "\<forall>e\<in>set (online_users ?r). is_active e \<noteq> 0 \<longrightarrow> handler_pid e \<noteq> my_pid (world p)"
    unfolding w(6) by (auto simp: register_user_def init_registry_def free_entry_def numeral_eq_Suc)
  have two: "handleClient 2 K M junk cfd = handleClient (Suc (Suc 0)) K M junk cfd" for K M junk cfd
    by (simp only: numeral_2_eq_2)
  show ?thesis
    using session_leaves_no_trace [OF w(1) w(1) _ w(2) l w(3) u _ _ _ w(4) _ w(5) [symmetric] r o refl refl, of "replicate 5372 NUL" 0]
    unfolding two by (intro exI [of _ p]) (simp add: w(5))
qed

end
