(* ===== verification/Spec2Isabelle.thy ===== *)
theory Spec2Isabelle
  imports Helper_Limits Server_Shutdown Data_Way Meeting_Way Session_Life
begin

text \<open>
  A verification library for the file server of this repository.

  \<^bold>\<open>The program.\<close>  Three kinds of processes work together.  The \<^emph>\<open>server\<close>
  (\<open>src/src/server/main.c\<close>, \<open>core/server.c\<close>) creates a listening socket, a shared
  memory segment and the helper, goes into its root directory, gives up root and
  forks one \<^emph>\<open>handler\<close> per client (\<open>handler/handlers.c\<close>).  A handler reads requests,
  cuts them into words, and carries out what needs files or users by asking the
  \<^emph>\<open>helper\<close> (\<open>helper/helper.c\<close>), which keeps root and serves every connection in a
  process of its own that locks itself into the user's home under the user's
  identity.  Handlers of different clients meet in the shared registry: the table of
  online users and the table of transfer requests.  The \<^emph>\<open>client\<close> (\<open>src/src/client\<close>)
  has one thread that sends commands, one that shows answers, and a thread per
  upload or download over a data connection of its own.

  \<^bold>\<open>How it is modelled.\<close>  A function of the source is a function of the same name in
  a state monad; the state is the process: the world, the calls it has made with
  their answers, and \<open>errno\<close> (theory \<open>Kernel\<close>).  Every system call is a value of the type \<open>syscall\<close>
  and is answered by a parameter \<open>K\<close>, the kernel.  A theorem for every \<open>K\<close> holds
  for every failure, partial read and interleaving.  Such theorems are proved with
  monitors, automata that read the calls of a process.  Effects on files are proved
  on one concrete kernel (\<open>Unix_Kernel\<close>), whose sockets hand out and take bytes in
  pieces of any sizes.  Early returns and the code after an \<open>out\<close> label are
  branches; \<open>_exit\<close> is the outcome \<open>Exited\<close>, undefined behaviour of C the outcome
  \<open>Undefined\<close>, and a loop that has used up its fuel is \<open>Running\<close>.

  \<^bold>\<open>Theories of the model.\<close>
  \<^item> \<open>Prelude\<close>, \<open>CLib\<close>: rule collections, the weakest precondition of a program;
    strings, copies, \<open>strtok\<close>, \<open>atoi\<close> and \<open>strtol\<close> of the C library on byte lists.
  \<^item> \<open>Kernel\<close>: system calls, processes, outcomes, monitors.
  \<^item> \<open>Stream_IO\<close> (\<open>common/utility.c\<close>): \<open>writeAll\<close>, \<open>readAll\<close>, the byte streams, the
    file locks; the interfaces \<open>byte_source\<close> and \<open>byte_sink\<close> of a descriptor.
  \<^item> \<open>Protocol\<close> (\<open>server/net/net.c\<close>, the headers): the structures on the wire as
    fixed-width codecs, the helper socket, requests and answers.
  \<^item> \<open>Privileges\<close> (\<open>server/utils/utils.c\<close>): user names, sandbox and identity, the lock on
    the creation of users; the jail monitor.
  \<^item> \<open>Helper_Files\<close>, \<open>Helper_Main\<close>, \<open>Helper_Dispatch\<close> (\<open>server/helper/helper.c\<close>): the
    handlers of the helper, the dispatch on the command, its loops.
    \<open>Descriptors\<close> has the monitor of open descriptors and their locks.
  \<^item> \<open>Registry\<close> (\<open>SharedRegistry\<close> of \<open>net.h\<close>, the critical sections of
    \<open>handlers.c\<close>), \<open>Registry_Invariants\<close> (runs of any number of handlers),
    \<open>Transfer_Book\<close> (the abstract book of transfers).
  \<^item> \<open>Tokenizer\<close>, \<open>Server_Commands\<close>, \<open>Server_Transfers\<close>, \<open>Server_Session\<close>
    (\<open>server/handler/handlers.c\<close>): from the request to the command; the commands.
  \<^item> \<open>Server_Core\<close> (\<open>core/server.c\<close>, \<open>server/main.c\<close>): start, accept loop, shutdown.
  \<^item> \<open>Client\<close> (\<open>src/src/client\<close>): the two threads with what they print, the threads of
    the transfers, \<open>main\<close>.
  \<^item> \<open>Unix_Kernel\<close>, \<open>Helper_Semantics\<close>, \<open>Helper_Streams\<close>, \<open>Helper_Tree\<close>, \<open>Helper_Directory\<close>:
    the concrete kernel and what the handlers of the helper do on it.

  \<^bold>\<open>Theories of the properties.\<close>
  \<^item> \<open>Helper_Properties\<close>: confinement, locks and descriptors, for every kernel.
  \<^item> \<open>Helper_Effects\<close>: what a request does to the file tree and answers.  \<open>Helper_Limits\<close>:
    how many entries a listing may have before the helper leaves its array.
  \<^item> \<open>Helper_Protocols\<close>: the lock around the creation of users, the paths of a
    transfer, the framing between handler and helper.
  \<^item> \<open>Registry_Properties\<close>: invariants of all interleavings, refinement of the book, a
    request's way to its receiver.
  \<^item> \<open>Server_Properties\<close>, \<open>Server_Confinement\<close>, \<open>Server_Rendezvous\<close>: the way from a
    client's line to the command, who may do what, the loss of root, how two
    handlers meet.  \<open>Server_Shutdown\<close>: whom the end of the server ends, and what it removes.
  \<^item> \<open>Client_Properties\<close>: what the user sees, when \<open>exit\<close> is obeyed (\<open>client_run\<close>: the rounds of
    the client's threads in any order).
  \<^item> \<open>Wire_Exchange\<close>, \<open>End_To_End\<close>, \<open>Whole_Way\<close>: the processes together.  \<open>Wire_Exchange\<close>
    says for every command what the handler asks the helper and what it makes of the
    answer, \<open>Data_Connection\<close> what the client's threads and the forked child of a handler
    do on a data connection, \<open>End_To_End\<close> joins a turn of the client, a round of the handler and a round
    of the helper, and \<open>Whole_Way\<close> and \<open>Data_Way\<close> have the theorems a user cares about: from the
    line typed to the file tree and back to the terminal, and from one file tree to the
    other in a download or an upload (\<open>data_connected\<close>: the client's transfer thread, the
    forked child of the handler and the helper join in).  Each of the three processes runs
    on the concrete kernel in a world of its own; they are joined by the bytes: what a
    process can read from a connection is what the run of the process at the other end
    has sent on it (\<open>connected\<close>), and the kernel of each end cuts these into pieces as it
    likes.  The handlers share the registry, the helpers the file tree.

  \<^bold>\<open>Bounds and fuel.\<close>  Loops that make progress in every round (\<open>writeAll\<close>, \<open>readAll\<close>,
  the relay of a download) are total functions.  Loops that wait for something take
  fuel, one unit a round: the streams of downloads, uploads and transfers (every
  round moves a byte, so more rounds than bytes are enough, which the theorems
  say), directory listings, the request and accept loops, and the wait for a receiver, which may go on for ever.  A theorem about a run
  says \<open>Returned\<close> where the code returns.

  \<^bold>\<open>Not modelled.\<close>  Diagnostics of the server and the helper on the standard streams;
  the failure of \<open>malloc\<close>.  The critical sections of the client's threads are single
  steps of the model, so its mutexes are not there.  Their turns are rounds: where a
  theorem is about the flags of the client (\<open>own_flags\<close>) no other thread changes them in the middle of one.
  The concrete kernel checks no permissions: who may do what is shown by the monitors on credentials, and the
  theorems on that kernel are about files and directories whose modes let the user do what is asked; so
  \<open>lock_file\<close>, which opens a file for reading and writing, is taken to succeed on a file that is there.  It
  applies the mask of the helper or the client to every file and directory it creates.  An access to the
  shared registry is no event: theorems about calls alone do not speak of it.
\<close>

end
